(* ===== verification/Prelude.thy ===== *)
theory Prelude
  imports Complex_Main "HOL-Library.Signed_Division" "HOL-Library.Code_Target_Nat"
begin

text \<open>
  Shared vocabulary of the development: Go's \<open>int64\<close> arithmetic with its wrap-around, the
  byte-level string functions of Go's \<open>strings\<close> and \<open>strconv\<close> packages that the services call,
  decimal printing and reading, and generic list lemmas. A Go \<open>string\<close> is a list of bytes, so
  \<^typ>\<open>string\<close> (a list of 8-bit characters) is exactly it and \<^const>\<open>length\<close> is Go's \<open>len\<close>.
\<close>

named_theorems go_simps \<comment> \<open>equations that evaluate the library functions on closed input\<close>

section \<open>64-bit integers\<close>

type_synonym int64 = int
type_synonym duration = int \<comment> \<open>\<open>time.Duration\<close>: nanoseconds, an \<open>int64\<close>\<close>
type_synonym instant = int \<comment> \<open>\<open>time.Time\<close>: a monotonic clock reading in nanoseconds\<close>

definition is_int64 :: "int \<Rightarrow> bool" where
  "is_int64 x \<longleftrightarrow> -(2 ^ 63) \<le> x \<and> x < 2 ^ 63"

definition wrap64 :: "int \<Rightarrow> int64" where
  "wrap64 x = (x + 2 ^ 63) mod 2 ^ 64 - 2 ^ 63"

text \<open>Go's \<open>x << n\<close> on an \<open>int64\<close>: the bits shifted out are lost.\<close>

definition shl64 :: "int64 \<Rightarrow> nat \<Rightarrow> int64" where
  "shl64 x n = wrap64 (x * 2 ^ n)"

lemma is_int64_wrap64 [simp, intro]: "is_int64 (wrap64 x)"
proof -
  have "0 \<le> (x + 2 ^ 63) mod 2 ^ 64" and "(x + 2 ^ 63) mod 2 ^ 64 < (2 ^ 64 :: int)"
    by simp_all
  then show ?thesis unfolding is_int64_def wrap64_def by simp
qed

lemma wrap64_id [simp]: "is_int64 x \<Longrightarrow> wrap64 x = x"
proof -
  assume "is_int64 x"
  then have "0 \<le> x + 2 ^ 63" and "x + 2 ^ 63 < 2 ^ 64" by (simp_all add: is_int64_def)
  then show ?thesis unfolding wrap64_def by (simp add: mod_pos_pos_trivial)
qed

lemma shl64_small: "is_int64 (x * 2 ^ n) \<Longrightarrow> shl64 x n = x * 2 ^ n"
  by (simp add: shl64_def)

lemma shl64_all_out: "64 \<le> n \<Longrightarrow> shl64 x n = 0"
proof -
  assume "64 \<le> n"
  then obtain k where n: "n = 64 + k" using le_Suc_ex by blast
  have "x * 2 ^ n + 2 ^ 63 = 2 ^ 63 + (x * 2 ^ k) * (2 ^ 64 :: int)"
    by (simp add: n power_add)
  then have "(x * 2 ^ n + 2 ^ 63) mod 2 ^ 64 = (2 ^ 63 :: int) mod 2 ^ 64"
    by (simp only: mod_mult_self1)
  then show ?thesis by (simp add: shl64_def wrap64_def)
qed

text \<open>\<open>time.Second\<close> and its kin.\<close>

abbreviation millisecond :: duration where "millisecond \<equiv> 1000000"
abbreviation second :: duration where "second \<equiv> 1000000000"

text \<open>
  \<open>int(d.Seconds())\<close>: conversion of a float to an integer truncates towards zero. \<open>Seconds\<close> adds the
  whole seconds and the fraction in \<open>float64\<close>; below \<open>2\<^sup>2\<^sup>3\<close> seconds (97 days) the sum is rounded by less
  than a nanosecond, so that the integer part is the exact one, which is what this definition computes.
\<close>

definition whole_seconds :: "duration \<Rightarrow> int" where
  "whole_seconds d = d sdiv second"

section \<open>Bytes and characters\<close>

definition byte :: "char \<Rightarrow> nat" where
  "byte c = of_char c"

definition is_digit :: "char \<Rightarrow> bool" where
  "is_digit c \<longleftrightarrow> 48 \<le> byte c \<and> byte c \<le> 57"

definition is_lower :: "char \<Rightarrow> bool" where
  "is_lower c \<longleftrightarrow> 97 \<le> byte c \<and> byte c \<le> 122"

definition is_upper :: "char \<Rightarrow> bool" where
  "is_upper c \<longleftrightarrow> 65 \<le> byte c \<and> byte c \<le> 90"

definition digit_value :: "char \<Rightarrow> nat" where
  "digit_value c = byte c - 48"

definition digit_char :: "nat \<Rightarrow> char" where
  "digit_char d = char_of (48 + d)"

lemmas char_class_defs = byte_def is_digit_def is_lower_def is_upper_def digit_value_def

lemma byte_less_256 [simp]: "byte c < 256"
  by (simp add: byte_def)

lemma byte_digit_char: "d < 10 \<Longrightarrow> byte (digit_char d) = 48 + d"
  by (simp add: byte_def digit_char_def)

lemma is_digit_digit_char [simp]: "d < 10 \<Longrightarrow> is_digit (digit_char d)"
  by (simp add: is_digit_def byte_digit_char)

lemma digit_value_digit_char [simp]: "d < 10 \<Longrightarrow> digit_value (digit_char d) = d"
  by (simp add: digit_value_def byte_digit_char)

lemma is_digit_neq: "is_digit c \<Longrightarrow> \<not> is_digit d \<Longrightarrow> c \<noteq> d"
  by auto

definition ascii_lower :: "char \<Rightarrow> char" where
  "ascii_lower c = (if is_upper c then char_of (byte c + 32) else c)"

section \<open>Decimal digits\<close>

text \<open>\<open>all_digits\<close> of a possibly empty text, and the number a digit text denotes.\<close>

definition digits_only :: "string \<Rightarrow> bool" where
  "digits_only s \<longleftrightarrow> list_all is_digit s"

definition digits_value :: "string \<Rightarrow> nat" where
  "digits_value s = foldl (\<lambda>n c. 10 * n + digit_value c) 0 s"

fun dec_digits :: "nat \<Rightarrow> string" where
  "dec_digits n = (if n < 10 then [digit_char n] else dec_digits (n div 10) @ [digit_char (n mod 10)])"

declare dec_digits.simps [simp del]

text \<open>\<open>strconv.Itoa\<close>, \<open>big.Int.String\<close>.\<close>

definition itoa :: "int \<Rightarrow> string" where
  "itoa n = (if n < 0 then ''-'' @ dec_digits (nat (- n)) else dec_digits (nat n))"

text \<open>A number printed with leading zeros up to a width.\<close>

definition zero_pad :: "nat \<Rightarrow> string \<Rightarrow> string" where
  "zero_pad w s = replicate (w - length s) CHR ''0'' @ s"

lemma digits_only_Nil [simp]: "digits_only []"
  by (simp add: digits_only_def)

lemma digits_only_Cons [simp]: "digits_only (c # s) \<longleftrightarrow> is_digit c \<and> digits_only s"
  by (simp add: digits_only_def)

lemma digits_only_append [simp]: "digits_only (s @ t) \<longleftrightarrow> digits_only s \<and> digits_only t"
  by (simp add: digits_only_def)

lemma digits_value_Nil [simp]: "digits_value [] = 0"
  by (simp add: digits_value_def)

lemma digits_value_snoc [simp]: "digits_value (s @ [c]) = 10 * digits_value s + digit_value c"
  by (simp add: digits_value_def)

lemma digits_value_append: "digits_value (s @ t) = digits_value s * 10 ^ length t + digits_value t"
  by (induction t rule: rev_induct) (simp_all flip: append_assoc add: algebra_simps)

lemma digits_only_dec_digits [simp]: "digits_only (dec_digits n)"
  by (induction n rule: dec_digits.induct) (subst dec_digits.simps, simp)

lemma digits_value_dec_digits [simp]: "digits_value (dec_digits n) = n"
proof (induction n rule: dec_digits.induct)
  case (1 n)
  show ?case
  proof (cases "n < 10")
    case True
    then show ?thesis by (subst dec_digits.simps) (simp add: digits_value_def)
  next
    case False
    with 1 show ?thesis by (subst dec_digits.simps) simp
  qed
qed

lemma dec_digits_nonempty [simp]: "dec_digits n \<noteq> []"
  by (subst dec_digits.simps) simp

lemma length_dec_digits: "0 < k \<Longrightarrow> n < 10 ^ k \<Longrightarrow> length (dec_digits n) \<le> k"
proof (induction n arbitrary: k rule: dec_digits.induct)
  case (1 n)
  show ?case
  proof (cases "n < 10")
    case True
    with "1.prems" show ?thesis by (subst dec_digits.simps) simp
  next
    case False
    with "1.prems" obtain j where k: "k = Suc j" and j: "0 < j"
      by (cases k; cases "k - 1") auto
    from "1.prems" have "n div 10 < 10 ^ j" by (simp add: k less_mult_imp_div_less mult.commute)
    with "1.IH" False j have "length (dec_digits (n div 10)) \<le> j" by blast
    with False show ?thesis by (subst dec_digits.simps) (simp add: k)
  qed
qed

lemma digits_value_replicate_zero [simp]: "digits_value (replicate k CHR ''0'' @ s) = digits_value s"
proof -
  have "digits_value (replicate k CHR ''0'') = 0"
    by (induction k) (simp_all add: digits_value_def char_class_defs)
  then show ?thesis by (simp add: digits_value_append)
qed

lemma digits_only_zero_pad [simp]: "digits_only (zero_pad w s) \<longleftrightarrow> digits_only s"
  by (auto simp: zero_pad_def digits_only_def list_all_iff char_class_defs)

lemma digits_value_zero_pad [simp]: "digits_value (zero_pad w s) = digits_value s"
  by (simp add: zero_pad_def)

lemma length_zero_pad: "length s \<le> w \<Longrightarrow> length (zero_pad w s) = w"
  by (simp add: zero_pad_def)

lemma digits_value_bound: "digits_only s \<Longrightarrow> digits_value s < 10 ^ length s"
proof (induction s rule: rev_induct)
  case Nil
  then show ?case by simp
next
  case (snoc c s)
  then have "digits_value s < 10 ^ length s" and "digit_value c < 10"
    by (auto simp: digit_value_def is_digit_def)
  then show ?case by simp
qed

end
