(* ===== verification/GoStrings.thy ===== *)
theory GoStrings
  imports Prelude
begin

text \<open>
  The functions of Go's \<open>strings\<close>, \<open>strconv\<close> and \<open>slices\<close> packages that the services call,
  on byte strings: \<open>TrimSpace\<close>, \<open>ToLower\<close>, \<open>EqualFold\<close>, \<open>Cut\<close>, \<open>Split\<close>, \<open>ContainsAny\<close>,
  \<open>Atoi\<close>/\<open>ParseInt\<close> and \<open>slices.Contains\<close>.
\<close>

section \<open>White space\<close>

text \<open>
  \<open>strings.TrimSpace\<close> removes Unicode white space, so on bytes it removes the UTF-8 encodings of
  the code points of \<open>unicode.IsSpace\<close>: the six ASCII ones, U+0085, U+00A0, U+1680,
  U+2000 to U+200A, U+2028, U+2029, U+202F, U+205F and U+3000.
\<close>

definition bytes :: "nat list \<Rightarrow> string" where
  "bytes ns = map char_of ns"

definition ascii_spaces :: "string list" where
  "ascii_spaces = map (\<lambda>n. bytes [n]) [9, 10, 11, 12, 13, 32]"

definition unicode_spaces :: "string list" where
  "unicode_spaces =
     map bytes ([[0xC2, 0x85], [0xC2, 0xA0], [0xE1, 0x9A, 0x80]]
       @ map (\<lambda>n. [0xE2, 0x80, n]) [0x80, 0x81, 0x82, 0x83, 0x84, 0x85, 0x86, 0x87, 0x88, 0x89,
           0x8A, 0xA8, 0xA9, 0xAF]
       @ [[0xE2, 0x81, 0x9F], [0xE3, 0x80, 0x80]])"

definition space_runes :: "string list" where
  "space_runes = ascii_spaces @ unicode_spaces"

text \<open>Remove prefixes from a list of non-empty patterns for as long as one matches.\<close>

function strip :: "string list \<Rightarrow> string \<Rightarrow> string" where
  "strip ps s =
     (case find (\<lambda>p. p \<noteq> [] \<and> take (length p) s = p) ps of
        None \<Rightarrow> s
      | Some p \<Rightarrow> strip ps (drop (length p) s))"
  by pat_completeness auto
termination
proof (relation "measure (\<lambda>(ps, s). length s)", simp, clarsimp)
  fix ps s p
  assume "find (\<lambda>p. p \<noteq> [] \<and> take (length p) s = p) ps = Some p"
  then have "p \<noteq> []" and "take (length p) s = p" by (auto simp: find_Some_iff)
  then show "length s - length p < length s"
    by (metis diff_less length_greater_0_conv take_eq_Nil)
qed

declare strip.simps [simp del]

definition trim_left :: "string \<Rightarrow> string" where
  "trim_left s = strip space_runes s"

definition trim_right :: "string \<Rightarrow> string" where
  "trim_right s = rev (strip (map rev space_runes) (rev s))"

definition trim_space :: "string \<Rightarrow> string" where
  "trim_space s = trim_right (trim_left s)"

lemma strip_unchanged:
  "\<forall>p \<in> set ps. p = [] \<or> take (length p) s \<noteq> p \<Longrightarrow> strip ps s = s"
proof -
  assume "\<forall>p \<in> set ps. p = [] \<or> take (length p) s \<noteq> p"
  then have "find (\<lambda>p. p \<noteq> [] \<and> take (length p) s = p) ps = None"
    by (auto simp: find_None_iff)
  then show ?thesis by (subst strip.simps) simp
qed

lemma strip_length: "length (strip ps s) \<le> length s"
proof (induction ps s rule: strip.induct)
  case (1 ps s)
  show ?case
  proof (cases "find (\<lambda>p. p \<noteq> [] \<and> take (length p) s = p) ps")
    case None
    then show ?thesis by (subst strip.simps) simp
  next
    case (Some p)
    then have "length (strip ps (drop (length p) s)) \<le> length (drop (length p) s)" by (rule "1.IH")
    then show ?thesis using Some by (subst strip.simps) simp
  qed
qed

lemma strip_result:
  "(\<exists>pre. s = pre @ strip ps s) \<and> (\<forall>p \<in> set ps. p \<noteq> [] \<longrightarrow> take (length p) (strip ps s) \<noteq> p)"
proof (induction ps s rule: strip.induct)
  case (1 ps s)
  show ?case
  proof (cases "find (\<lambda>p. p \<noteq> [] \<and> take (length p) s = p) ps")
    case None
    then have "strip ps s = s" by (subst strip.simps) simp
    then show ?thesis using None by (auto simp: find_None_iff)
  next
    case (Some p)
    then have eq: "strip ps s = strip ps (drop (length p) s)" by (subst strip.simps) simp
    obtain pre where pre: "drop (length p) s = pre @ strip ps s" using "1.IH" [OF Some] eq by auto
    then have "s = (take (length p) s @ pre) @ strip ps s" by (metis append_take_drop_id append_assoc)
    then show ?thesis using "1.IH" [OF Some] eq by metis
  qed
qed

lemma strip_idem [simp]: "strip ps (strip ps s) = strip ps s"
  using strip_result [of s ps] by (intro strip_unchanged) auto

lemma strip_Nil [simp]: "strip ps [] = []"
  by (rule strip_unchanged) auto

lemma strip_hd_not:
  assumes "\<forall>p \<in> set ps. p = [] \<or> hd p \<noteq> c"
  shows "strip ps (c # s) = c # s"
  using assms by (intro strip_unchanged ballI) (metis length_0_conv list.sel(1) take_eq_Nil take_Cons' list.simps(3))

text \<open>The bytes at which white space can start, and end.\<close>

definition space_edges :: "char set" where
  "space_edges = set (map hd space_runes) \<union> set (map last space_runes)"

lemma trim_left_length: "length (trim_left s) \<le> length s"
  by (simp add: trim_left_def strip_length)

lemma space_runes_nonempty: "[] \<notin> set space_runes"
  by (simp add: space_runes_def ascii_spaces_def unicode_spaces_def bytes_def)

lemma trim_left_Cons: "c \<notin> space_edges \<Longrightarrow> trim_left (c # s) = c # s"
  unfolding trim_left_def space_edges_def by (rule strip_hd_not) force

lemma trim_right_snoc: "c \<notin> space_edges \<Longrightarrow> trim_right (s @ [c]) = s @ [c]"
  unfolding trim_right_def space_edges_def
  by (simp, subst strip_hd_not) (force simp: hd_rev)+

lemma trim_space_id:
  assumes "s \<noteq> []" "hd s \<notin> space_edges" "last s \<notin> space_edges"
  shows "trim_space s = s"
proof -
  have "trim_left s = s" using assms by (cases s) (auto simp: trim_left_Cons)
  moreover have "trim_right s = s"
    using assms by (cases s rule: rev_cases) (auto simp: trim_right_snoc)
  ultimately show ?thesis by (simp add: trim_space_def)
qed

lemma trim_space_Nil [simp]: "trim_space [] = []"
  by (simp add: trim_space_def trim_left_def trim_right_def)

text \<open>Trimming twice is trimming once: what is left of a string starts with no white space of its own.\<close>

lemma trim_space_idem [simp]: "trim_space (trim_space s) = trim_space s"
proof -
  let ?t = "trim_left s" and ?u = "trim_right (trim_left s)"
  obtain pre where "rev ?t = pre @ strip (map rev space_runes) (rev ?t)" using strip_result by blast
  then have t: "?t = ?u @ rev pre" unfolding trim_right_def by (metis rev_append rev_rev_ident)
  have "take (length p) ?u \<noteq> p" if p: "p \<in> set space_runes" "p \<noteq> []" for p
  proof
    assume u: "take (length p) ?u = p"
    then have "length p \<le> length ?u" by (metis length_take min.cobounded1)
    then have "take (length p) ?t = p" using u t by (metis take_append append_Nil2 diff_is_0_eq take0)
    then show False using strip_result [of s space_runes] p unfolding trim_left_def by blast
  qed
  then have "trim_left ?u = ?u" unfolding trim_left_def [of ?u] by (intro strip_unchanged) auto
  then show ?thesis by (simp add: trim_space_def trim_right_def)
qed

lemma space_edges_code:
  "space_edges = set (map char_of ([9, 10, 11, 12, 13, 32, 0xC2, 0xE1, 0xE2, 0xE3, 0x80, 0x81, 0x82,
      0x83, 0x84, 0x85, 0x86, 0x87, 0x88, 0x89, 0x8A, 0x9F, 0xA0, 0xA8, 0xA9, 0xAF] :: nat list))"
  unfolding space_edges_def space_runes_def ascii_spaces_def unicode_spaces_def bytes_def by auto

lemma space_edges_byte: "c \<in> space_edges \<Longrightarrow> byte c \<le> 32 \<or> 128 \<le> byte c"
  unfolding space_edges_code by (auto simp: byte_def)

lemma graphic_not_space [simp]: "32 < byte c \<Longrightarrow> byte c < 128 \<Longrightarrow> c \<notin> space_edges"
  using space_edges_byte by fastforce

section \<open>Case\<close>

text \<open>
  \<open>strings.ToLower\<close>. The services only compare its result with ASCII literals, so besides the
  ASCII capitals only the two code points whose lower case is an ASCII letter matter: U+0130
  (\<open>i\<close>) and U+212A (\<open>k\<close>). Every other non-ASCII byte stays a non-ASCII byte.
\<close>

fun to_lower :: "string \<Rightarrow> string" where
  "to_lower [] = []"
| "to_lower (c # s) =
     (if byte c = 0xC4 \<and> s \<noteq> [] \<and> byte (hd s) = 0xB0 then CHR ''i'' # to_lower (tl s)
      else if byte c = 0xE2 \<and> take 2 s = bytes [0x84, 0xAA] then CHR ''k'' # to_lower (drop 2 s)
      else ascii_lower c # to_lower s)"

text \<open>
  \<open>strings.EqualFold\<close> against an ASCII literal without the letters \<open>k\<close> and \<open>s\<close>, which are the
  only ASCII letters with a non-ASCII partner under simple folding.
\<close>

definition equal_fold_ascii :: "string \<Rightarrow> string \<Rightarrow> bool" where
  "equal_fold_ascii s t \<longleftrightarrow> map ascii_lower s = map ascii_lower t"

section \<open>Cutting and searching\<close>

text \<open>\<open>strings.Cut(s, sep)\<close> for a one-byte separator: before, after, found.\<close>

fun cut :: "char \<Rightarrow> string \<Rightarrow> string \<times> string \<times> bool" where
  "cut sep [] = ([], [], False)"
| "cut sep (c # s) =
     (if c = sep then ([], s, True)
      else (case cut sep s of (b, a, f) \<Rightarrow> (c # b, a, f)))"

lemma cut_no_sep [simp]: "sep \<notin> set s \<Longrightarrow> cut sep s = (s, [], False)"
  by (induction s) auto

lemma cut_append [simp]: "sep \<notin> set s \<Longrightarrow> cut sep (s @ sep # t) = (s, t, True)"
  by (induction s) auto

lemma cut_True: "cut sep s = (b, a, True) \<Longrightarrow> s = b @ sep # a \<and> sep \<notin> set b"
  by (induction s arbitrary: b a) (auto split: if_splits prod.splits)

lemma cut_False: "cut sep s = (b, a, False) \<Longrightarrow> s = b \<and> a = [] \<and> sep \<notin> set s"
  by (induction s arbitrary: b a) (auto split: if_splits prod.splits)

text \<open>\<open>strings.Split(s, sep)\<close> for a one-byte separator: always at least one piece.\<close>

fun split_on :: "char \<Rightarrow> string \<Rightarrow> string list" where
  "split_on sep [] = [[]]"
| "split_on sep (c # s) =
     (if c = sep then [] # split_on sep s
      else (case split_on sep s of [] \<Rightarrow> [[c]] | p # ps \<Rightarrow> (c # p) # ps))"

lemma split_on_nonempty [simp]: "split_on sep s \<noteq> []"
  by (cases s) (auto split: list.splits)

definition contains_any :: "string \<Rightarrow> string \<Rightarrow> bool" where
  "contains_any s chars \<longleftrightarrow> list_ex (\<lambda>c. List.member chars c) s"

text \<open>\<open>slices.Contains\<close> and the repository's own \<open>contains\<close> are the same loop.\<close>

fun contains :: "'a list \<Rightarrow> 'a \<Rightarrow> bool" where
  "contains [] w = False"
| "contains (v # vs) w = (if v = w then True else contains vs w)"

lemma contains_iff [simp]: "contains vs w \<longleftrightarrow> w \<in> set vs"
  by (induction vs) auto

section \<open>Integers\<close>

text \<open>
  \<open>strconv.ParseInt(s, 10, 64)\<close>, and \<open>strconv.Atoi\<close> where \<open>int\<close> has 64 bits: an optional sign and
  at least one digit. \<open>None\<close> is either error of the library, syntax or range.
\<close>

definition parse_int :: "string \<Rightarrow> int64 option" where
  "parse_int s =
     (let neg = (s \<noteq> [] \<and> hd s = CHR ''-'');
          t = (if s \<noteq> [] \<and> (hd s = CHR ''-'' \<or> hd s = CHR ''+'') then tl s else s);
          n = int (digits_value t);
          v = (if neg then - n else n)
      in if t = [] \<or> \<not> digits_only t then None
         else if is_int64 v then Some v else None)"

lemma parse_int_is_int64: "parse_int s = Some v \<Longrightarrow> is_int64 v"
  by (auto simp: parse_int_def Let_def split: if_splits)

lemma parse_int_digits:
  assumes "t \<noteq> []" "digits_only t" "is_int64 (int (digits_value t))"
  shows "parse_int t = Some (int (digits_value t))"
proof -
  have "is_digit (hd t)" using assms by (cases t) auto
  then have "hd t \<noteq> CHR ''-''" "hd t \<noteq> CHR ''+''" by (auto simp: char_class_defs)
  with assms show ?thesis by (simp add: parse_int_def Let_def)
qed

lemma parse_int_itoa: "is_int64 n \<Longrightarrow> parse_int (itoa n) = Some n"
proof (cases "n < 0")
  case True
  assume "is_int64 n"
  with True show ?thesis by (simp add: itoa_def parse_int_def Let_def)
next
  case False
  assume "is_int64 n"
  with False show ?thesis by (simp add: itoa_def parse_int_digits)
qed

end
