(* ===== verification/Money.thy ===== *)
theory Money
  imports GoStrings
begin

text \<open>
  \<open>internal/platform/money/money.go\<close>: exact amounts and rates on \<open>math/big.Rat\<close>, which is
  \<^typ>\<open>rat\<close>. The nil pointer inside a zero \<open>Amount\<close> is \<^const>\<open>None\<close>. The lemmas show that
  rounding happens once and half up, that integer boundaries report instead of wrapping, and that
  printing and parsing are inverse at the two scales the services use.
\<close>

section \<open>Types\<close>

definition maxTextLen :: nat where "maxTextLen = 32"

datatype parse_error = ErrFormat | ErrTooLong

record Amount =
  amount_r :: "rat option"
  amount_scale :: int

record Rate =
  rate_r :: "rat option"

definition amountPlaces :: nat where "amountPlaces = 2"
definition ratePlaces :: nat where "ratePlaces = 4"

definition zero_Amount :: Amount where
  "zero_Amount = \<lparr>amount_r = None, amount_scale = 0\<rparr>"

definition zero_Rate :: Rate where
  "zero_Rate = \<lparr>rate_r = None\<rparr>"

definition Amount_rat :: "Amount \<Rightarrow> rat" where
  "Amount_rat a = (case amount_r a of None \<Rightarrow> 0 | Some r \<Rightarrow> r)"

definition Rate_rat :: "Rate \<Rightarrow> rat" where
  "Rate_rat x = (case rate_r x of None \<Rightarrow> 0 | Some r \<Rightarrow> r)"

section \<open>Rounding and integer boundaries\<close>

definition scaleFactor :: "nat \<Rightarrow> int" where
  "scaleFactor places = 10 ^ places"

text \<open>\<open>new(big.Int).Div\<close> is Euclidean, the same as \<open>div\<close> on a positive divisor.\<close>

definition RoundHalfUp :: "rat \<Rightarrow> nat \<Rightarrow> rat" where
  "RoundHalfUp r places =
     (let scale = scaleFactor places;
          scaled = r * of_int scale;
          total = scaled + 1 / 2;
          (num, denom) = quotient_of total;
          n = num div denom
      in of_int n / of_int scale)"

definition scaledInt :: "rat \<Rightarrow> nat \<Rightarrow> int64 \<times> bool" where
  "scaledInt r places =
     (let (num, denom) = quotient_of (RoundHalfUp r places);
          n = num * scaleFactor places div denom
      in if \<not> is_int64 n then (0, False) else (n, True))"

section \<open>Rendering\<close>

text \<open>\<open>big.Rat.FloatString(prec)\<close>, the library's own algorithm on numerator and denominator.\<close>

definition fraction_digits :: "nat \<Rightarrow> nat \<Rightarrow> string" where
  "fraction_digits prec r = (if prec = 0 then [] else CHR ''.'' # zero_pad prec (dec_digits r))"

definition FloatString :: "rat \<Rightarrow> nat \<Rightarrow> string" where
  "FloatString x prec =
     (case quotient_of x of (a, b) \<Rightarrow>
        if b = 1 then itoa a @ (if prec = 0 then [] else CHR ''.'' # replicate prec CHR ''0'')
        else
          (let q = nat \<bar>a\<bar> div nat b;
               p = 10 ^ prec;
               r0 = (nat \<bar>a\<bar> mod nat b) * p;
               r = r0 div nat b;
               r2 = 2 * (r0 mod nat b);
               r' = (if nat b \<le> r2 then r + 1 else r);
               (q', r'') = (if nat b \<le> r2 \<and> p \<le> r' then (q + 1, r' - p) else (q, r'))
           in (if a < 0 then ''-'' else []) @ dec_digits q' @ fraction_digits prec r''))"

definition format_money :: "rat \<Rightarrow> nat \<Rightarrow> string" where
  "format_money r places = FloatString (RoundHalfUp r places) places"

definition Amount_String :: "Amount \<Rightarrow> string" where
  "Amount_String a = format_money (Amount_rat a) amountPlaces"

definition Rate_String :: "Rate \<Rightarrow> string" where
  "Rate_String x = format_money (Rate_rat x) ratePlaces"

definition Amount_MarshalJSON :: "Amount \<Rightarrow> string" where
  "Amount_MarshalJSON a = Amount_String a"

definition Rate_MarshalJSON :: "Rate \<Rightarrow> string" where
  "Rate_MarshalJSON x = Rate_String x"

text \<open>Values are immutable here, so a copy is the value itself; \<open>RatString\<close> is the library's.\<close>

definition Amount_Rat :: "Amount \<Rightarrow> rat" where "Amount_Rat a = Amount_rat a"
definition Rate_Rat :: "Rate \<Rightarrow> rat" where "Rate_Rat x = Rate_rat x"

definition RatString :: "rat \<Rightarrow> string" where
  "RatString x = (case quotient_of x of (n, d) \<Rightarrow> itoa n @ (if d = 1 then [] else CHR ''/'' # itoa d))"

definition Amount_GoString :: "Amount \<Rightarrow> string" where
  "Amount_GoString a = ''money.Amount('' @ RatString (Amount_rat a) @ '')''"

definition Rate_GoString :: "Rate \<Rightarrow> string" where
  "Rate_GoString x = ''money.Rate('' @ RatString (Rate_rat x) @ '')''"

section \<open>Parsing\<close>

definition allDigits :: "string \<Rightarrow> bool" where
  "allDigits s \<longleftrightarrow> s \<noteq> [] \<and> list_all (\<lambda>c. \<not> (byte c < 48 \<or> 57 < byte c)) s"

definition parseDecimal :: "string \<Rightarrow> parse_error + rat \<times> int" where
  "parseDecimal txt =
     (if length txt > maxTextLen then Inl ErrTooLong
      else if txt = [] then Inl ErrFormat
      else
        (let negative = (hd txt = CHR ''-'');
             s = (if hd txt = CHR ''-'' then tl txt else if hd txt = CHR ''+'' then tl txt else txt)
         in case cut CHR ''.'' s of (whole, frac_part, hasFrac) \<Rightarrow>
              if whole = [] \<or> \<not> allDigits whole then Inl ErrFormat
              else if hasFrac \<and> (frac_part = [] \<or> \<not> allDigits frac_part) then Inl ErrFormat
              else
                (let digits = int (digits_value (whole @ frac_part));
                     digits' = (if negative then - digits else digits);
                     places = length frac_part
                 in Inr (of_int digits' / of_int (scaleFactor places), int places))))"

definition ParseAmount :: "string \<Rightarrow> parse_error + Amount" where
  "ParseAmount txt =
     (case parseDecimal txt of
        Inl e \<Rightarrow> Inl e
      | Inr (r, scale) \<Rightarrow> Inr \<lparr>amount_r = Some r, amount_scale = scale\<rparr>)"

definition ParseRate :: "string \<Rightarrow> parse_error + Rate" where
  "ParseRate txt =
     (case parseDecimal txt of
        Inl e \<Rightarrow> Inl e
      | Inr (r, _) \<Rightarrow> Inr \<lparr>rate_r = Some r\<rparr>)"

section \<open>Operations\<close>

definition FromCents :: "int64 \<Rightarrow> Amount" where
  "FromCents cents = \<lparr>amount_r = Some (of_int cents / 100), amount_scale = int amountPlaces\<rparr>"

definition RateFromTenThousandths :: "int64 \<Rightarrow> Rate" where
  "RateFromTenThousandths n = \<lparr>rate_r = Some (of_int n / 10000)\<rparr>"

definition DecimalPlaces :: "Amount \<Rightarrow> int" where
  "DecimalPlaces a = amount_scale a"

definition Amount_Sign :: "Amount \<Rightarrow> int" where
  "Amount_Sign a = (if Amount_rat a < 0 then -1 else if Amount_rat a = 0 then 0 else 1)"

definition rat_cmp :: "rat \<Rightarrow> rat \<Rightarrow> int" where
  "rat_cmp x y = (if x < y then -1 else if x = y then 0 else 1)"

definition Amount_Cmp :: "Amount \<Rightarrow> Amount \<Rightarrow> int" where
  "Amount_Cmp a b = rat_cmp (Amount_rat a) (Amount_rat b)"

definition Rate_Cmp :: "Rate \<Rightarrow> Rate \<Rightarrow> int" where
  "Rate_Cmp x y = rat_cmp (Rate_rat x) (Rate_rat y)"

definition Amount_Mul :: "Amount \<Rightarrow> Rate \<Rightarrow> Amount" where
  "Amount_Mul a x = \<lparr>amount_r = Some (Amount_rat a * Rate_rat x), amount_scale = 0\<rparr>"

definition Rate_Add :: "Rate \<Rightarrow> Rate \<Rightarrow> Rate" where
  "Rate_Add x y = \<lparr>rate_r = Some (Rate_rat x + Rate_rat y)\<rparr>"

definition Cents :: "Amount \<Rightarrow> int64 \<times> bool" where
  "Cents a = scaledInt (Amount_rat a) amountPlaces"

definition TenThousandths :: "Rate \<Rightarrow> int64 \<times> bool" where
  "TenThousandths x = scaledInt (Rate_rat x) ratePlaces"

section \<open>Lemmas: rounding\<close>

lemma quotient_div_floor: "quotient_of x = (a, b) \<Longrightarrow> a div b = \<lfloor>x\<rfloor>"
  by (metis floor_divide_of_int_eq quotient_of_div)

lemma RoundHalfUp_floor:
  "RoundHalfUp r p = of_int \<lfloor>r * 10 ^ p + 1 / 2\<rfloor> / 10 ^ p"
  by (auto simp: RoundHalfUp_def scaleFactor_def Let_def quotient_div_floor split: prod.splits)

lemma RoundHalfUp_eq:
  assumes "\<lfloor>r * 10 ^ p + 1 / 2\<rfloor> = n"
  shows "RoundHalfUp r p = of_int n / 10 ^ p"
  using assms by (simp add: RoundHalfUp_floor)

lemma floor_half_of_int [simp]: "\<lfloor>of_int n + 1 / 2 :: rat\<rfloor> = n"
  by (rule floor_unique) simp_all

lemma RoundHalfUp_exact [simp]: "RoundHalfUp (of_int n / 10 ^ p) p = of_int n / 10 ^ p"
  by (simp add: RoundHalfUp_floor)

lemma RoundHalfUp_idem [simp]: "RoundHalfUp (RoundHalfUp r p) p = RoundHalfUp r p"
  using RoundHalfUp_exact by (metis RoundHalfUp_floor)

lemma floor_of_int_ratio: "quotient_of x = (a, b) \<Longrightarrow> a * c div b = \<lfloor>x * of_int c\<rfloor>"
proof -
  assume q: "quotient_of x = (a, b)"
  have "a * c div b = \<lfloor>of_int (a * c) / (of_int b :: rat)\<rfloor>"
    by (simp only: floor_divide_of_int_eq)
  also have "of_int (a * c) / (of_int b :: rat) = x * of_int c"
    using quotient_of_div [OF q] by simp
  finally show ?thesis .
qed

lemma scaledInt_floor:
  "scaledInt r p =
     (let n = \<lfloor>r * 10 ^ p + 1 / 2\<rfloor> in if is_int64 n then (n, True) else (0, False))"
proof (cases "quotient_of (RoundHalfUp r p)")
  case (Pair a b)
  have "a * scaleFactor p div b = \<lfloor>RoundHalfUp r p * of_int (scaleFactor p)\<rfloor>"
    by (rule floor_of_int_ratio [OF Pair])
  also have "\<dots> = \<lfloor>r * 10 ^ p + 1 / 2\<rfloor>"
    by (simp add: RoundHalfUp_floor scaleFactor_def)
  finally show ?thesis by (simp add: scaledInt_def Pair Let_def)
qed

section \<open>Lemmas: rendering\<close>

text \<open>What \<open>FloatString\<close> prints for a whole number of units of \<open>10\<^sup>-\<^sup>p\<close>.\<close>

definition decimal_text :: "int \<Rightarrow> nat \<Rightarrow> string" where
  "decimal_text n p =
     (if n < 0 then ''-'' else []) @ dec_digits (nat \<bar>n\<bar> div 10 ^ p)
       @ CHR ''.'' # zero_pad p (dec_digits (nat \<bar>n\<bar> mod 10 ^ p))"

lemma reduced_fraction:
  assumes "quotient_of (of_int n / 10 ^ p) = (a, b)"
  obtains k where "k > 0" "b > 0" "10 ^ p = b * k" "n = a * k"
proof -
  have b: "b > 0" and cop: "coprime a b" and eq: "of_int n / 10 ^ p = of_int a / (of_int b :: rat)"
    using assms quotient_of_denom_pos quotient_of_coprime quotient_of_div by blast+
  from eq b have "(of_int (n * b) :: rat) = of_int (a * 10 ^ p)"
    by (simp add: field_simps)
  then have nb: "n * b = a * 10 ^ p" by (simp only: of_int_eq_iff)
  then have "b dvd 10 ^ p"
    using cop by (metis coprime_commute coprime_dvd_mult_right_iff dvd_triv_right)
  then obtain k where k: "10 ^ p = b * k" by blast
  have "0 < b * k" by (simp flip: k)
  with b have "k > 0" by (simp add: zero_less_mult_iff)
  moreover from nb k b have "n = a * k" by simp
  ultimately show thesis using that b k by blast
qed

lemma digit_char_0 [simp]: "digit_char 0 = CHR ''0''"
  by code_simp

lemma zero_pad_zero: "0 < p \<Longrightarrow> zero_pad p (dec_digits 0) = replicate p CHR ''0''"
  by (cases p) (simp_all add: zero_pad_def dec_digits.simps replicate_append_same)

lemma FloatString_scaled:
  assumes "0 < p"
  shows "FloatString (of_int n / 10 ^ p) p = decimal_text n p"
proof -
  obtain a b where q: "quotient_of (of_int n / 10 ^ p) = (a, b)" by (cases "quotient_of (of_int n / 10 ^ p)")
  then obtain k where k: "k > 0" and b: "b > 0" and pk: "10 ^ p = b * k" and n: "n = a * k"
    by (rule reduced_fraction)
  let ?A = "nat \<bar>a\<bar>" let ?B = "nat b" let ?K = "nat k"
  have N: "nat \<bar>n\<bar> = ?A * ?K" using k by (simp add: n abs_mult nat_mult_distrib)
  have "nat (10 ^ p) = ?B * ?K" using b k by (simp add: pk nat_mult_distrib)
  then have P: "10 ^ p = ?B * ?K" by (simp add: nat_power_eq)
  have quot: "nat \<bar>n\<bar> div 10 ^ p = ?A div ?B" and rem: "nat \<bar>n\<bar> mod 10 ^ p = (?A mod ?B) * ?K"
    unfolding N P using k by (simp_all add: mult_mod_left)
  have r: "(?A mod ?B) * 10 ^ p div ?B = (?A mod ?B) * ?K"
    and r2: "(?A mod ?B) * 10 ^ p mod ?B = 0"
    unfolding P using b by (simp_all add: mult.left_commute)
  have sgn: "n < 0 \<longleftrightarrow> a < 0" using k by (simp add: n mult_less_0_iff)
  show ?thesis
  proof (cases "b = 1")
    case True
    with pk have "k = 10 ^ p" by simp
    then have "nat \<bar>n\<bar> mod 10 ^ p = 0" by (simp add: N nat_power_eq)
    moreover have "nat \<bar>n\<bar> div 10 ^ p = ?A" using quot True by simp
    moreover have "itoa a = (if n < 0 then ''-'' else []) @ dec_digits ?A"
      using sgn by (simp add: itoa_def)
    ultimately show ?thesis
      using \<open>0 < p\<close> by (simp add: FloatString_def q True decimal_text_def zero_pad_zero)
  next
    case False
    then have "FloatString (of_int n / 10 ^ p) p =
        (if a < 0 then ''-'' else []) @ dec_digits (?A div ?B) @ fraction_digits p ((?A mod ?B) * ?K)"
      using b by (simp add: FloatString_def q r r2 Let_def)
    then show ?thesis
      using \<open>0 < p\<close> sgn by (simp add: decimal_text_def quot rem fraction_digits_def)
  qed
qed

lemma format_money_text:
  "0 < p \<Longrightarrow> format_money r p = decimal_text \<lfloor>r * 10 ^ p + 1 / 2\<rfloor> p"
  by (simp add: format_money_def RoundHalfUp_floor FloatString_scaled)

section \<open>Lemmas: parsing\<close>

lemma allDigits_iff: "allDigits s \<longleftrightarrow> s \<noteq> [] \<and> digits_only s"
  by (auto simp: allDigits_def digits_only_def is_digit_def list_all_iff)

text \<open>The grammar the parser accepts: sign, whole part, optional fraction.\<close>

definition sign_text :: "bool \<Rightarrow> string \<Rightarrow> bool" where
  "sign_text neg sg \<longleftrightarrow> (if neg then sg = ''-'' else sg = [] \<or> sg = ''+'')"

definition decimal_syntax :: "bool \<Rightarrow> string \<Rightarrow> string \<Rightarrow> string \<Rightarrow> bool" where
  "decimal_syntax neg whole digs txt \<longleftrightarrow>
     whole \<noteq> [] \<and> digits_only whole \<and> digits_only digs
     \<and> (\<exists>sg. sign_text neg sg \<and> txt = sg @ whole @ (if digs = [] then [] else CHR ''.'' # digs))"

definition decimal_value :: "bool \<Rightarrow> string \<Rightarrow> string \<Rightarrow> rat" where
  "decimal_value neg whole digs =
     (if neg then -1 else 1) * of_nat (digits_value (whole @ digs)) / 10 ^ length digs"

lemma digits_only_no_dot: "digits_only s \<Longrightarrow> CHR ''.'' \<notin> set s"
  by (auto simp: digits_only_def list_all_iff char_class_defs)

lemma digits_not_sign: "digits_only (c # s) \<Longrightarrow> c \<noteq> CHR ''-'' \<and> c \<noteq> CHR ''+''"
  by (auto simp: char_class_defs)

text \<open>The parser after the sign is taken off and the text is cut at the point.\<close>

definition unsigned_text :: "string \<Rightarrow> string" where
  "unsigned_text txt = (if hd txt = CHR ''-'' then tl txt else if hd txt = CHR ''+'' then tl txt else txt)"

lemma parseDecimal_cut:
  assumes "txt \<noteq> []" "length txt \<le> maxTextLen"
    and cut: "cut CHR ''.'' (unsigned_text txt) = (whole, digs, hasf)"
  shows "parseDecimal txt =
    (if \<not> allDigits whole \<or> hasf \<and> \<not> allDigits digs then Inl ErrFormat
     else Inr (decimal_value (hd txt = CHR ''-'') whole digs, int (length digs)))"
  unfolding parseDecimal_def Let_def unsigned_text_def [symmetric] cut prod.case
  using assms(1,2) by (simp add: decimal_value_def scaleFactor_def allDigits_def)

lemma unsigned_text_signed:
  assumes "sign_text neg sg" "digits_only (c # s)" "txt = sg @ c # s @ t"
  shows "unsigned_text txt = c # s @ t \<and> (hd txt = CHR ''-'') = neg"
  using assms digits_not_sign [OF assms(2)]
  by (auto simp: sign_text_def unsigned_text_def split: if_splits)

lemma signed_unsigned_text:
  assumes "txt \<noteq> []"
  shows "\<exists>sg. sign_text (hd txt = CHR ''-'') sg \<and> txt = sg @ unsigned_text txt"
proof -
  let ?sg = "if hd txt = CHR ''-'' \<or> hd txt = CHR ''+'' then [hd txt] else []"
  have "sign_text (hd txt = CHR ''-'') ?sg \<and> txt = ?sg @ unsigned_text txt"
    using assms by (cases "txt") (auto simp: sign_text_def unsigned_text_def)
  then show ?thesis by blast
qed

lemma parseDecimal_accepts:
  assumes "decimal_syntax neg whole digs txt" "length txt \<le> maxTextLen"
  shows "parseDecimal txt = Inr (decimal_value neg whole digs, int (length digs))"
proof -
  let ?tail = "if digs = [] then [] else CHR ''.'' # digs"
  obtain sg where w: "whole \<noteq> []" "digits_only whole" and d: "digits_only digs"
    and sg: "sign_text neg sg" and text_eq: "txt = sg @ whole @ ?tail"
    using assms(1) unfolding decimal_syntax_def by blast
  obtain c w' where cw: "whole = c # w'" using w by (cases whole) auto
  have uns: "unsigned_text txt = whole @ ?tail" and neg: "(hd txt = CHR ''-'') = neg"
    using unsigned_text_signed [OF sg, of c w' "txt" ?tail] w text_eq by (simp_all add: cw)
  have "cut CHR ''.'' (unsigned_text txt) = (whole, digs, digs \<noteq> [])"
    using w digits_only_no_dot by (simp add: uns)
  moreover have "txt \<noteq> []" using w by (simp add: text_eq)
  ultimately show ?thesis
    using parseDecimal_cut assms(2) w d by (simp add: neg allDigits_iff)
qed

lemma parseDecimal_sound:
  assumes parsed: "parseDecimal txt = Inr (v, k)"
  shows "\<exists>neg whole digs. decimal_syntax neg whole digs txt \<and> length txt \<le> maxTextLen
    \<and> v = decimal_value neg whole digs \<and> k = int (length digs)"
proof -
  obtain whole digs hasf where c: "cut CHR ''.'' (unsigned_text txt) = (whole, digs, hasf)"
    by (cases "cut CHR ''.'' (unsigned_text txt)")
  let ?neg = "hd txt = CHR ''-''"
  from parsed have len: "length txt \<le> maxTextLen" and ne: "txt \<noteq> []"
    by (auto simp: parseDecimal_def split: if_splits)
  note eq = parseDecimal_cut [OF ne len c, unfolded parsed]
  from eq have ok: "allDigits whole" "hasf \<longrightarrow> allDigits digs"
    by (auto split: if_splits)
  from eq ok have val: "v = decimal_value ?neg whole digs \<and> k = int (length digs)"
    by (auto split: if_splits)
  have "unsigned_text txt = whole @ (if digs = [] then [] else CHR ''.'' # digs) \<and> digits_only digs"
  proof (cases hasf)
    case True
    with c have "unsigned_text txt = whole @ CHR ''.'' # digs" by (auto dest: cut_True)
    with True ok show ?thesis by (simp add: allDigits_iff)
  next
    case False
    with c have "unsigned_text txt = whole \<and> digs = []" by (auto dest: cut_False)
    then show ?thesis by simp
  qed
  moreover obtain sg where "sign_text ?neg sg" "txt = sg @ unsigned_text txt"
    using signed_unsigned_text [OF ne] by blast
  ultimately have "decimal_syntax ?neg whole digs txt"
    using ok unfolding decimal_syntax_def allDigits_iff by metis
  with len val show ?thesis by blast
qed

text \<open>Reading back what was printed.\<close>

lemma decimal_text_syntax:
  assumes "0 < p"
  shows "decimal_syntax (n < 0) (dec_digits (nat \<bar>n\<bar> div 10 ^ p))
    (zero_pad p (dec_digits (nat \<bar>n\<bar> mod 10 ^ p))) (decimal_text n p)"
proof -
  have "zero_pad p (dec_digits (nat \<bar>n\<bar> mod 10 ^ p)) \<noteq> []" by (simp add: zero_pad_def)
  then show ?thesis
    by (auto simp: decimal_syntax_def decimal_text_def sign_text_def)
qed

lemma decimal_text_value:
  assumes "0 < p"
  shows "decimal_value (n < 0) (dec_digits (nat \<bar>n\<bar> div 10 ^ p))
    (zero_pad p (dec_digits (nat \<bar>n\<bar> mod 10 ^ p))) = of_int n / 10 ^ p"
proof -
  let ?N = "nat \<bar>n\<bar>"
  have len: "length (zero_pad p (dec_digits (?N mod 10 ^ p))) = p"
    using assms by (intro length_zero_pad length_dec_digits) simp_all
  have "digits_value (dec_digits (?N div 10 ^ p) @ zero_pad p (dec_digits (?N mod 10 ^ p))) = ?N"
    by (simp only: digits_value_append len digits_value_zero_pad digits_value_dec_digits div_mult_mod_eq)
  then show ?thesis
    by (auto simp: decimal_value_def len)
qed

lemma parse_decimal_text:
  assumes "0 < p" "length (decimal_text n p) \<le> maxTextLen"
  shows "parseDecimal (decimal_text n p) = Inr (of_int n / 10 ^ p, int p)"
proof -
  have "length (zero_pad p (dec_digits (nat \<bar>n\<bar> mod 10 ^ p))) = p"
    using assms by (intro length_zero_pad length_dec_digits) simp_all
  then show ?thesis
    using parseDecimal_accepts [OF decimal_text_syntax [OF assms(1)] assms(2)] assms(1)
    by (simp add: decimal_text_value)
qed

lemma length_decimal_text:
  assumes "0 < p" "\<bar>n\<bar> < 10 ^ (p + k)" "0 < k"
  shows "length (decimal_text n p) \<le> k + p + 2"
proof -
  have "nat \<bar>n\<bar> < 10 ^ (p + k)"
    using assms(2) by (metis nat_less_iff abs_ge_zero of_nat_numeral of_nat_power)
  then have "nat \<bar>n\<bar> div 10 ^ p < 10 ^ k"
    by (simp add: less_mult_imp_div_less power_add mult.commute)
  then have "length (dec_digits (nat \<bar>n\<bar> div 10 ^ p)) \<le> k"
    using assms by (intro length_dec_digits) simp_all
  moreover have "length (zero_pad p (dec_digits (nat \<bar>n\<bar> mod 10 ^ p))) = p"
    using assms by (intro length_zero_pad length_dec_digits) simp_all
  ultimately show ?thesis by (cases "n < 0") (auto simp: decimal_text_def)
qed

section \<open>Properties\<close>

text \<open>
  C18: rounding. \<open>RoundHalfUp r p\<close> is a whole number of units of \<open>10\<^sup>-\<^sup>p\<close>, less than half a unit
  above the exact value or exactly half a unit above it, and strictly less than half a unit below:
  a tie goes up. These bounds determine the result, for negative values too.
\<close>

theorem RoundHalfUp_spec:
  "(\<exists>n :: int. RoundHalfUp r p = of_int n / 10 ^ p)
   \<and> r - 1 / (2 * 10 ^ p) < RoundHalfUp r p \<and> RoundHalfUp r p \<le> r + 1 / (2 * 10 ^ p)"
proof -
  let ?n = "\<lfloor>r * 10 ^ p + 1 / 2\<rfloor>"
  have "of_int ?n \<le> r * 10 ^ p + 1 / 2" and "r * 10 ^ p + 1 / 2 < of_int ?n + 1"
    by linarith+
  then have "RoundHalfUp r p \<le> (r * 10 ^ p + 1 / 2) / 10 ^ p"
    and "(r * 10 ^ p - 1 / 2) / 10 ^ p < RoundHalfUp r p"
    unfolding RoundHalfUp_floor by (intro divide_right_mono divide_strict_right_mono; simp)+
  then show ?thesis
    by (auto simp: RoundHalfUp_floor add_divide_distrib diff_divide_distrib)
qed

text \<open>
  C33: the parser accepts exactly the plain decimals of at most 32 bytes (a sign, a whole part, an
  optional point with at least one digit after it; no exponent, no bare point), gives their exact
  value and the number of decimal places written, and blames length before shape.
\<close>

theorem ParseAmount_iff:
  "(ParseAmount txt = Inr a \<longleftrightarrow>
      (\<exists>neg whole digs. decimal_syntax neg whole digs txt \<and> length txt \<le> maxTextLen
        \<and> a = \<lparr>amount_r = Some (decimal_value neg whole digs), amount_scale = int (length digs)\<rparr>))
   \<and> (ParseAmount txt = Inl ErrTooLong \<longleftrightarrow> maxTextLen < length txt)"
proof -
  have "ParseAmount txt = Inr a \<longleftrightarrow>
      (\<exists>r k. parseDecimal txt = Inr (r, k) \<and> a = \<lparr>amount_r = Some r, amount_scale = k\<rparr>)"
    by (auto simp: ParseAmount_def split: sum.splits prod.splits)
  moreover have "ParseAmount txt = Inl ErrTooLong \<longleftrightarrow> maxTextLen < length txt"
    by (auto simp: ParseAmount_def parseDecimal_def Let_def split: sum.splits prod.splits if_splits)
  ultimately show ?thesis
    using parseDecimal_sound parseDecimal_accepts by blast
qed

text \<open>
  C36: printing and parsing are inverse. An amount of at most 28 whole digits prints as a text that
  parses back to the amount rounded half up to cents, recorded with two decimal places.
\<close>

theorem Amount_String_parses_back:
  assumes "\<bar>Amount_rat a\<bar> < 10 ^ 28 - 1"
  shows "ParseAmount (Amount_String a) =
    Inr \<lparr>amount_r = Some (RoundHalfUp (Amount_rat a) 2), amount_scale = 2\<rparr>"
proof -
  let ?n = "\<lfloor>Amount_rat a * 10 ^ 2 + 1 / 2\<rfloor>"
  have "\<bar>?n\<bar> < 10 ^ (2 + 28)" using assms by (simp add: abs_less_iff) linarith
  then have "length (decimal_text ?n 2) \<le> 28 + 2 + 2"
    by (rule length_decimal_text [rotated]) simp_all
  then have "parseDecimal (decimal_text ?n 2) = Inr (of_int ?n / 10 ^ 2, int 2)"
    by (intro parse_decimal_text) (simp_all add: maxTextLen_def)
  then show ?thesis
    by (simp add: ParseAmount_def Amount_String_def amountPlaces_def format_money_text
        RoundHalfUp_floor)
qed

theorem Amount_String_parses_back_witness:
  "ParseAmount (Amount_String (FromCents 450000)) =
     Inr \<lparr>amount_r = Some (RoundHalfUp 4500 2), amount_scale = 2\<rparr>"
  using Amount_String_parses_back [of "FromCents 450000"]
  by (simp add: Amount_rat_def FromCents_def)

text \<open>
  Integer boundaries. \<open>Cents\<close> gives the rounded amount as whole cents and reports whether it
  fits in an \<open>int64\<close>; it never wraps, and every \<open>int64\<close> of cents survives the round trip.
\<close>

theorem Cents_exact_or_refused:
  "(Cents a = (n, True) \<longleftrightarrow> is_int64 n \<and> RoundHalfUp (Amount_rat a) 2 = of_int n / 100)
   \<and> (snd (Cents a) = False \<longrightarrow> Cents a = (0, False))
   \<and> (is_int64 c \<longrightarrow> Cents (FromCents c) = (c, True))"
proof -
  have "Amount_rat (FromCents c) * 100 = of_int c"
    by (simp add: Amount_rat_def FromCents_def)
  then show ?thesis
    by (auto simp: Cents_def amountPlaces_def scaledInt_floor RoundHalfUp_floor Let_def)
qed

theorem Cents_exact_or_refused_witness:
  "Cents (FromCents 1001) = (1001, True)"
  using Cents_exact_or_refused [of "FromCents 1001" 1001 1001] by (simp add: is_int64_def)

end
