(* ===== verification/GoJson.thy ===== *)
theory GoJson
  imports GoStrings
begin

text \<open>
  Go's \<open>encoding/json\<close> as far as the services use it: the byte-level syntax scanner with its stack
  and its nesting limit, the split of an object into raw members, field matching, string
  unquoting, and the string encoder. Numbers stay raw text, as \<open>json.RawMessage\<close> keeps them.
\<close>

section \<open>The scanner\<close>

datatype json_state =
    BeginValue | BeginValueOrEmpty | BeginKey | BeginKeyOrEmpty | EndValue
  | InString | InStringEsc | InStringHex nat | InLiteral string
  | Neg | Zero | Digits | Dot | FracDigits | Expo | ExpoSign | ExpoDigits

datatype json_ctx = ObjectKey | ObjectValue | ArrayValue

text \<open>
  What one byte does: move on, end the value just before the byte, end it with the byte, or fail.
\<close>

datatype scan_step = Goto json_state "json_ctx list" | EndBefore | EndWith | Bad

definition json_space :: "char \<Rightarrow> bool" where
  "json_space c \<longleftrightarrow> byte c = 32 \<or> byte c = 9 \<or> byte c = 10 \<or> byte c = 13"

definition skip_space :: "string \<Rightarrow> string" where
  "skip_space s = dropWhile json_space s"

definition is_hex :: "char \<Rightarrow> bool" where
  "is_hex c \<longleftrightarrow> is_digit c \<or> 97 \<le> byte c \<and> byte c \<le> 102 \<or> 65 \<le> byte c \<and> byte c \<le> 70"

text \<open>\<open>maxNestingDepth\<close> of the package; the scanner below is started with what is left of it.\<close>

definition max_nesting :: nat where "max_nesting = 10000"

definition value_done :: "json_ctx list \<Rightarrow> scan_step" where
  "value_done st = (if st = [] then EndWith else Goto EndValue st)"

definition push_ctx :: "nat \<Rightarrow> json_ctx \<Rightarrow> json_ctx list \<Rightarrow> json_state \<Rightarrow> scan_step" where
  "push_ctx depth x st next_state = (if length st < depth then Goto next_state (x # st) else Bad)"

fun after_value :: "json_ctx list \<Rightarrow> char \<Rightarrow> scan_step" where
  "after_value [] c = EndBefore"
| "after_value (x # st) c =
     (if json_space c then Goto EndValue (x # st)
      else (case x of
          ObjectKey \<Rightarrow> if c = CHR '':'' then Goto BeginValue (ObjectValue # st) else Bad
        | ObjectValue \<Rightarrow> if c = CHR '','' then Goto BeginKey (ObjectKey # st)
                         else if c = CHR ''}'' then value_done st else Bad
        | ArrayValue \<Rightarrow> if c = CHR '','' then Goto BeginValue (ArrayValue # st)
                        else if c = CHR '']'' then value_done st else Bad))"

definition begin_value :: "nat \<Rightarrow> json_ctx list \<Rightarrow> char \<Rightarrow> scan_step" where
  "begin_value depth st c =
     (if json_space c then Goto BeginValue st
      else if c = CHR ''{'' then push_ctx depth ObjectKey st BeginKeyOrEmpty
      else if c = CHR ''['' then push_ctx depth ArrayValue st BeginValueOrEmpty
      else if byte c = 34 then Goto InString st
      else if c = CHR ''-'' then Goto Neg st
      else if c = CHR ''0'' then Goto Zero st
      else if c = CHR ''t'' then Goto (InLiteral ''rue'') st
      else if c = CHR ''f'' then Goto (InLiteral ''alse'') st
      else if c = CHR ''n'' then Goto (InLiteral ''ull'') st
      else if is_digit c then Goto Digits st
      else Bad)"

definition begin_key :: "json_ctx list \<Rightarrow> char \<Rightarrow> scan_step" where
  "begin_key st c =
     (if json_space c then Goto BeginKey st else if byte c = 34 then Goto InString st else Bad)"

definition number_end :: "json_ctx list \<Rightarrow> char \<Rightarrow> scan_step" where
  "number_end st c =
     (if c = CHR ''.'' then Goto Dot st
      else if c = CHR ''e'' \<or> c = CHR ''E'' then Goto Expo st
      else after_value st c)"

fun json_step :: "nat \<Rightarrow> json_state \<Rightarrow> json_ctx list \<Rightarrow> char \<Rightarrow> scan_step" where
  "json_step depth BeginValue st c = begin_value depth st c"
| "json_step depth BeginValueOrEmpty st c =
     (if json_space c then Goto BeginValueOrEmpty st
      else if c = CHR '']'' then after_value st c else begin_value depth st c)"
| "json_step depth BeginKey st c = begin_key st c"
| "json_step depth BeginKeyOrEmpty st c =
     (if json_space c then Goto BeginKeyOrEmpty st
      else if c = CHR ''}'' then value_done (tl st) else begin_key st c)"
| "json_step depth EndValue st c = after_value st c"
| "json_step depth InString st c =
     (if byte c = 34 then value_done st
      else if byte c = 92 then Goto InStringEsc st
      else if byte c < 32 then Bad else Goto InString st)"
| "json_step depth InStringEsc st c =
     (if c = CHR ''u'' then Goto (InStringHex 3) st
      else if List.member [98, 102, 110, 114, 116, 92, 47, 34] (byte c) then Goto InString st else Bad)"
| "json_step depth (InStringHex k) st c =
     (if is_hex c then (case k of 0 \<Rightarrow> Goto InString st | Suc j \<Rightarrow> Goto (InStringHex j) st) else Bad)"
| "json_step depth (InLiteral []) st c = Bad"
| "json_step depth (InLiteral (x # xs)) st c =
     (if c = x then (if xs = [] then value_done st else Goto (InLiteral xs) st) else Bad)"
| "json_step depth Neg st c =
     (if c = CHR ''0'' then Goto Zero st else if is_digit c then Goto Digits st else Bad)"
| "json_step depth Zero st c = number_end st c"
| "json_step depth Digits st c = (if is_digit c then Goto Digits st else number_end st c)"
| "json_step depth Dot st c = (if is_digit c then Goto FracDigits st else Bad)"
| "json_step depth FracDigits st c =
     (if is_digit c then Goto FracDigits st
      else if c = CHR ''e'' \<or> c = CHR ''E'' then Goto Expo st else after_value st c)"
| "json_step depth Expo st c =
     (if c = CHR ''+'' \<or> c = CHR ''-'' then Goto ExpoSign st
      else if is_digit c then Goto ExpoDigits st else Bad)"
| "json_step depth ExpoSign st c = (if is_digit c then Goto ExpoDigits st else Bad)"
| "json_step depth ExpoDigits st c = (if is_digit c then Goto ExpoDigits st else after_value st c)"

text \<open>A value may end at the end of the input only if it is a complete number.\<close>

definition ends_at_eof :: "json_state \<Rightarrow> json_ctx list \<Rightarrow> bool" where
  "ends_at_eof q st \<longleftrightarrow> st = [] \<and> (q = Zero \<or> q = Digits \<or> q = FracDigits \<or> q = ExpoDigits)"

text \<open>The bytes of the first value, and what follows it.\<close>

fun scan_bytes :: "nat \<Rightarrow> json_state \<Rightarrow> json_ctx list \<Rightarrow> string \<Rightarrow> (string \<times> string) option" where
  "scan_bytes depth q st [] = (if ends_at_eof q st then Some ([], []) else None)"
| "scan_bytes depth q st (c # s) =
     (case json_step depth q st c of
        Goto q' st' \<Rightarrow> map_option (\<lambda>(v, r). (c # v, r)) (scan_bytes depth q' st' s)
      | EndBefore \<Rightarrow> Some ([], c # s)
      | EndWith \<Rightarrow> Some ([c], s)
      | Bad \<Rightarrow> None)"

definition take_value :: "nat \<Rightarrow> string \<Rightarrow> (string \<times> string) option" where
  "take_value depth s = scan_bytes depth BeginValue [] s"

lemma scan_bytes_append: "scan_bytes d q st s = Some (v, r) \<Longrightarrow> s = v @ r"
  by (induction d q st s arbitrary: v r rule: scan_bytes.induct)
     (auto split: if_splits scan_step.splits)

lemma take_value_append: "take_value d s = Some (v, r) \<Longrightarrow> s = v @ r"
  by (simp add: take_value_def scan_bytes_append)

lemma skip_space_length: "length (skip_space s) \<le> length s"
  by (simp add: skip_space_def length_dropWhile_le)

section \<open>Members of an object\<close>

text \<open>One \<open>key : value\<close> pair, both raw.\<close>

definition take_member :: "nat \<Rightarrow> string \<Rightarrow> ((string \<times> string) \<times> string) option" where
  "take_member depth s =
     (if s = [] \<or> byte (hd s) \<noteq> 34 then None
      else case take_value depth s of
        None \<Rightarrow> None
      | Some (key, r) \<Rightarrow>
          (case skip_space r of
             [] \<Rightarrow> None
           | c # r' \<Rightarrow>
               if c \<noteq> CHR '':'' then None
               else map_option (\<lambda>(val, r''). ((key, val), r'')) (take_value depth (skip_space r'))))"

lemma take_member_length:
  assumes "take_member d s = Some (m, r)"
  shows "length r < length s"
proof -
  obtain key r1 r2 val where "take_value d s = Some (key, r1)" "skip_space r1 = CHR '':'' # r2"
    and "take_value d (skip_space r2) = Some (val, r)"
    using assms by (auto simp: take_member_def split: if_splits option.splits list.splits)
  then have "length r1 \<le> length s" "length r \<le> length (skip_space r2)" "length r2 < length (skip_space r1)"
    by (auto dest!: take_value_append)
  then show ?thesis using skip_space_length [of r1] skip_space_length [of r2] by linarith
qed

function take_members :: "nat \<Rightarrow> string \<Rightarrow> ((string \<times> string) list \<times> string) option" where
  "take_members depth s =
     (case take_member depth (skip_space s) of
        None \<Rightarrow> None
      | Some (m, r) \<Rightarrow>
          (case skip_space r of
             [] \<Rightarrow> None
           | c # r' \<Rightarrow>
               if c = CHR ''}'' then Some ([m], r')
               else if c = CHR '','' then map_option (\<lambda>(ms, r''). (m # ms, r'')) (take_members depth r')
               else None))"
  by pat_completeness auto
termination
proof (relation "measure (\<lambda>(d, s). length s)", simp, clarsimp)
  fix d s key val r r'
  assume "take_member d (skip_space s) = Some ((key, val), r)" and "skip_space r = CHR '','' # r'"
  then have "length r < length (skip_space s)" and "length r' < length (skip_space r)"
    by (auto dest: take_member_length)
  then show "length r' < length s"
    using skip_space_length [of s] skip_space_length [of r] by linarith
qed

declare take_members.simps [simp del]

definition take_object :: "nat \<Rightarrow> string \<Rightarrow> ((string \<times> string) list \<times> string) option" where
  "take_object depth s =
     (if s = [] \<or> hd s \<noteq> CHR ''{'' then None
      else (case skip_space (tl s) of
          [] \<Rightarrow> None
        | c # r \<Rightarrow> if c = CHR ''}'' then Some ([], r) else take_members depth (c # r)))"

section \<open>Strings\<close>

definition hex_value :: "char \<Rightarrow> nat" where
  "hex_value c = (if is_digit c then byte c - 48 else if byte c < 97 then byte c - 55 else byte c - 87)"

definition hex4 :: "string \<Rightarrow> nat option" where
  "hex4 s = (if length s < 4 \<or> \<not> list_all is_hex (take 4 s) then None
             else Some (foldl (\<lambda>n c. 16 * n + hex_value c) 0 (take 4 s)))"

text \<open>UTF-8: the bytes of a code point, and the length of the valid encoding at the head (0 if none).\<close>

definition utf8 :: "nat \<Rightarrow> string" where
  "utf8 n = bytes
     (if n < 0x80 then [n]
      else if n < 0x800 then [0xC0 + n div 64, 0x80 + n mod 64]
      else if n < 0x10000 then [0xE0 + n div 4096, 0x80 + n div 64 mod 64, 0x80 + n mod 64]
      else [0xF0 + n div 262144, 0x80 + n div 4096 mod 64, 0x80 + n div 64 mod 64, 0x80 + n mod 64])"

definition replacement :: string where "replacement = bytes [0xEF, 0xBF, 0xBD]"

definition in_range :: "nat \<Rightarrow> nat \<Rightarrow> string \<Rightarrow> nat \<Rightarrow> bool" where
  "in_range lo hi s i \<longleftrightarrow> i < length s \<and> lo \<le> byte (s ! i) \<and> byte (s ! i) \<le> hi"

definition utf8_size :: "string \<Rightarrow> nat" where
  "utf8_size s =
     (if s = [] then 0
      else let b = byte (hd s); cont = in_range 0x80 0xBF s in
        if b < 0x80 then 1
        else if 0xC2 \<le> b \<and> b \<le> 0xDF \<and> cont 1 then 2
        else if b = 0xE0 \<and> in_range 0xA0 0xBF s 1 \<and> cont 2 then 3
        else if b = 0xED \<and> in_range 0x80 0x9F s 1 \<and> cont 2 then 3
        else if 0xE1 \<le> b \<and> b \<le> 0xEF \<and> b \<noteq> 0xED \<and> cont 1 \<and> cont 2 then 3
        else if b = 0xF0 \<and> in_range 0x90 0xBF s 1 \<and> cont 2 \<and> cont 3 then 4
        else if 0xF1 \<le> b \<and> b \<le> 0xF3 \<and> cont 1 \<and> cont 2 \<and> cont 3 then 4
        else if b = 0xF4 \<and> in_range 0x80 0x8F s 1 \<and> cont 2 \<and> cont 3 then 4
        else 0)"

text \<open>One escape after the backslash: the bytes it stands for and how many it takes.\<close>

definition short_escape :: "char \<Rightarrow> nat" where
  "short_escape c =
     (if c = CHR ''b'' then 8 else if c = CHR ''f'' then 12 else if c = CHR ''n'' then 10
      else if c = CHR ''r'' then 13 else if c = CHR ''t'' then 9 else byte c)"

definition unicode_escape :: "string \<Rightarrow> string \<times> nat" where
  "unicode_escape s =
     (case hex4 s of
        None \<Rightarrow> (replacement, 0)
      | Some n \<Rightarrow>
          if 0xD800 \<le> n \<and> n < 0xE000 then
            (case (if take 2 (drop 4 s) = bytes [92, 117] then hex4 (drop 6 s) else None) of
               Some m \<Rightarrow>
                 if n < 0xDC00 \<and> 0xDC00 \<le> m \<and> m < 0xE000
                 then (utf8 (0x10000 + (n - 0xD800) * 1024 + (m - 0xDC00)), 10)
                 else (replacement, 4)
             | None \<Rightarrow> (replacement, 4))
          else (utf8 n, 4))"

function unescape :: "string \<Rightarrow> string" where
  "unescape s =
     (case s of
        [] \<Rightarrow> []
      | c # r \<Rightarrow>
          if byte c = 92 \<and> r \<noteq> [] then
            (if hd r = CHR ''u'' then
               (case unicode_escape (tl r) of (out, k) \<Rightarrow> out @ unescape (drop k (tl r)))
             else char_of (short_escape (hd r)) # unescape (tl r))
          else if byte c < 128 then c # unescape r
          else if utf8_size s = 0 then replacement @ unescape r
          else take (utf8_size s) s @ unescape (drop (utf8_size s - 1) r))"
  by pat_completeness auto
termination
  by (relation "measure length") (auto simp: less_Suc_eq_le)

declare unescape.simps [simp del]

text \<open>The Go string a raw literal (with its quotes) denotes.\<close>

definition unquote :: "string \<Rightarrow> string" where
  "unquote lit = unescape (butlast (tl lit))"

section \<open>Decoding\<close>

datatype json_doc =
    JNull
  | JObject "(string \<times> string) list" \<comment> \<open>unquoted keys, raw values, in order\<close>
  | JOther string \<comment> \<open>any other value, raw\<close>

definition is_string_lit :: "string \<Rightarrow> bool" where
  "is_string_lit raw \<longleftrightarrow> raw \<noteq> [] \<and> byte (hd raw) = 34"

text \<open>
  \<open>Decoder.Decode\<close>'s read of one value from the stream: the value and the unread rest.
  \<^const>\<open>None\<close> is every syntax error and the end of the input.
\<close>

definition decode_stream :: "string \<Rightarrow> (json_doc \<times> string) option" where
  "decode_stream s =
     (let s' = skip_space s
      in if s' = [] then None
         else if hd s' = CHR ''{'' then
           map_option (\<lambda>(ms, r). (JObject (map (\<lambda>(k, v). (unquote k, v)) ms), r))
             (take_object (max_nesting - 1) s')
         else map_option (\<lambda>(v, r). (if v = ''null'' then JNull else JOther v, r))
             (take_value max_nesting s'))"

text \<open>\<open>Decoder.More\<close>: another byte that is not white space and closes nothing.\<close>

definition decoder_more :: "string \<Rightarrow> bool" where
  "decoder_more rest =
     (case skip_space rest of [] \<Rightarrow> False | c # _ \<Rightarrow> c \<noteq> CHR '']'' \<and> c \<noteq> CHR ''}'')"

text \<open>\<open>json.Unmarshal\<close>: the whole input is one value.\<close>

definition unmarshal :: "string \<Rightarrow> json_doc option" where
  "unmarshal s = (case decode_stream s of
      None \<Rightarrow> None
    | Some (d, r) \<Rightarrow> if skip_space r = [] then Some d else None)"

text \<open>
  Matching a key with a struct field: exactly, or else after folding (ASCII letters to upper case,
  and the two code points that fold to an ASCII letter).
\<close>

fun fold_name :: "string \<Rightarrow> string" where
  "fold_name [] = []"
| "fold_name (c # s) =
     (if byte c = 0xC5 \<and> s \<noteq> [] \<and> byte (hd s) = 0xBF then CHR ''S'' # fold_name (tl s)
      else if byte c = 0xE2 \<and> take 2 s = bytes [0x84, 0xAA] then CHR ''K'' # fold_name (drop 2 s)
      else (if is_lower c then char_of (byte c - 32) else c) # fold_name s)"

definition field_of :: "string list \<Rightarrow> string \<Rightarrow> string option" where
  "field_of fields key =
     (if key \<in> set fields then Some key else find (\<lambda>f. fold_name f = fold_name key) fields)"

text \<open>\<open>DisallowUnknownFields\<close>, and the last value given to a field (duplicates overwrite).\<close>

definition all_known :: "string list \<Rightarrow> (string \<times> string) list \<Rightarrow> bool" where
  "all_known fields ms \<longleftrightarrow> list_all (\<lambda>(k, v). field_of fields k \<noteq> None) ms"

definition field_values :: "string list \<Rightarrow> string \<Rightarrow> (string \<times> string) list \<Rightarrow> string list" where
  "field_values fields f ms = map snd (filter (\<lambda>(k, v). field_of fields k = Some f) ms)"

text \<open>A \<open>json.RawMessage\<close> field: the last raw value, nothing if the key is absent.\<close>

definition raw_field :: "string list \<Rightarrow> string \<Rightarrow> (string \<times> string) list \<Rightarrow> string" where
  "raw_field fields f ms = (case rev (field_values fields f ms) of [] \<Rightarrow> [] | v # _ \<Rightarrow> v)"

text \<open>
  A \<open>*string\<close> field: a type error (\<^const>\<open>None\<close>) unless every value given is a string or null; the
  last one counts. A plain \<open>string\<close> field is the same except that null leaves it unchanged.
\<close>

definition string_or_null :: "string \<Rightarrow> bool" where
  "string_or_null v \<longleftrightarrow> is_string_lit v \<or> v = ''null''"

definition pointer_field :: "string list \<Rightarrow> string \<Rightarrow> (string \<times> string) list \<Rightarrow> string option option" where
  "pointer_field fields f ms =
     (let vs = field_values fields f ms
      in if \<not> list_all string_or_null vs then None
         else Some (case rev vs of
             [] \<Rightarrow> None
           | v # _ \<Rightarrow> if v = ''null'' then None else Some (unquote v)))"

definition string_field :: "string list \<Rightarrow> string \<Rightarrow> (string \<times> string) list \<Rightarrow> string option" where
  "string_field fields f ms =
     (let vs = field_values fields f ms
      in if \<not> list_all string_or_null vs then None
         else Some (case filter is_string_lit (rev vs) of [] \<Rightarrow> [] | v # _ \<Rightarrow> unquote v))"

section \<open>Encoding\<close>

definition hex_digit :: "nat \<Rightarrow> char" where
  "hex_digit d = char_of (if d < 10 then 48 + d else 87 + d)"

definition escape_u :: "nat \<Rightarrow> string" where
  "escape_u n = bytes [92, 117]
     @ [hex_digit (n div 4096), hex_digit (n div 256 mod 16), hex_digit (n div 16 mod 16), hex_digit (n mod 16)]"

definition escape_byte :: "char \<Rightarrow> string" where
  "escape_byte c =
     (let b = byte c in
      if b = 34 \<or> b = 92 then [char_of (92 :: nat), c]
      else if b = 8 then bytes [92, 98] else if b = 12 then bytes [92, 102]
      else if b = 10 then bytes [92, 110] else if b = 13 then bytes [92, 114]
      else if b = 9 then bytes [92, 116]
      else if b < 32 \<or> b = 60 \<or> b = 62 \<or> b = 38 then escape_u b
      else [c])"

function escape :: "string \<Rightarrow> string" where
  "escape s =
     (case s of
        [] \<Rightarrow> []
      | c # r \<Rightarrow>
          if byte c < 128 then escape_byte c @ escape r
          else if utf8_size s = 0 then escape_u 0xFFFD @ escape r
          else if take 3 s = bytes [0xE2, 0x80, 0xA8] then escape_u 0x2028 @ escape (drop 2 r)
          else if take 3 s = bytes [0xE2, 0x80, 0xA9] then escape_u 0x2029 @ escape (drop 2 r)
          else take (utf8_size s) s @ escape (drop (utf8_size s - 1) r))"
  by pat_completeness auto
termination
  by (relation "measure length") (auto simp: less_Suc_eq_le)

declare escape.simps [simp del]

definition json_string :: "string \<Rightarrow> string" where
  "json_string s = char_of (34 :: nat) # escape s @ [char_of (34 :: nat)]"

text \<open>An object from its key texts and encoded values, in the order given.\<close>

fun join_with :: "string \<Rightarrow> string list \<Rightarrow> string" where
  "join_with sep [] = []"
| "join_with sep [x] = x"
| "join_with sep (x # y # ys) = x @ sep @ join_with sep (y # ys)"

definition json_object :: "(string \<times> string) list \<Rightarrow> string" where
  "json_object ms = ''{'' @ join_with '','' (map (\<lambda>(k, v). json_string k @ '':'' @ v) ms) @ ''}''"

definition json_array :: "string list \<Rightarrow> string" where
  "json_array vs = ''['' @ join_with '','' vs @ '']''"

section \<open>Reading from a longer stream\<close>

lemma skip_space_append: "skip_space s = c # r \<Longrightarrow> skip_space (s @ t) = c # r @ t"
  unfolding skip_space_def by (metis append_Cons dropWhile_append dropWhile_eq_Nil_conv list.distinct(1))

lemma scan_bytes_more:
  "scan_bytes d q st s = Some (v, r) \<Longrightarrow> r \<noteq> [] \<Longrightarrow> scan_bytes d q st (s @ t) = Some (v, r @ t)"
  by (induction d q st s arbitrary: v r rule: scan_bytes.induct)
     (auto split: if_splits scan_step.splits)

lemma take_value_more:
  "take_value d s = Some (v, r) \<Longrightarrow> r \<noteq> [] \<Longrightarrow> take_value d (s @ t) = Some (v, r @ t)"
  by (simp add: take_value_def scan_bytes_more)

lemma skip_space_rest: "skip_space r \<noteq> [] \<Longrightarrow> r \<noteq> []"
  by (auto simp: skip_space_def)

lemma take_member_more:
  assumes "take_member d s = Some (m, r)" "r \<noteq> []"
  shows "take_member d (s @ t) = Some (m, r @ t)"
proof -
  obtain key r1 r2 val where s: "s \<noteq> []" "byte (hd s) = 34" and k: "take_value d s = Some (key, r1)"
    and c: "skip_space r1 = CHR '':'' # r2" and v: "take_value d (skip_space r2) = Some (val, r)"
    and m: "m = (key, val)"
    using assms by (auto simp: take_member_def split: if_splits option.splits list.splits)
  have "take_value d (s @ t) = Some (key, r1 @ t)"
    using k c by (intro take_value_more) (auto simp: skip_space_def)
  moreover have "take_value d (skip_space (r2 @ t)) = Some (val, r @ t)"
  proof (cases "skip_space r2")
    case Nil
    then show ?thesis using v by (auto simp: take_value_def ends_at_eof_def)
  next
    case (Cons a as)
    then show ?thesis using take_value_more [OF v assms(2), of t] by (simp add: skip_space_append)
  qed
  ultimately show ?thesis
    using s by (simp add: take_member_def skip_space_append [OF c] m)
qed

lemma take_members_more:
  "take_members d s = Some (ms, r) \<Longrightarrow> take_members d (s @ t) = Some (ms, r @ t)"
proof (induction d s arbitrary: ms r rule: take_members.induct)
  case (1 d s)
  obtain m r1 where tm: "take_member d (skip_space s) = Some (m, r1)"
    using "1.prems" by (auto simp: take_members.simps [of d s] split: option.splits)
  obtain c r2 where c: "skip_space r1 = c # r2"
    using "1.prems" tm by (auto simp: take_members.simps [of d s] split: list.splits)
  have "skip_space s \<noteq> []" using tm by (auto simp: take_member_def)
  then have "skip_space (s @ t) = skip_space s @ t"
    by (metis append_Cons neq_Nil_conv skip_space_append)
  moreover have "take_member d (skip_space s @ t) = Some (m, r1 @ t)"
    using tm c by (intro take_member_more) (auto simp: skip_space_def)
  moreover have "c = CHR '','' \<Longrightarrow> take_members d (r2 @ t) = map_option (\<lambda>(ms, r). (ms, r @ t)) (take_members d r2)"
  proof -
    assume "c = CHR '',''"
    then obtain ms' r' where "take_members d r2 = Some (ms', r')"
      using "1.prems" tm c by (auto simp: take_members.simps [of d s])
    then show ?thesis using "1.IH" [OF tm _ c] \<open>c = CHR '',''\<close> by simp
  qed
  ultimately show ?case
    using "1.prems" tm
    by (auto simp: take_members.simps [of d s] take_members.simps [of d "s @ t"] c skip_space_append [OF c]
        split: if_splits)
qed

lemma decode_stream_object_more:
  assumes "decode_stream s = Some (JObject ms, r)"
  shows "decode_stream (s @ t) = Some (JObject ms, r @ t)"
proof -
  obtain s1 where s1: "skip_space s = CHR ''{'' # s1"
    using assms by (cases "skip_space s") (auto simp: decode_stream_def Let_def split: if_splits)
  then obtain ms' where obj: "take_object (max_nesting - 1) (CHR ''{'' # s1) = Some (ms', r)"
    and ms: "ms = map (\<lambda>(k, v). (unquote k, v)) ms'"
    using assms by (auto simp: decode_stream_def Let_def)
  obtain c s2 where c: "skip_space s1 = c # s2"
    using obj by (auto simp: take_object_def split: list.splits)
  have "take_object (max_nesting - 1) (CHR ''{'' # s1 @ t) = Some (ms', r @ t)"
    using obj take_members_more [of "max_nesting - 1" "c # s2" ms' r t]
    by (auto simp: take_object_def c skip_space_append [OF c] split: if_splits)
  then show ?thesis by (simp add: decode_stream_def Let_def skip_space_append [OF s1] ms)
qed

section \<open>Examples\<close>

text \<open>JSON text with the backquote written for the double quote, for closed examples.\<close>

definition quoted :: "string \<Rightarrow> string" where
  "quoted s = map (\<lambda>c. if byte c = 96 then char_of (34 :: nat) else c) s"

end
