(* ===== verification/GoErrors.thy ===== *)
theory GoErrors
  imports GoJson
begin

text \<open>
  Go error values and \<open>internal/platform/httpx/errors.go\<close>. An error is a tree: plain errors and
  sentinels at the leaves, \<open>*httpx.Error\<close> with its optional cause, and \<open>fmt.Errorf\<close> nodes with
  their \<open>%w\<close> operands. \<open>errors.Is\<close> and \<open>errors.As\<close> walk it in preorder as the library does.
\<close>

section \<open>Errors\<close>

record FieldError =
  fe_field :: string
  fe_code :: string

text \<open>The package-level error variables that \<open>errors.Is\<close> is asked about.\<close>

datatype sentinel =
    ErrTransient | ErrRequestFault \<comment> \<open>\<open>cqappmiddleware\<close>\<close>
  | DeadlineExceeded | Canceled \<comment> \<open>package \<open>context\<close>\<close>

datatype go_error =
    PlainError string
  | SentinelError sentinel
  | HttpxError httpx_error
  | WrapError string "go_error list" \<comment> \<open>\<open>fmt.Errorf\<close>: its format and the \<open>%w\<close> operands\<close>
and httpx_error =
    Error (Code: string) (Status: int) (Message: string) (Details: "FieldError list")
      (RetryAfter: duration) (cause: "go_error option")

fun errors_is :: "sentinel \<Rightarrow> go_error \<Rightarrow> bool" where
  "errors_is s (PlainError m) = False"
| "errors_is s (SentinelError t) = (s = t)"
| "errors_is s (HttpxError (Error c st m ds ra None)) = False"
| "errors_is s (HttpxError (Error c st m ds ra (Some e))) = errors_is s e"
| "errors_is s (WrapError m es) = list_ex (errors_is s) es"

fun first_some :: "'a option list \<Rightarrow> 'a option" where
  "first_some [] = None"
| "first_some (None # xs) = first_some xs"
| "first_some (Some x # xs) = Some x"

text \<open>\<open>errors.As(err, &e)\<close> for \<open>e *httpx.Error\<close>.\<close>

fun errors_as :: "go_error \<Rightarrow> httpx_error option" where
  "errors_as (PlainError m) = None"
| "errors_as (SentinelError t) = None"
| "errors_as (HttpxError e) = Some e"
| "errors_as (WrapError m es) = first_some (map errors_as es)"

section \<open>The error classes\<close>

definition CodeValidationFailed :: string where "CodeValidationFailed = ''VALIDATION_FAILED''"
definition CodeUnauthenticated :: string where "CodeUnauthenticated = ''UNAUTHENTICATED''"
definition CodeForbidden :: string where "CodeForbidden = ''FORBIDDEN''"
definition CodeUpstreamUnavailable :: string where "CodeUpstreamUnavailable = ''UPSTREAM_UNAVAILABLE''"
definition CodeUpstreamContract :: string where "CodeUpstreamContract = ''UPSTREAM_CONTRACT''"
definition CodeUpstreamTimeout :: string where "CodeUpstreamTimeout = ''UPSTREAM_TIMEOUT''"
definition CodeCircuitOpen :: string where "CodeCircuitOpen = ''UPSTREAM_CIRCUIT_OPEN''"
definition CodeInternal :: string where "CodeInternal = ''INTERNAL''"

lemmas code_defs = CodeValidationFailed_def CodeUnauthenticated_def CodeForbidden_def
  CodeUpstreamUnavailable_def CodeUpstreamContract_def CodeUpstreamTimeout_def
  CodeCircuitOpen_def CodeInternal_def

definition Validation :: "FieldError list \<Rightarrow> httpx_error" where
  "Validation details = Error CodeValidationFailed 400 ''request failed validation'' details 0 None"

definition Malformed :: "go_error option \<Rightarrow> httpx_error" where
  "Malformed c = Error CodeValidationFailed 400 ''request body could not be parsed''
     [\<lparr>fe_field = ''body'', fe_code = ''malformed_body''\<rparr>] 0 c"

definition Unauthenticated :: "go_error option \<Rightarrow> httpx_error" where
  "Unauthenticated c = Error CodeUnauthenticated 401 ''bearer token missing, invalid or expired'' [] 0 c"

definition Forbidden :: "go_error option \<Rightarrow> httpx_error" where
  "Forbidden c = Error CodeForbidden 403 ''caller is not entitled to the required scope'' [] 0 c"

definition UpstreamUnavailable :: "go_error option \<Rightarrow> httpx_error" where
  "UpstreamUnavailable c = Error CodeUpstreamUnavailable 502 ''upstream quote provider unavailable'' [] 0 c"

definition UpstreamContract :: "go_error option \<Rightarrow> httpx_error" where
  "UpstreamContract c = Error CodeUpstreamContract 502
     ''upstream quote provider returned an unexpected response'' [] 0 c"

definition UpstreamTimeout :: "go_error option \<Rightarrow> httpx_error" where
  "UpstreamTimeout c = Error CodeUpstreamTimeout 504 ''upstream quote provider timed out'' [] 0 c"

definition CircuitOpen :: "duration \<Rightarrow> httpx_error" where
  "CircuitOpen retry_after = Error CodeCircuitOpen 503 ''upstream calls suspended by circuit breaker''
     [] retry_after None"

definition Internal :: "go_error option \<Rightarrow> httpx_error" where
  "Internal c = Error CodeInternal 500 ''internal error'' [] 0 c"

lemmas error_class_defs = Validation_def Malformed_def Unauthenticated_def Forbidden_def
  UpstreamUnavailable_def UpstreamContract_def UpstreamTimeout_def CircuitOpen_def Internal_def

text \<open>Assignments to the fields of an \<open>*httpx.Error\<close>.\<close>

fun with_RetryAfter :: "duration \<Rightarrow> httpx_error \<Rightarrow> httpx_error" where
  "with_RetryAfter d (Error c st m ds ra e) = Error c st m ds d e"

fun with_Message :: "string \<Rightarrow> httpx_error \<Rightarrow> httpx_error" where
  "with_Message m' (Error c st m ds ra e) = Error c st m' ds ra e"

section \<open>Responses\<close>

text \<open>
  What a handler does to an \<open>http.ResponseWriter\<close>: the headers it sets, the status it writes and the
  body bytes. What is logged on the way is in \<open>Handlerlog\<close>.
\<close>

record response =
  resp_status :: int
  resp_headers :: "(string \<times> string) list"
  resp_body :: string

definition json_content_type :: "string \<times> string" where
  "json_content_type = (''Content-Type'', ''application/json; charset=utf-8'')"

text \<open>\<open>json.Encoder.Encode\<close> appends a newline.\<close>

definition newline :: string where "newline = bytes [10]"

definition WriteJSON :: "int \<Rightarrow> string \<Rightarrow> response" where
  "WriteJSON status v =
     \<lparr>resp_status = status, resp_headers = [json_content_type], resp_body = v @ newline\<rparr>"

definition encode_field_error :: "FieldError \<Rightarrow> string" where
  "encode_field_error f =
     json_object [(''field'', json_string (fe_field f)), (''code'', json_string (fe_code f))]"

text \<open>The envelope: \<open>details\<close> is omitted when empty.\<close>

definition encode_envelope :: "string \<Rightarrow> string \<Rightarrow> FieldError list \<Rightarrow> string \<Rightarrow> string" where
  "encode_envelope code message details correlation_id =
     json_object [(''error'', json_object
       ([(''code'', json_string code), (''message'', json_string message)]
        @ (if details = [] then [] else [(''details'', json_array (map encode_field_error details))])
        @ [(''correlationId'', json_string correlation_id)]))]"

definition WriteError :: "string \<Rightarrow> go_error \<Rightarrow> response" where
  "WriteError correlation_id err =
     (let e = (case errors_as err of Some e \<Rightarrow> e | None \<Rightarrow> Internal (Some err));
          retry = (if RetryAfter e > 0
                   then [(''Retry-After'', itoa (whole_seconds (RetryAfter e)))] else []);
          out = WriteJSON (Status e) (encode_envelope (Code e) (Message e) (Details e) correlation_id)
      in out\<lparr>resp_headers := retry @ resp_headers out\<rparr>)"

section \<open>Lemmas\<close>

lemma errors_is_HttpxError:
  "errors_is s (HttpxError e) \<longleftrightarrow> (\<exists>c. cause e = Some c \<and> errors_is s c)"
proof (cases e)
  case (Error c st m ds ra k)
  then show ?thesis by (cases k) auto
qed

lemma WriteError_HttpxError:
  "errors_as err = Some e \<Longrightarrow> resp_status (WriteError cid err) = Status e"
  by (simp add: WriteError_def WriteJSON_def Let_def)

lemma with_RetryAfter_simps [simp]:
  "Code (with_RetryAfter d e) = Code e" "Status (with_RetryAfter d e) = Status e"
  "Message (with_RetryAfter d e) = Message e" "Details (with_RetryAfter d e) = Details e"
  "RetryAfter (with_RetryAfter d e) = d" "cause (with_RetryAfter d e) = cause e"
  by (cases e, simp)+

lemma with_Message_simps [simp]:
  "Code (with_Message m e) = Code e" "Status (with_Message m e) = Status e"
  "Message (with_Message m e) = m" "Details (with_Message m e) = Details e"
  "RetryAfter (with_Message m e) = RetryAfter e" "cause (with_Message m e) = cause e"
  by (cases e, simp)+

end
