(* ===== verification/Validate.thy ===== *)
theory Validate
  imports Money GoErrors
begin

text \<open>
  \<open>internal/cqappmiddleware/validate.go\<close>: the authoritative validation of a quote request. The
  request type, the decoding into raw fields, the three field checks that collect every failure,
  and the lemmas that say which bodies pass and what a passing request looks like.
\<close>

section \<open>Rules\<close>

definition MinAmount :: string where "MinAmount = ''1000.00''"
definition MaxAmount :: string where "MaxAmount = ''5000000.00''"
definition MinMonths :: int64 where "MinMonths = 6"
definition MaxMonths :: int64 where "MaxMonths = 360"
definition maxAmountDecimals :: int where "maxAmountDecimals = 2"

definition CodeAmountInvalid :: string where "CodeAmountInvalid = ''amount_invalid''"
definition CodeAmountPrecision :: string where "CodeAmountPrecision = ''amount_precision''"
definition CodeAmountOutOfRange :: string where "CodeAmountOutOfRange = ''amount_out_of_range''"
definition CodeTermInvalid :: string where "CodeTermInvalid = ''term_invalid''"
definition CodeTermNotInteger :: string where "CodeTermNotInteger = ''term_not_integer''"
definition CodeTermOutOfRange :: string where "CodeTermOutOfRange = ''term_out_of_range''"
definition CodeRiskBandInvalid :: string where "CodeRiskBandInvalid = ''risk_band_invalid''"
definition CodeMalformedBody :: string where "CodeMalformedBody = ''malformed_body''"

lemmas field_code_defs = CodeAmountInvalid_def CodeAmountPrecision_def CodeAmountOutOfRange_def
  CodeTermInvalid_def CodeTermNotInteger_def CodeTermOutOfRange_def CodeRiskBandInvalid_def
  CodeMalformedBody_def

definition ValidBands :: "string list" where "ValidBands = [''A'', ''B'', ''C'']"

record QuoteRequest =
  req_Amount :: Amount
  req_Months :: int64
  req_RiskBand :: string

definition zero_QuoteRequest :: QuoteRequest where
  "zero_QuoteRequest = \<lparr>req_Amount = zero_Amount, req_Months = 0, req_RiskBand = []\<rparr>"

record rawRequest =
  raw_LoanAmount :: string
  raw_LoanTermInMonths :: string
  raw_RiskBand :: "string option"

section \<open>Decoding\<close>

definition request_fields :: "string list" where
  "request_fields = [''loanAmount'', ''loanTermInMonths'', ''riskBand'']"

text \<open>
  \<open>dec.Decode(&raw)\<close> with unknown fields disallowed: \<^const>\<open>None\<close> is any error. A top-level null
  leaves the struct as it was. The second component is the unread input.
\<close>

definition decode_rawRequest :: "string \<Rightarrow> (rawRequest \<times> string) option" where
  "decode_rawRequest body =
     (case decode_stream body of
        None \<Rightarrow> None
      | Some (JOther _, _) \<Rightarrow> None
      | Some (JNull, rest) \<Rightarrow>
          Some (\<lparr>raw_LoanAmount = [], raw_LoanTermInMonths = [], raw_RiskBand = None\<rparr>, rest)
      | Some (JObject ms, rest) \<Rightarrow>
          if \<not> all_known request_fields ms then None
          else (case pointer_field request_fields ''riskBand'' ms of
              None \<Rightarrow> None
            | Some band \<Rightarrow>
                Some (\<lparr>raw_LoanAmount = raw_field request_fields ''loanAmount'' ms,
                       raw_LoanTermInMonths = raw_field request_fields ''loanTermInMonths'' ms,
                       raw_RiskBand = band\<rparr>, rest)))"

section \<open>Field checks\<close>

definition numberText :: "string \<Rightarrow> string \<times> bool" where
  "numberText raw =
     (let s = trim_space raw
      in if s = [] \<or> s = ''null'' \<or> byte (hd s) = 34 then ([], False) else (s, True))"

text \<open>\<open>mustAmount\<close> panics on a bad constant; \<^const>\<open>None\<close> is that panic.\<close>

definition mustAmount :: "string \<Rightarrow> Amount option" where
  "mustAmount s = (case ParseAmount s of Inl _ \<Rightarrow> None | Inr a \<Rightarrow> Some a)"

type_synonym acc = "QuoteRequest \<times> FieldError list"

definition add_error :: "string \<Rightarrow> string \<Rightarrow> acc \<Rightarrow> acc" where
  "add_error field code st = (fst st, snd st @ [\<lparr>fe_field = field, fe_code = code\<rparr>])"

definition check_amount :: "Amount \<Rightarrow> Amount \<Rightarrow> string \<Rightarrow> acc \<Rightarrow> acc" where
  "check_amount minAmt maxAmt raw st =
     (case numberText raw of (txt, ok) \<Rightarrow>
        if \<not> ok then add_error ''loanAmount'' CodeAmountInvalid st
        else (case ParseAmount txt of
            Inl _ \<Rightarrow> add_error ''loanAmount'' CodeAmountInvalid st
          | Inr amount \<Rightarrow>
              if DecimalPlaces amount > maxAmountDecimals then
                add_error ''loanAmount'' CodeAmountPrecision st
              else if Amount_Cmp amount minAmt < 0 \<or> Amount_Cmp amount maxAmt > 0 then
                add_error ''loanAmount'' CodeAmountOutOfRange st
              else ((fst st)\<lparr>req_Amount := amount\<rparr>, snd st)))"

definition check_term :: "string \<Rightarrow> acc \<Rightarrow> acc" where
  "check_term raw st =
     (case numberText raw of (txt, ok) \<Rightarrow>
        if \<not> ok then add_error ''loanTermInMonths'' CodeTermInvalid st
        else (case parse_int txt of
            None \<Rightarrow>
              if contains_any txt ''.eE'' then add_error ''loanTermInMonths'' CodeTermNotInteger st
              else add_error ''loanTermInMonths'' CodeTermInvalid st
          | Some months \<Rightarrow>
              if months < MinMonths \<or> months > MaxMonths then
                add_error ''loanTermInMonths'' CodeTermOutOfRange st
              else ((fst st)\<lparr>req_Months := months\<rparr>, snd st)))"

definition check_band :: "string option \<Rightarrow> acc \<Rightarrow> acc" where
  "check_band raw st =
     (case raw of
        None \<Rightarrow> add_error ''riskBand'' CodeRiskBandInvalid st
      | Some band \<Rightarrow>
          if \<not> contains ValidBands band then add_error ''riskBand'' CodeRiskBandInvalid st
          else ((fst st)\<lparr>req_RiskBand := band\<rparr>, snd st))"

definition malformed_body :: "QuoteRequest \<times> FieldError list" where
  "malformed_body =
     (zero_QuoteRequest, [\<lparr>fe_field = ''body'', fe_code = CodeMalformedBody\<rparr>])"

text \<open>\<^const>\<open>None\<close> is the panic of \<open>mustAmount\<close>, which \<open>Validate_no_panic\<close> rules out.\<close>

definition Validate :: "string \<Rightarrow> (QuoteRequest \<times> FieldError list) option" where
  "Validate body =
     (case decode_rawRequest body of
        None \<Rightarrow> Some malformed_body
      | Some (raw, rest) \<Rightarrow>
          if decoder_more rest then Some malformed_body
          else (case mustAmount MinAmount of
              None \<Rightarrow> None
            | Some minAmt \<Rightarrow> (case mustAmount MaxAmount of
                None \<Rightarrow> None
              | Some maxAmt \<Rightarrow>
                  Some (check_band (raw_RiskBand raw)
                    (check_term (raw_LoanTermInMonths raw)
                      (check_amount minAmt maxAmt (raw_LoanAmount raw) (zero_QuoteRequest, [])))))))"

section \<open>Lemmas\<close>

definition min_amount :: Amount where
  "min_amount = \<lparr>amount_r = Some 1000, amount_scale = 2\<rparr>"

definition max_amount :: Amount where
  "max_amount = \<lparr>amount_r = Some 5000000, amount_scale = 2\<rparr>"

lemma must_amounts [simp]: "mustAmount MinAmount = Some min_amount" "mustAmount MaxAmount = Some max_amount"
  by code_simp+

text \<open>The accumulating checks after a successful decode.\<close>

definition run_checks :: "rawRequest \<Rightarrow> acc" where
  "run_checks raw =
     check_band (raw_RiskBand raw)
       (check_term (raw_LoanTermInMonths raw)
         (check_amount min_amount max_amount (raw_LoanAmount raw) (zero_QuoteRequest, [])))"

lemma Validate_eq:
  "Validate body =
     Some (case decode_rawRequest body of
         None \<Rightarrow> malformed_body
       | Some (raw, rest) \<Rightarrow> if decoder_more rest then malformed_body else run_checks raw)"
  unfolding Validate_def run_checks_def must_amounts
  by (cases "decode_rawRequest body") (simp_all only: option.case prod.case split: prod.split if_split, simp)

lemma amount_bounds [simp]:
  "Amount_Cmp a min_amount < 0 \<longleftrightarrow> Amount_rat a < 1000"
  "Amount_Cmp a max_amount > 0 \<longleftrightarrow> Amount_rat a > 5000000"
  by (auto simp: Amount_Cmp_def rat_cmp_def Amount_rat_def min_amount_def max_amount_def)

text \<open>What each check adds: at most one error, for its own field only, and its own field of the request.\<close>

definition amount_errors :: "string \<Rightarrow> FieldError list" where
  "amount_errors raw = snd (check_amount min_amount max_amount raw (zero_QuoteRequest, []))"

definition term_errors :: "string \<Rightarrow> FieldError list" where
  "term_errors raw = snd (check_term raw (zero_QuoteRequest, []))"

definition band_errors :: "string option \<Rightarrow> FieldError list" where
  "band_errors raw = snd (check_band raw (zero_QuoteRequest, []))"

lemma snd_checks:
  "snd (check_amount min_amount max_amount raw st) = snd st @ amount_errors raw"
  "snd (check_term raw st) = snd st @ term_errors raw"
  "snd (check_band band st) = snd st @ band_errors band"
  by (auto simp: amount_errors_def term_errors_def band_errors_def check_amount_def check_term_def
      check_band_def add_error_def Let_def split: prod.splits sum.splits option.splits)

lemma checks_frame [simp]:
  "req_Months (fst (check_amount lo hi raw st)) = req_Months (fst st)"
  "req_RiskBand (fst (check_amount lo hi raw st)) = req_RiskBand (fst st)"
  "req_Amount (fst (check_term raw st)) = req_Amount (fst st)"
  "req_RiskBand (fst (check_term raw st)) = req_RiskBand (fst st)"
  "req_Amount (fst (check_band band st)) = req_Amount (fst st)"
  "req_Months (fst (check_band band st)) = req_Months (fst st)"
  by (auto simp: check_amount_def check_term_def check_band_def add_error_def
      split: prod.splits sum.splits option.splits)

lemma numberText_True:
  "numberText raw = (txt, True) \<Longrightarrow> txt = trim_space raw \<and> txt \<noteq> [] \<and> txt \<noteq> ''null'' \<and> byte (hd txt) \<noteq> 34"
  by (auto simp: numberText_def Let_def split: if_splits)

lemma amount_accepted:
  "amount_errors raw = [] \<longleftrightarrow>
     (\<exists>a. ParseAmount (trim_space raw) = Inr a \<and> snd (numberText raw)
        \<and> DecimalPlaces a \<le> 2 \<and> 1000 \<le> Amount_rat a \<and> Amount_rat a \<le> 5000000)"
  by (auto simp: amount_errors_def check_amount_def add_error_def maxAmountDecimals_def numberText_def
      Let_def not_less split: prod.splits sum.splits)

lemma amount_stored:
  "amount_errors raw = [] \<Longrightarrow> ParseAmount (trim_space raw) = Inr a
    \<Longrightarrow> req_Amount (fst (check_amount min_amount max_amount raw st)) = a"
  by (auto simp: amount_errors_def check_amount_def add_error_def numberText_def Let_def
      split: prod.splits sum.splits if_splits)

lemma term_accepted:
  "term_errors raw = [] \<longleftrightarrow>
     (\<exists>m. parse_int (trim_space raw) = Some m \<and> snd (numberText raw) \<and> 6 \<le> m \<and> m \<le> 360)"
  by (auto simp: term_errors_def check_term_def add_error_def MinMonths_def MaxMonths_def
      numberText_def Let_def not_less split: prod.splits option.splits)

lemma term_stored:
  "term_errors raw = [] \<Longrightarrow> parse_int (trim_space raw) = Some m
    \<Longrightarrow> req_Months (fst (check_term raw st)) = m"
  by (auto simp: term_errors_def check_term_def add_error_def numberText_def Let_def
      split: prod.splits option.splits if_splits)

lemma band_accepted: "band_errors raw = [] \<longleftrightarrow> (\<exists>b. raw = Some b \<and> b \<in> {''A'', ''B'', ''C''})"
  by (auto simp: band_errors_def check_band_def add_error_def ValidBands_def split: option.splits)

lemma band_stored:
  "band_errors (Some b) = [] \<Longrightarrow> req_RiskBand (fst (check_band (Some b) st)) = b"
  by (auto simp: band_errors_def check_band_def add_error_def split: if_splits)

lemma decimal_syntax_hd:
  "decimal_syntax neg whole digs s \<Longrightarrow> s \<noteq> [] \<and> s \<noteq> ''null'' \<and> byte (hd s) \<noteq> 34"
proof -
  assume "decimal_syntax neg whole digs s"
  then obtain sg t where s: "s = sg @ whole @ t" and sg: "sign_text neg sg"
    and w: "whole \<noteq> []" "digits_only whole"
    unfolding decimal_syntax_def by blast
  then obtain c r where whole: "whole = c # r" and c: "is_digit c" by (cases whole) auto
  have "hd s = c \<or> hd s = CHR ''-'' \<or> hd s = CHR ''+''" and "s \<noteq> []"
    using s sg whole by (auto simp: sign_text_def split: if_splits)
  then show ?thesis using c by (auto simp: char_class_defs)
qed

lemma parse_int_null [simp]: "parse_int ''null'' = None"
  by (simp add: parse_int_def Let_def digits_only_def char_class_defs)

lemma parse_int_hd: "parse_int s = Some m \<Longrightarrow> s \<noteq> [] \<and> byte (hd s) \<noteq> 34"
  by (cases s) (auto simp: parse_int_def Let_def char_class_defs split: if_splits)

text \<open>The rules of a field, independent of how the checks are written.\<close>

definition amount_ok :: "string \<Rightarrow> bool" where
  "amount_ok raw \<longleftrightarrow>
     (\<exists>neg whole digs. decimal_syntax neg whole digs (trim_space raw)
        \<and> length (trim_space raw) \<le> 32 \<and> length digs \<le> 2
        \<and> 1000 \<le> decimal_value neg whole digs \<and> decimal_value neg whole digs \<le> 5000000)"

definition term_ok :: "string \<Rightarrow> bool" where
  "term_ok raw \<longleftrightarrow> (\<exists>m. parse_int (trim_space raw) = Some m \<and> 6 \<le> m \<and> m \<le> 360)"

definition band_ok :: "string option \<Rightarrow> bool" where
  "band_ok raw \<longleftrightarrow> raw \<in> {Some ''A'', Some ''B'', Some ''C''}"

lemma amount_errors_ok: "amount_errors raw = [] \<longleftrightarrow> amount_ok raw"
proof
  assume "amount_errors raw = []"
  then obtain a where a: "ParseAmount (trim_space raw) = Inr a"
    and rest: "DecimalPlaces a \<le> 2" "1000 \<le> Amount_rat a" "Amount_rat a \<le> 5000000"
    unfolding amount_accepted by blast
  from a obtain r k where p: "parseDecimal (trim_space raw) = Inr (r, k)"
    and a': "a = \<lparr>amount_r = Some r, amount_scale = k\<rparr>"
    by (auto simp: ParseAmount_def split: sum.splits prod.splits)
  from parseDecimal_sound [OF p] rest show "amount_ok raw"
    by (auto simp: a' amount_ok_def DecimalPlaces_def Amount_rat_def maxTextLen_def) blast
next
  assume "amount_ok raw"
  then obtain neg whole digs where d: "decimal_syntax neg whole digs (trim_space raw)"
    and len: "length (trim_space raw) \<le> 32" and two: "length digs \<le> 2"
    and lo: "1000 \<le> decimal_value neg whole digs" and hi: "decimal_value neg whole digs \<le> 5000000"
    unfolding amount_ok_def by blast
  have "parseDecimal (trim_space raw) = Inr (decimal_value neg whole digs, int (length digs))"
    using parseDecimal_accepts [OF d] len by (simp add: maxTextLen_def)
  moreover have "snd (numberText raw)"
    using decimal_syntax_hd [OF d] by (simp add: numberText_def Let_def)
  ultimately show "amount_errors raw = []"
    unfolding amount_accepted using two lo hi
    by (simp add: ParseAmount_def DecimalPlaces_def Amount_rat_def)
qed

lemma term_errors_ok: "term_errors raw = [] \<longleftrightarrow> term_ok raw"
  unfolding term_accepted term_ok_def
  using parse_int_hd by (fastforce simp: numberText_def Let_def)

lemma band_errors_ok: "band_errors raw = [] \<longleftrightarrow> band_ok raw"
  by (auto simp: band_accepted band_ok_def)

lemma errors_shape:
  "amount_errors raw \<noteq> [] \<Longrightarrow> \<exists>c. amount_errors raw = [\<lparr>fe_field = ''loanAmount'', fe_code = c\<rparr>]
     \<and> c \<in> {CodeAmountInvalid, CodeAmountPrecision, CodeAmountOutOfRange}"
  "term_errors raw' \<noteq> [] \<Longrightarrow> \<exists>c. term_errors raw' = [\<lparr>fe_field = ''loanTermInMonths'', fe_code = c\<rparr>]
     \<and> c \<in> {CodeTermInvalid, CodeTermNotInteger, CodeTermOutOfRange}"
  "band_errors band \<noteq> [] \<Longrightarrow> band_errors band = [\<lparr>fe_field = ''riskBand'', fe_code = CodeRiskBandInvalid\<rparr>]"
  by (auto simp: amount_errors_def term_errors_def band_errors_def check_amount_def check_term_def
      check_band_def add_error_def Let_def split: prod.splits sum.splits option.splits if_splits)

lemma run_checks_errors:
  "snd (run_checks raw) = amount_errors (raw_LoanAmount raw) @ term_errors (raw_LoanTermInMonths raw)
     @ band_errors (raw_RiskBand raw)"
  by (simp add: run_checks_def snd_checks)

text \<open>Every detail a validation can report names one of the fields with one of its codes.\<close>

definition known_detail :: "FieldError \<Rightarrow> bool" where
  "known_detail f \<longleftrightarrow> fe_field f \<in> {''loanAmount'', ''loanTermInMonths'', ''riskBand'', ''body''}
     \<and> fe_code f \<in> {CodeAmountInvalid, CodeAmountPrecision, CodeAmountOutOfRange, CodeTermInvalid,
         CodeTermNotInteger, CodeTermOutOfRange, CodeRiskBandInvalid, CodeMalformedBody}"

lemma Validate_details:
  assumes "Validate body = Some (req, errs)"
  shows "list_all known_detail errs \<and> length errs \<le> 3"
proof -
  have one: "list_all known_detail (amount_errors a) \<and> length (amount_errors a) \<le> 1" for a
    by (cases "amount_errors a = []") (auto simp: known_detail_def dest!: errors_shape(1))
  have two: "list_all known_detail (term_errors t) \<and> length (term_errors t) \<le> 1" for t
    by (cases "term_errors t = []") (auto simp: known_detail_def dest!: errors_shape(2))
  have three: "list_all known_detail (band_errors b) \<and> length (band_errors b) \<le> 1" for b
    by (cases "band_errors b = []") (simp_all add: known_detail_def errors_shape(3))
  have "list_all known_detail (snd (run_checks raw)) \<and> length (snd (run_checks raw)) \<le> 3" for raw
    using one [of "raw_LoanAmount raw"] two [of "raw_LoanTermInMonths raw"] three [of "raw_RiskBand raw"]
    by (simp add: run_checks_errors)
  moreover have "list_all known_detail (snd malformed_body) \<and> length (snd malformed_body) \<le> 3"
    by (simp add: malformed_body_def known_detail_def)
  moreover have "errs = snd (the (Validate body))" using assms by simp
  ultimately show ?thesis by (auto simp: Validate_eq split: option.split prod.split)
qed

lemma run_checks_accepts:
  "snd (run_checks raw) = [] \<longleftrightarrow>
     amount_ok (raw_LoanAmount raw) \<and> term_ok (raw_LoanTermInMonths raw) \<and> band_ok (raw_RiskBand raw)"
  by (simp add: run_checks_errors amount_errors_ok term_errors_ok band_errors_ok)

text \<open>What a validated request satisfies: the interface the vendor client relies on.\<close>

definition valid_request :: "QuoteRequest \<Rightarrow> bool" where
  "valid_request req \<longleftrightarrow>
     1000 \<le> Amount_rat (req_Amount req) \<and> Amount_rat (req_Amount req) \<le> 5000000
     \<and> (\<exists>cents :: int. Amount_rat (req_Amount req) = of_int cents / 100)
     \<and> 6 \<le> req_Months req \<and> req_Months req \<le> 360
     \<and> req_RiskBand req \<in> {''A'', ''B'', ''C''}"

lemma decimal_value_cents:
  assumes "length digs \<le> 2"
  shows "\<exists>cents :: int. decimal_value neg whole digs = of_int cents / 100"
proof -
  let ?n = "(if neg then -1 else 1) * int (digits_value (whole @ digs)) * 10 ^ (2 - length digs)"
  have "(10 :: rat) ^ (2 - length digs) * 10 ^ length digs = 100"
    using assms by (simp flip: power_add)
  then have "(10 :: rat) ^ (2 - length digs) / 100 = 1 / 10 ^ length digs"
    by (simp add: field_simps)
  then have "decimal_value neg whole digs = of_int ?n / 100"
    by (simp add: decimal_value_def)
  then show ?thesis by blast
qed

lemma run_checks_valid:
  assumes "run_checks raw = (req, [])"
  shows "valid_request req"
proof -
  have none: "amount_errors (raw_LoanAmount raw) = []" "term_errors (raw_LoanTermInMonths raw) = []"
    "band_errors (raw_RiskBand raw) = []"
    using run_checks_errors [of raw] assms by simp_all
  obtain a where a: "ParseAmount (trim_space (raw_LoanAmount raw)) = Inr a"
    and ar: "DecimalPlaces a \<le> 2" "1000 \<le> Amount_rat a" "Amount_rat a \<le> 5000000"
    using none(1) unfolding amount_accepted by blast
  obtain m where m: "parse_int (trim_space (raw_LoanTermInMonths raw)) = Some m" "6 \<le> m" "m \<le> 360"
    using none(2) unfolding term_accepted by blast
  obtain b where b: "raw_RiskBand raw = Some b" "b \<in> {''A'', ''B'', ''C''}"
    using none(3) unfolding band_accepted by blast
  have "req = fst (run_checks raw)" using assms by simp
  then have req: "req_Amount req = a" "req_Months req = m" "req_RiskBand req = b"
    using none(3) by (simp_all add: run_checks_def b(1) band_stored
        amount_stored [OF none(1) a] term_stored [OF none(2) m(1)])
  obtain r k where p: "parseDecimal (trim_space (raw_LoanAmount raw)) = Inr (r, k)"
    and a': "a = \<lparr>amount_r = Some r, amount_scale = k\<rparr>"
    using a by (auto simp: ParseAmount_def split: sum.splits prod.splits)
  have "\<exists>cents :: int. Amount_rat a = of_int cents / 100"
    using parseDecimal_sound [OF p] ar(1) decimal_value_cents
    by (auto simp: a' Amount_rat_def DecimalPlaces_def)
  then show ?thesis using ar m b by (auto simp: valid_request_def req)
qed

lemma Validate_valid: "Validate body = Some (req, []) \<Longrightarrow> valid_request req"
proof (cases "decode_rawRequest body")
  case None
  then show "Validate body = Some (req, []) \<Longrightarrow> ?thesis" by (simp add: Validate_eq malformed_body_def)
next
  case (Some p)
  then show "Validate body = Some (req, []) \<Longrightarrow> ?thesis"
    using run_checks_valid [of "fst p" req]
    by (cases "decoder_more (snd p)") (simp_all add: Validate_eq malformed_body_def split_beta)
qed

section \<open>Properties\<close>

text \<open>
  C5: a body passes exactly when it decodes, nothing but a closing bracket or brace follows it, and
  every field obeys its own rule; a passing request is within all the business bounds, with an
  amount that is a whole number of cents.
\<close>

theorem Validate_accepts:
  "((\<exists>req. Validate body = Some (req, [])) \<longleftrightarrow>
      (\<exists>raw rest. decode_rawRequest body = Some (raw, rest) \<and> \<not> decoder_more rest
        \<and> amount_ok (raw_LoanAmount raw) \<and> term_ok (raw_LoanTermInMonths raw)
        \<and> band_ok (raw_RiskBand raw)))
   \<and> (Validate body = Some (req', []) \<longrightarrow> valid_request req')"
proof -
  have *: "Validate body = Some (req, []) \<longleftrightarrow>
      (\<exists>raw rest. decode_rawRequest body = Some (raw, rest) \<and> \<not> decoder_more rest
        \<and> run_checks raw = (req, []))" for req
    by (auto simp: Validate_eq malformed_body_def split: option.splits if_splits)
  have "(\<exists>req. run_checks raw = (req, [])) \<longleftrightarrow> snd (run_checks raw) = []" for raw
    by (cases "run_checks raw") auto
  then show ?thesis
    unfolding * using run_checks_valid run_checks_accepts by blast
qed

text \<open>
  C32: every failure is reported at once. For a body that decodes, the error list is in field order,
  names a field exactly when that field breaks its rule, whatever the other fields hold, and names
  no field twice; for any other body the only error is the malformed body.
\<close>

theorem Validate_collects_all:
  assumes "Validate body = Some (req, errs)"
  shows "case decode_rawRequest body of
      None \<Rightarrow> errs = [\<lparr>fe_field = ''body'', fe_code = CodeMalformedBody\<rparr>]
    | Some (raw, rest) \<Rightarrow>
        if decoder_more rest then errs = [\<lparr>fe_field = ''body'', fe_code = CodeMalformedBody\<rparr>]
        else map fe_field errs =
          (if amount_ok (raw_LoanAmount raw) then [] else [''loanAmount''])
          @ (if term_ok (raw_LoanTermInMonths raw) then [] else [''loanTermInMonths''])
          @ (if band_ok (raw_RiskBand raw) then [] else [''riskBand''])"
proof (cases "decode_rawRequest body")
  case None
  then show ?thesis using assms by (simp add: Validate_eq malformed_body_def)
next
  case (Some p)
  obtain raw rest where p: "p = (raw, rest)" by (cases p)
  show ?thesis
  proof (cases "decoder_more rest")
    case True
    then show ?thesis using assms Some by (simp add: Validate_eq malformed_body_def p)
  next
    case False
    then have errs: "errs = snd (run_checks raw)" using assms Some by (simp add: Validate_eq p)
    have "map fe_field (amount_errors r) = (if amount_ok r then [] else [''loanAmount''])"
      and "map fe_field (term_errors t) = (if term_ok t then [] else [''loanTermInMonths''])"
      and "map fe_field (band_errors b) = (if band_ok b then [] else [''riskBand''])" for r t b
      using errors_shape by (auto simp: amount_errors_ok term_errors_ok band_errors_ok) fastforce+
    then show ?thesis using False Some by (simp add: errs run_checks_errors p)
  qed
qed

text \<open>Both directions at the sample request, written out.\<close>

definition sample_body :: string where
  "sample_body = quoted ''{`loanAmount`:250000.00,`loanTermInMonths`:240,`riskBand`:`B`}''"

theorem Validate_accepts_witness:
  "valid_request \<lparr>req_Amount = \<lparr>amount_r = Some 250000, amount_scale = 2\<rparr>, req_Months = 240, req_RiskBand = ''B''\<rparr>
   \<and> (\<exists>raw. decode_rawRequest sample_body = Some (raw, []) \<and> amount_ok (raw_LoanAmount raw))"
proof -
  have v: "Validate sample_body = Some
     (\<lparr>req_Amount = \<lparr>amount_r = Some 250000, amount_scale = 2\<rparr>, req_Months = 240, req_RiskBand = ''B''\<rparr>, [])"
    and d: "snd (the (decode_rawRequest sample_body)) = []"
    by code_simp+
  obtain raw rest where "decode_rawRequest sample_body = Some (raw, rest)" "amount_ok (raw_LoanAmount raw)"
    using Validate_accepts [of sample_body] v by blast
  with d Validate_accepts [of sample_body] v show ?thesis by auto
qed

definition example_invalid :: string where
  "example_invalid = quoted ''{`loanAmount`:1,`loanTermInMonths`:9999,`riskBand`:`Z`}''"

lemma example_invalid_errors:
  "Validate example_invalid = Some (zero_QuoteRequest,
     [\<lparr>fe_field = ''loanAmount'', fe_code = CodeAmountOutOfRange\<rparr>,
      \<lparr>fe_field = ''loanTermInMonths'', fe_code = CodeTermOutOfRange\<rparr>,
      \<lparr>fe_field = ''riskBand'', fe_code = CodeRiskBandInvalid\<rparr>])"
  by code_simp

theorem Validate_collects_all_witness:
  "case decode_rawRequest example_invalid of
      None \<Rightarrow> False
    | Some (raw, rest) \<Rightarrow> \<not> decoder_more rest
        \<and> \<not> amount_ok (raw_LoanAmount raw) \<and> \<not> term_ok (raw_LoanTermInMonths raw)
        \<and> \<not> band_ok (raw_RiskBand raw)"
  using Validate_collects_all [OF example_invalid_errors]
  by (auto simp: CodeMalformedBody_def field_code_defs split: option.splits prod.splits if_splits)

text \<open>
  Trailing content. A body with anything after the object is refused, except that everything
  from a closing bracket or brace on is ignored: an accepted body stays accepted, with the same
  request, when such text is appended to a body with nothing after its object.
\<close>

theorem Validate_trailing_content:
  assumes "decode_stream body = Some (JObject ms, [])"
  shows "Validate (body @ t) =
    (if \<exists>c r. skip_space t = c # r \<and> c \<noteq> CHR '']'' \<and> c \<noteq> CHR ''}'' then Some malformed_body
     else Validate body)"
proof (cases "decode_rawRequest body")
  case None
  then have "decode_rawRequest (body @ t) = None"
    using decode_stream_object_more [OF assms, of t] assms
    by (auto simp: decode_rawRequest_def split: if_splits option.splits)
  with None show ?thesis by (simp add: Validate_eq)
next
  case (Some p)
  then obtain raw where "decode_rawRequest body = Some (raw, [])"
    and "decode_rawRequest (body @ t) = Some (raw, t)"
    using decode_stream_object_more [OF assms, of t] assms
    by (auto simp: decode_rawRequest_def split: if_splits option.splits)
  then show ?thesis
    by (cases "skip_space t") (auto simp: Validate_eq decoder_more_def, simp_all add: skip_space_def)
qed

definition example_valid :: string where
  "example_valid = quoted ''{`loanAmount`:250000.00,`loanTermInMonths`:240,`riskBand`:`B`}''"

lemma example_valid_decodes:
  "decode_stream example_valid =
     Some (JObject [(''loanAmount'', ''250000.00''), (''loanTermInMonths'', ''240''), (''riskBand'', quoted ''`B`'')], [])"
  by code_simp

lemma example_valid_request:
  "Validate example_valid = Some
     (\<lparr>req_Amount = \<lparr>amount_r = Some 250000, amount_scale = 2\<rparr>, req_Months = 240, req_RiskBand = ''B''\<rparr>, [])"
  by code_simp

theorem Validate_trailing_content_witness:
  "Validate (example_valid @ ''} x'') = Some
     (\<lparr>req_Amount = \<lparr>amount_r = Some 250000, amount_scale = 2\<rparr>, req_Months = 240, req_RiskBand = ''B''\<rparr>, [])
   \<and> Validate (example_valid @ ''{}'') = Some malformed_body"
  using Validate_trailing_content [OF example_valid_decodes, of "''} x''"]
    Validate_trailing_content [OF example_valid_decodes, of "''{}''"]
  by (simp add: example_valid_request skip_space_def json_space_def byte_def)

text \<open>
  The code of a bad term. A field that is no number at all is still reported as a non-integer
  when its text holds a point or a letter e, so the JSON literal \<open>true\<close> and the integral number
  \<open>1.0\<close> both get \<open>term_not_integer\<close>, and \<open>null\<close>, a string or an absent field get \<open>term_invalid\<close>.
\<close>

theorem term_error_code:
  "term_errors raw =
     (if term_ok raw then []
      else [\<lparr>fe_field = ''loanTermInMonths'', fe_code =
         (if \<not> snd (numberText raw) then CodeTermInvalid
          else if parse_int (trim_space raw) \<noteq> None then CodeTermOutOfRange
          else if contains_any (trim_space raw) ''.eE'' then CodeTermNotInteger
          else CodeTermInvalid)\<rparr>])
   \<and> map fe_code (term_errors ''true'') = [CodeTermNotInteger]
   \<and> map fe_code (term_errors ''1.0'') = [CodeTermNotInteger]"
proof -
  have "term_errors raw \<noteq> [] \<longleftrightarrow> \<not> term_ok raw" by (simp add: term_errors_ok)
  then have "term_errors raw =
     (if term_ok raw then []
      else [\<lparr>fe_field = ''loanTermInMonths'', fe_code =
         (if \<not> snd (numberText raw) then CodeTermInvalid
          else if parse_int (trim_space raw) \<noteq> None then CodeTermOutOfRange
          else if contains_any (trim_space raw) ''.eE'' then CodeTermNotInteger
          else CodeTermInvalid)\<rparr>])"
    by (auto simp: term_errors_def check_term_def add_error_def numberText_def Let_def
        split: prod.splits option.splits if_splits)
  moreover have "map fe_code (term_errors ''true'') = [CodeTermNotInteger]"
    and "map fe_code (term_errors ''1.0'') = [CodeTermNotInteger]"
    by code_simp+
  ultimately show ?thesis by blast
qed

end
