(* ===== verification/Env.thy ===== *)
theory Env
  imports Validate
begin

text \<open>
  What the Go code takes from outside the repository: the clock, the network, the random source and
  the request context. The network and the random source are parameters (\<open>env\<close>); the state they
  act on is the \<open>world\<close>: a clock that never goes back, the requests put on the wire so far, and
  the number of random draws taken.
\<close>

section \<open>Requests on the wire\<close>

record wire_request =
  wr_url :: string
  wr_headers :: "(string \<times> string) list"
  wr_body :: string

text \<open>
  A response as the client reads it: the status, the \<open>Retry-After\<close> header (empty if absent) and the
  body, or the error met while reading it.
\<close>

record wire_response =
  ws_status :: int
  ws_retry_after :: string
  ws_body :: "go_error + string"

datatype reply = Response wire_response | NoResponse go_error

record world =
  w_clock :: instant
  w_sent :: "wire_request list"
  w_draws :: nat

section \<open>Contexts\<close>

text \<open>\<open>authtoken.Caller\<close>: a verified identity.\<close>

record Caller =
  Subject :: string
  TokenID :: string
  Requested :: "string list"

text \<open>
  A \<open>context.Context\<close>: its deadline, the instant its owner cancels it, and the values the services
  put on it. An empty correlation id is the absent value.
\<close>

record ctx =
  ctx_deadline :: "instant option"
  ctx_cancel :: "instant option"
  ctx_correlation :: string
  ctx_caller :: "Caller option"

definition background :: ctx where
  "background = \<lparr>ctx_deadline = None, ctx_cancel = None, ctx_correlation = [], ctx_caller = None\<rparr>"

definition passed :: "instant option \<Rightarrow> instant \<Rightarrow> bool" where
  "passed t now = (case t of None \<Rightarrow> False | Some t \<Rightarrow> t \<le> now)"

text \<open>\<open>ctx.Err()\<close> at an instant: whichever end came first.\<close>

definition ctx_err :: "ctx \<Rightarrow> instant \<Rightarrow> sentinel option" where
  "ctx_err c now =
     (if passed (ctx_cancel c) now \<and> \<not> (passed (ctx_deadline c) now
           \<and> the (ctx_deadline c) \<le> the (ctx_cancel c)) then Some Canceled
      else if passed (ctx_deadline c) now then Some DeadlineExceeded
      else None)"

text \<open>\<open>context.WithTimeout\<close>.\<close>

definition with_timeout :: "duration \<Rightarrow> instant \<Rightarrow> ctx \<Rightarrow> ctx" where
  "with_timeout d now c =
     c\<lparr>ctx_deadline := Some (case ctx_deadline c of None \<Rightarrow> now + d | Some t \<Rightarrow> min t (now + d))\<rparr>"

text \<open>\<open>t.Sub(u)\<close> saturates.\<close>

definition time_sub :: "instant \<Rightarrow> instant \<Rightarrow> duration" where
  "time_sub t u = max (-(2 ^ 63)) (min (2 ^ 63 - 1) (t - u))"

section \<open>The environment\<close>

text \<open>
  \<open>env_do\<close> is \<open>http.Client.Do\<close> and the far end: what comes back for the last request on the wire,
  and after how long. \<open>env_jitter k n\<close> is the \<open>k\<close>-th draw of \<open>rand.Int64N(n)\<close>. \<open>env_join_path\<close> and
  \<open>env_request_ok\<close> are \<open>url.JoinPath\<close> and whether \<open>http.NewRequestWithContext\<close> takes the URL.
\<close>

record env =
  env_do :: "world \<Rightarrow> duration \<Rightarrow> ctx \<Rightarrow> reply \<times> nat"
  env_jitter :: "nat \<Rightarrow> int64 \<Rightarrow> int64"
  env_join_path :: "string \<Rightarrow> string \<Rightarrow> string option"
  env_request_ok :: "string \<Rightarrow> bool"

text \<open>The documented range of \<open>rand.Int64N\<close>.\<close>

definition jitter_in_range :: "env \<Rightarrow> bool" where
  "jitter_in_range e \<longleftrightarrow> (\<forall>k n. 0 < n \<longrightarrow> 0 \<le> env_jitter e k n \<and> env_jitter e k n < n)"

definition http_do :: "env \<Rightarrow> duration \<Rightarrow> ctx \<Rightarrow> wire_request \<Rightarrow> world \<Rightarrow> reply \<times> world" where
  "http_do e timeout c rq w =
     (let w1 = w\<lparr>w_sent := w_sent w @ [rq]\<rparr>;
          (rp, elapsed) = env_do e w1 timeout c
      in (rp, w1\<lparr>w_clock := w_clock w1 + int elapsed\<rparr>))"

definition draw_jitter :: "env \<Rightarrow> int64 \<Rightarrow> world \<Rightarrow> int64 \<times> world" where
  "draw_jitter e n w = (env_jitter e (w_draws w) n, w\<lparr>w_draws := Suc (w_draws w)\<rparr>)"

text \<open>
  A wait of \<open>d\<close> under a context: the timer, or the end of the context if that comes first, with the
  context's error. At the same instant the timer is taken to win.
\<close>

definition ctx_done_before :: "ctx \<Rightarrow> instant \<Rightarrow> instant option" where
  "ctx_done_before c t =
     (case (ctx_deadline c, ctx_cancel c) of
        (None, None) \<Rightarrow> None
      | (Some a, None) \<Rightarrow> if a < t then Some a else None
      | (None, Some b) \<Rightarrow> if b < t then Some b else None
      | (Some a, Some b) \<Rightarrow> if min a b < t then Some (min a b) else None)"

definition wait_ctx :: "ctx \<Rightarrow> duration \<Rightarrow> world \<Rightarrow> sentinel option \<times> world" where
  "wait_ctx c d w =
     (let wake = w_clock w + d
      in case ctx_done_before c wake of
           None \<Rightarrow> (None, w\<lparr>w_clock := wake\<rparr>)
         | Some t \<Rightarrow> (let now = max (w_clock w) t in (ctx_err c now, w\<lparr>w_clock := now\<rparr>)))"

type_synonym 'a source = "ctx \<Rightarrow> QuoteRequest \<Rightarrow> world \<Rightarrow> (go_error + 'a) \<times> world"

lemma http_do_sent [simp]: "w_sent (snd (http_do e t c rq w)) = w_sent w @ [rq]"
  by (simp add: http_do_def Let_def split: prod.split)

lemma http_do_clock: "w_clock w \<le> w_clock (snd (http_do e t c rq w))"
  by (simp add: http_do_def Let_def split: prod.split)

lemma draw_jitter_frame [simp]:
  "w_sent (snd (draw_jitter e n w)) = w_sent w" "w_clock (snd (draw_jitter e n w)) = w_clock w"
  by (simp_all add: draw_jitter_def)

lemma wait_ctx_sent [simp]: "w_sent (snd (wait_ctx c d w)) = w_sent w"
  by (simp add: wait_ctx_def Let_def split: option.split)

lemma wait_ctx_clock: "0 \<le> d \<Longrightarrow> w_clock w \<le> w_clock (snd (wait_ctx c d w))"
  by (simp add: wait_ctx_def Let_def split: option.split)

lemma ctx_done_before_err: "ctx_done_before c t = Some u \<Longrightarrow> u \<le> now \<Longrightarrow> ctx_err c now \<noteq> None"
  by (auto simp: ctx_done_before_def ctx_err_def passed_def split: option.splits if_splits)

lemma wait_ctx_ok: "fst (wait_ctx c d w) = None \<Longrightarrow> w_clock (snd (wait_ctx c d w)) = w_clock w + d"
proof (cases "ctx_done_before c (w_clock w + d)")
  case None
  then show ?thesis by (simp add: wait_ctx_def Let_def)
next
  case (Some t)
  then have "ctx_err c (max (w_clock w) t) \<noteq> None" by (rule ctx_done_before_err) simp
  with Some show "fst (wait_ctx c d w) = None \<Longrightarrow> ?thesis" by (simp add: wait_ctx_def Let_def)
qed

section \<open>A scripted environment\<close>

text \<open>
  For closed examples: the far end answers the \<open>n\<close>-th request with the \<open>n\<close>-th reply of the script and
  then never again, after one millisecond each; the random source draws the largest value it may.
\<close>

definition scripted_env :: "reply list \<Rightarrow> env" where
  "scripted_env script =
     \<lparr>env_do = (\<lambda>w timeout c.
        (let n = length (w_sent w) - 1
         in (if n < length script then script ! n else NoResponse (PlainError ''refused''), 1000000))),
      env_jitter = (\<lambda>k n. n - 1),
      env_join_path = (\<lambda>base path. Some (base @ path)),
      env_request_ok = (\<lambda>u. True)\<rparr>"

definition start_world :: world where
  "start_world = \<lparr>w_clock = 0, w_sent = [], w_draws = 0\<rparr>"

lemma scripted_jitter: "jitter_in_range (scripted_env script)"
  by (simp add: jitter_in_range_def scripted_env_def)

end
