(* ===== verification/Httpx.thy ===== *)
theory Httpx
  imports Env
begin

text \<open>
  \<open>internal/platform/httpx\<close>: the middleware every service is wrapped in (\<open>middleware.go\<close>), the
  health endpoint (\<open>server.go\<close>, \<open>health.go\<close>), and what of \<open>net/http\<close> the services rely on: request
  headers, bounded body reads and the routing of \<open>ServeMux\<close>. A handler is a function of the context,
  the request and the state it may change; \<^const>\<open>None\<close> as its response is a panic before anything was
  written.
\<close>

section \<open>Requests, handlers and the mux\<close>

text \<open>
  Header keys are in canonical form, as \<open>net/http\<close> stores them. The body is the bytes that arrive, and
  the error that ends them if it is not the end of the body; \<open>rq_body_time\<close> is how long whoever reads it
  waits for them. A handler that reads a body lets that much time pass, and no deadline of the servers
  cuts it short.
\<close>

record request =
  rq_method :: string
  rq_path :: string
  rq_headers :: "(string \<times> string) list"
  rq_cookies :: "(string \<times> string) list"
  rq_body :: string
  rq_body_err :: "go_error option"
  rq_body_time :: nat

definition header_get :: "string \<Rightarrow> request \<Rightarrow> string" where
  "header_get key r = (case map_of (rq_headers r) key of None \<Rightarrow> [] | Some v \<Rightarrow> v)"

text \<open>
  What \<open>io.ReadAll(io.LimitReader(r.Body, n))\<close> returns: an error past the limit is never seen. The time it
  takes is added to the clock of the service by the handler that calls it.
\<close>

definition read_body :: "nat \<Rightarrow> request \<Rightarrow> go_error + string" where
  "read_body n r =
     (if n \<le> length (rq_body r) then Inr (take n (rq_body r))
      else (case rq_body_err r of None \<Rightarrow> Inr (rq_body r) | Some err \<Rightarrow> Inl err))"

type_synonym 's handler = "ctx \<Rightarrow> request \<Rightarrow> 's \<Rightarrow> response option \<times> 's"
type_synonym 's middleware = "'s handler \<Rightarrow> 's handler"

text \<open>\<open>Chain\<close>: the first listed is the outermost.\<close>

definition Chain :: "'s handler \<Rightarrow> 's middleware list \<Rightarrow> 's handler" where
  "Chain h mw = foldr (\<lambda>m h. m h) mw h"

definition respond :: "response \<Rightarrow> 's \<Rightarrow> response option \<times> 's" where
  "respond resp s = (Some resp, s)"

text \<open>
  \<open>http.ServeMux\<close> on a clean path: the pattern with this path and method (\<open>GET\<close> also serves \<open>HEAD\<close>),
  405 when only the method differs, 404 otherwise.
\<close>

record 's route =
  rt_method :: string
  rt_path :: string
  rt_handler :: "'s handler"

definition method_matches :: "string \<Rightarrow> string \<Rightarrow> bool" where
  "method_matches pattern m \<longleftrightarrow> m = pattern \<or> (pattern = ''GET'' \<and> m = ''HEAD'')"

definition plain_response :: "int \<Rightarrow> string \<Rightarrow> response" where
  "plain_response st msg =
     \<lparr>resp_status = st, resp_headers = [(''Content-Type'', ''text/plain; charset=utf-8'')],
      resp_body = msg @ newline\<rparr>"

definition Mux :: "'s route list \<Rightarrow> 's handler" where
  "Mux routes c r s =
     (case find (\<lambda>rt. rt_path rt = rq_path r \<and> method_matches (rt_method rt) (rq_method r)) routes of
        Some rt \<Rightarrow> rt_handler rt c r s
      | None \<Rightarrow>
          if list_ex (\<lambda>rt. rt_path rt = rq_path r) routes
          then respond (plain_response 405 ''Method Not Allowed'') s
          else respond (plain_response 404 ''404 page not found'') s)"

section \<open>Correlation\<close>

definition maxCorrelationLen :: nat where "maxCorrelationLen = 64"
definition CorrelationHeader :: string where "CorrelationHeader = ''X-Correlation-Id''"

definition correlation_char :: "char \<Rightarrow> bool" where
  "correlation_char c \<longleftrightarrow>
     is_lower c \<or> is_upper c \<or> is_digit c \<or> c = CHR ''-'' \<or> c = CHR ''_'' \<or> c = CHR ''.''"

definition sanitiseCorrelationID :: "string \<Rightarrow> string" where
  "sanitiseCorrelationID s =
     (if s = [] \<or> length s > maxCorrelationLen then []
      else if list_all correlation_char s then s else [])"

definition hex_encode :: "string \<Rightarrow> string" where
  "hex_encode bs = concat (map (\<lambda>c. [hex_digit (byte c div 16), hex_digit (byte c mod 16)]) bs)"

text \<open>
  The random bytes drawn, \<^const>\<open>None\<close> if \<open>crypto/rand\<close> failed, and the time text used instead.
\<close>

definition newID :: "string option \<Rightarrow> string \<Rightarrow> string" where
  "newID random now_text = (case random of None \<Rightarrow> hex_encode now_text | Some bs \<Rightarrow> hex_encode bs)"

text \<open>What a request draws from outside: the active trace id and the bytes for a fresh id.\<close>

record draws =
  dr_trace :: string
  dr_random :: "string option"
  dr_now :: string

definition correlation_id :: "draws \<Rightarrow> request \<Rightarrow> string" where
  "correlation_id d r =
     (let id1 = sanitiseCorrelationID (header_get CorrelationHeader r);
          id2 = (if id1 = [] \<and> dr_trace d \<noteq> [] then dr_trace d else id1)
      in if id2 = [] then newID (dr_random d) (dr_now d) else id2)"

text \<open>A header set before the handler runs: the handler's own value for it wins.\<close>

definition preset_header :: "string \<Rightarrow> string \<Rightarrow> response \<Rightarrow> response" where
  "preset_header k v resp =
     (if k \<in> fst ` set (resp_headers resp) then resp
      else resp\<lparr>resp_headers := (k, v) # resp_headers resp\<rparr>)"

definition Correlation :: "draws \<Rightarrow> 's middleware" where
  "Correlation d next c r s =
     (let id = correlation_id d r;
          (out, s') = next (c\<lparr>ctx_correlation := id\<rparr>) r s
      in (map_option (preset_header CorrelationHeader id) out, s'))"

section \<open>Recovery, timeout and health\<close>

definition Recoverer :: "'s middleware" where
  "Recoverer next c r s =
     (case next c r s of
        (None, s') \<Rightarrow> respond (WriteError (ctx_correlation c) (HttpxError (Internal None))) s'
      | (Some resp, s') \<Rightarrow> (Some resp, s'))"

definition Timeout :: "('s \<Rightarrow> instant) \<Rightarrow> duration \<Rightarrow> 's middleware" where
  "Timeout clock d next c r s = next (with_timeout d (clock s) c) r s"

text \<open>\<open>recorder\<close>, the response writer of the request log: only the first status goes out.\<close>

record recorder =
  rec_status :: int
  rec_written :: bool
  rec_sent :: "int list" \<comment> \<open>the statuses passed to the writer below\<close>

definition new_recorder :: recorder where
  "new_recorder = \<lparr>rec_status = 200, rec_written = False, rec_sent = []\<rparr>"

definition WriteHeader :: "int \<Rightarrow> recorder \<Rightarrow> recorder" where
  "WriteHeader status r =
     (if rec_written r then r
      else r\<lparr>rec_written := True, rec_status := status, rec_sent := rec_sent r @ [status]\<rparr>)"

definition recorder_Write :: "recorder \<Rightarrow> recorder" where
  "recorder_Write r = r\<lparr>rec_written := True\<rparr>"

definition health_response :: response where
  "health_response =
     \<lparr>resp_status = 200, resp_headers = [json_content_type], resp_body = quoted ''{`status`:`ok`}''\<rparr>"

definition Health :: "'s handler" where
  "Health c r s = respond health_response s"

text \<open>\<open>CheckHealth\<close> asks the service's own \<open>/healthz\<close>; \<open>get\<close> is what a GET of a URL brings back in the time given.\<close>

definition health_url :: "int \<Rightarrow> string" where
  "health_url port = ''http://127.0.0.1:'' @ itoa port @ ''/healthz''"

definition CheckHealth :: "(string \<Rightarrow> duration \<Rightarrow> reply) \<Rightarrow> int \<Rightarrow> duration \<Rightarrow> go_error option" where
  "CheckHealth get port timeout =
     (case get (health_url port) timeout of
        NoResponse err \<Rightarrow> Some err
      | Response resp \<Rightarrow>
          if ws_status resp \<noteq> 200
          then Some (PlainError (''health check returned '' @ itoa (ws_status resp))) else None)"

record ServeOptions =
  so_Port :: int
  ShutdownGrace :: duration
  ReadTimeout :: duration
  WriteTimeout :: duration

text \<open>The defaults of \<open>Serve\<close>; the rest of it is in \<open>Launch\<close>.\<close>

definition serve_defaults :: "ServeOptions \<Rightarrow> ServeOptions" where
  "serve_defaults o0 =
     (let o1 = (if ShutdownGrace o0 = 0 then o0\<lparr>ShutdownGrace := 10 * second\<rparr> else o0);
          o2 = (if ReadTimeout o1 = 0 then o1\<lparr>ReadTimeout := 5 * second\<rparr> else o1)
      in if WriteTimeout o2 = 0 then o2\<lparr>WriteTimeout := 15 * second\<rparr> else o2)"

section \<open>Lemmas\<close>

lemma Chain_Nil [simp]: "Chain h [] = h"
  by (simp add: Chain_def)

lemma Chain_Cons [simp]: "Chain h (m # ms) = m (Chain h ms)"
  by (simp add: Chain_def)

lemma sanitise_cases:
  "sanitiseCorrelationID s = (if s \<noteq> [] \<and> length s \<le> 64 \<and> list_all correlation_char s then s else [])"
  by (auto simp: sanitiseCorrelationID_def maxCorrelationLen_def)

lemma byte_char_of: "n < 256 \<Longrightarrow> byte (char_of n) = n"
  by (simp add: byte_def)

lemma hex_digit_char: "d < 16 \<Longrightarrow> correlation_char (hex_digit d)"
  by (auto simp: hex_digit_def correlation_char_def is_lower_def is_digit_def byte_char_of)

lemma hex_encode_chars: "list_all correlation_char (hex_encode bs)"
proof -
  have "byte c div 16 < 16" for c using byte_less_256 [of c] by linarith
  then show ?thesis by (induction bs) (simp_all add: hex_encode_def hex_digit_char)
qed

lemma length_hex_encode [simp]: "length (hex_encode bs) = 2 * length bs"
  by (induction bs) (simp_all add: hex_encode_def)

lemma Recoverer_no_panic: "fst (Recoverer next c r s) \<noteq> None"
  by (auto simp: Recoverer_def respond_def split: option.split prod.split)

lemma Recoverer_state [simp]: "snd (Recoverer next c r s) = snd (next c r s)"
  by (auto simp: Recoverer_def respond_def split: option.split prod.split)

lemma resp_preset [simp]:
  "resp_status (preset_header k v resp) = resp_status resp"
  "resp_body (preset_header k v resp) = resp_body resp"
  by (simp_all add: preset_header_def)

text \<open>Whatever a handler writes and in whatever order, at most one status goes out, the first.\<close>

datatype writer_call = CallWriteHeader int | CallWrite

primrec apply_call :: "writer_call \<Rightarrow> recorder \<Rightarrow> recorder" where
  "apply_call (CallWriteHeader st) r = WriteHeader st r"
| "apply_call CallWrite r = recorder_Write r"

lemma recorder_written: "rec_written r \<Longrightarrow> rec_sent (fold apply_call calls r) = rec_sent r"
proof (induction calls arbitrary: r)
  case Nil
  then show ?case by simp
next
  case (Cons k calls)
  have "rec_written (apply_call k r) \<and> rec_sent (apply_call k r) = rec_sent r"
    using Cons.prems by (cases k) (simp_all add: WriteHeader_def recorder_Write_def)
  then show ?case using Cons.IH [of "apply_call k r"] by simp
qed

lemma recorder_once:
  "rec_sent (fold apply_call calls new_recorder) =
     (case calls of CallWriteHeader st # _ \<Rightarrow> [st] | _ \<Rightarrow> [])"
proof (cases calls)
  case Nil
  then show ?thesis by (simp add: new_recorder_def)
next
  case (Cons k rest)
  then show ?thesis
    using recorder_written [of "apply_call k new_recorder" rest]
    by (cases k) (simp_all add: WriteHeader_def recorder_Write_def new_recorder_def)
qed

section \<open>Properties\<close>

definition safe_id :: "string \<Rightarrow> bool" where
  "safe_id s \<longleftrightarrow> s \<noteq> [] \<and> length s \<le> 64 \<and> list_all correlation_char s"

text \<open>
  C40: the correlation id. Whatever the client sends, the id put on the context, on the response and so
  into logs and error bodies is non-empty, at most 64 bytes of a conservative alphabet (given that the
  trace id is, when there is one, and that the random source yields its 16 bytes); it is the client's own
  id whenever that one is acceptable.
\<close>

theorem Correlation_safe:
  assumes "dr_trace d = [] \<or> safe_id (dr_trace d)" and "dr_random d = Some bs" "length bs = 16"
  shows "safe_id (correlation_id d r)
    \<and> (safe_id (header_get CorrelationHeader r) \<longrightarrow> correlation_id d r = header_get CorrelationHeader r)
    \<and> (case fst (Correlation d next c r s) of
          None \<Rightarrow> fst (next (c\<lparr>ctx_correlation := correlation_id d r\<rparr>) r s) = None
        | Some resp \<Rightarrow> CorrelationHeader \<in> fst ` set (resp_headers resp))
    \<and> (fst (next (c\<lparr>ctx_correlation := correlation_id d r\<rparr>) r s) = Some (WriteError cid err)
        \<longrightarrow> (\<exists>resp. fst (Correlation d next c r s) = Some resp
              \<and> (CorrelationHeader, correlation_id d r) \<in> set (resp_headers resp)))"
proof -
  have "safe_id (hex_encode bs)"
    using assms(3) hex_encode_chars [of bs] by (auto simp: safe_id_def simp flip: length_0_conv)
  then have "safe_id (correlation_id d r)
      \<and> (safe_id (header_get CorrelationHeader r) \<longrightarrow> correlation_id d r = header_get CorrelationHeader r)"
    using assms(1,2) by (auto simp: correlation_id_def sanitise_cases safe_id_def newID_def Let_def)
  moreover have "CorrelationHeader \<notin> fst ` set (resp_headers (WriteError cid err))"
    by (auto simp: WriteError_def WriteJSON_def json_content_type_def CorrelationHeader_def Let_def)
  ultimately show ?thesis
    by (cases "next (c\<lparr>ctx_correlation := correlation_id d r\<rparr>) r s")
       (auto simp: Correlation_def preset_header_def Let_def split: option.split)
qed

definition example_draws :: draws where
  "example_draws = \<lparr>dr_trace = [], dr_random = Some (replicate 16 CHR ''A''), dr_now = []\<rparr>"

definition bare_request :: request where
  "bare_request = \<lparr>rq_method = ''GET'', rq_path = ''/healthz'', rq_headers = [], rq_cookies = [],
     rq_body = [], rq_body_err = None, rq_body_time = 0\<rparr>"

theorem Correlation_safe_witness:
  "safe_id (correlation_id example_draws bare_request)
   \<and> correlation_id example_draws (bare_request\<lparr>rq_headers := [(CorrelationHeader, ''abc-1'')]\<rparr>) = ''abc-1''"
proof -
  have d: "dr_trace example_draws = [] \<or> safe_id (dr_trace example_draws)"
    "dr_random example_draws = Some (replicate 16 CHR ''A'')" "length (replicate 16 CHR ''A'') = 16"
    by (simp_all add: example_draws_def)
  have "safe_id ''abc-1''" by code_simp
  then show ?thesis
    using Correlation_safe [OF d, of bare_request Health background "()"]
      Correlation_safe [OF d, of "bare_request\<lparr>rq_headers := [(CorrelationHeader, ''abc-1'')]\<rparr>" Health background "()"]
    by (simp add: header_get_def)
qed

end
