(* ===== verification/Staffdir.thy ===== *)
theory Staffdir
  imports Httpx
begin

text \<open>
  \<open>internal/platform/staffdir/staffdir.go\<close>: the staff fixture, which says who exists and what each may
  do, with the part of \<open>encoding/csv\<close> it uses (comment lines, quoted fields, leading space trimmed, a
  fixed number of fields). Error texts leave out the \<open>%q\<close> renderings.
\<close>

section \<open>Reading CSV\<close>

definition comma :: char where "comma = CHR '',''"
definition dquote :: char where "dquote = char_of (34 :: nat)"
definition lf :: char where "lf = char_of (10 :: nat)"
definition cr :: char where "cr = char_of (13 :: nat)"

text \<open>Lines with their newline, a final carriage return dropped.\<close>

fun raw_lines :: "string \<Rightarrow> string list" where
  "raw_lines [] = []"
| "raw_lines (c # s) =
     (if c = lf then [c] # raw_lines s
      else (case raw_lines s of
          [] \<Rightarrow> [[c]]
        | l # ls \<Rightarrow> (c # l) # ls))"

definition csv_line :: "string \<Rightarrow> string" where
  "csv_line l =
     (if last l = lf then (if take 2 (rev l) = [lf, cr] then butlast (butlast l) @ [lf] else l)
      else if last l = cr then butlast l else l)"

definition csv_lines :: "string \<Rightarrow> string list" where
  "csv_lines s = map csv_line (raw_lines s)"

definition chomp :: "string \<Rightarrow> string" where
  "chomp l = (if l \<noteq> [] \<and> last l = lf then butlast l else l)"

text \<open>
  The rest of a quoted field: its text, the rest of the line after the comma that ends it (or the end of
  the record), and the lines after that.
\<close>

definition lines_size :: "string list \<Rightarrow> nat" where
  "lines_size ls = sum_list (map (\<lambda>l. Suc (length l)) ls)"

lemma cut_length: "(b, a, True) = cut sep s \<Longrightarrow> length (tl a) < length s \<and> length a < length s"
  using cut_True [of sep s b a] by simp

function csv_quoted :: "string \<Rightarrow> string list \<Rightarrow> (string \<times> string option \<times> string list) option" where
  "csv_quoted line rest =
     (case cut dquote line of
        (pre, post, found) \<Rightarrow>
          if found then
          (if post \<noteq> [] \<and> hd post = dquote then
             map_option (\<lambda>(t, r). (pre @ dquote # t, r)) (csv_quoted (tl post) rest)
           else if post \<noteq> [] \<and> hd post = comma then Some (pre, Some (tl post), rest)
           else if chomp post = [] then Some (pre, None, rest)
           else None)
          else (case rest of
             [] \<Rightarrow> None
           | l # ls \<Rightarrow> if line = [] then None
               else map_option (\<lambda>(t, r). (line @ t, r)) (csv_quoted l ls)))"
  by pat_completeness auto
termination
  by (relation "measure (\<lambda>(line, rest). length line + lines_size rest)")
     (auto simp: lines_size_def dest!: cut_length)

declare csv_quoted.simps [simp del]

lemma csv_quoted_smaller:
  "csv_quoted line rest = Some (t, Some fol, rest') \<Longrightarrow> length fol + lines_size rest' < length line + lines_size rest"
proof (induction line rest arbitrary: t fol rest' rule: csv_quoted.induct)
  case (1 line rest)
  obtain pre post ok where c: "cut dquote line = (pre, post, ok)" by (cases "cut dquote line") auto
  show ?case
  proof (cases ok)
    case True
    with c have line: "line = pre @ dquote # post" by (auto dest: cut_True)
    have eq: "csv_quoted line rest =
        (if post \<noteq> [] \<and> hd post = dquote then
           map_option (\<lambda>(t, r). (pre @ dquote # t, r)) (csv_quoted (tl post) rest)
         else if post \<noteq> [] \<and> hd post = comma then Some (pre, Some (tl post), rest)
         else if chomp post = [] then Some (pre, None, rest)
         else None)"
      using c \<open>ok\<close> by (simp add: csv_quoted.simps [of line])
    show ?thesis
    proof (cases "post \<noteq> [] \<and> hd post = dquote")
      case True
      then obtain t' where "csv_quoted (tl post) rest = Some (t', Some fol, rest')"
        using "1.prems" eq by auto
      then have "length fol + lines_size rest' < length (tl post) + lines_size rest"
        using "1.IH"(1) [of pre "(post, ok)" post ok] c \<open>ok\<close> True by simp
      then show ?thesis by (simp add: line)
    next
      case False
      then show ?thesis
        using "1.prems" eq by (auto simp: line split: if_splits)
    qed
  next
    case False
    then obtain l ls where r: "rest = l # ls" "line \<noteq> []"
      using "1.prems" c by (auto simp: csv_quoted.simps [of line] split: list.splits if_splits)
    then obtain t' where "csv_quoted l ls = Some (t', Some fol, rest')"
      using "1.prems" c False by (auto simp: csv_quoted.simps [of line])
    then have "length fol + lines_size rest' < length l + lines_size ls"
      using "1.IH"(2) [of pre "(post, ok)" post ok l ls] c False r by auto
    then show ?thesis by (simp add: r lines_size_def)
  qed
qed

lemma csv_quoted_rest: "csv_quoted line rest = Some (t, fol, rest') \<Longrightarrow> lines_size rest' \<le> lines_size rest"
proof (induction line rest arbitrary: t fol rest' rule: csv_quoted.induct)
  case (1 line rest)
  obtain pre post ok where c: "cut dquote line = (pre, post, ok)" by (cases "cut dquote line") auto
  show ?case
  proof (cases ok)
    case True
    then show ?thesis
      using "1.prems" "1.IH"(1) [of pre "(post, ok)" post ok] c
      by (auto simp: csv_quoted.simps [of line] split: if_splits)
  next
    case False
    then obtain l ls where r: "rest = l # ls" "line \<noteq> []"
      using "1.prems" c by (auto simp: csv_quoted.simps [of line] split: list.splits if_splits)
    then obtain t' where "csv_quoted l ls = Some (t', fol, rest')"
      using "1.prems" c False by (auto simp: csv_quoted.simps [of line])
    then have "lines_size rest' \<le> lines_size ls"
      using "1.IH"(2) [of pre "(post, ok)" post ok l ls] c False r by auto
    then show ?thesis by (simp add: r lines_size_def)
  qed
qed

text \<open>The fields of one record: leading space (newlines included) is trimmed off each.\<close>

function csv_fields :: "string \<Rightarrow> string list \<Rightarrow> (string list \<times> string list) option" where
  "csv_fields line0 rest =
     (let line = trim_left line0 in
      if line = [] \<or> hd line \<noteq> dquote then
        (case cut comma line of
           (field, after, found) \<Rightarrow>
             if found then
               (if contains field dquote then None
                else map_option (\<lambda>(fs, r). (field # fs, r)) (csv_fields after rest))
             else if contains (chomp field) dquote then None else Some ([chomp field], rest))
      else (case csv_quoted (tl line) rest of
          None \<Rightarrow> None
        | Some (t, None, r) \<Rightarrow> Some ([t], r)
        | Some (t, Some after, r) \<Rightarrow> map_option (\<lambda>(fs, r'). (t # fs, r')) (csv_fields after r)))"
  by pat_completeness auto
termination
proof (relation "measure (\<lambda>(line, rest). length line + lines_size rest)", goal_cases)
  case 1
  show ?case by simp
next
  case (2 line0 rest x field y after b)
  then have "length after < length (trim_left line0)"
    using cut_length [of field after comma "trim_left line0"] by simp
  then show ?case using trim_left_length [of line0] by simp
next
  case (3 line0 rest x p t q fol r after)
  then have "length after + lines_size r < length (tl (trim_left line0)) + lines_size rest"
    using csv_quoted_smaller [of "tl (trim_left line0)" rest t after r] by simp
  then show ?case using trim_left_length [of line0] by simp
qed

declare csv_fields.simps [simp del]

lemma csv_fields_rest: "csv_fields line rest = Some (fs, rest') \<Longrightarrow> lines_size rest' \<le> lines_size rest"
proof (induction line rest arbitrary: fs rest' rule: csv_fields.induct)
  case (1 line0 rest)
  let ?line = "trim_left line0"
  show ?case
  proof (cases "?line = [] \<or> hd ?line \<noteq> dquote")
    case True
    obtain field after b where c: "cut comma ?line = (field, after, b)" by (cases "cut comma ?line") auto
    show ?thesis
      using "1.prems" "1.IH"(1) [of ?line field "(after, b)" after b] True c
      by (cases b) (auto simp: csv_fields.simps [of line0] Let_def split: if_splits)
  next
    case False
    then obtain t fol r where q: "csv_quoted (tl ?line) rest = Some (t, fol, r)"
      using "1.prems" by (auto simp: csv_fields.simps [of line0] Let_def split: option.splits)
    then have r: "lines_size r \<le> lines_size rest" by (rule csv_quoted_rest)
    show ?thesis
    proof (cases fol)
      case None
      then show ?thesis
        using "1.prems" False q r by (auto simp: csv_fields.simps [of line0] Let_def)
    next
      case (Some after)
      then obtain fs' where "csv_fields after r = Some (fs', rest')"
        using "1.prems" False q by (auto simp: csv_fields.simps [of line0] Let_def)
      then have "lines_size rest' \<le> lines_size r"
        using "1.IH"(2) [of ?line "(t, fol, r)" t "(fol, r)" fol r after] False q Some by simp
      then show ?thesis using r by simp
    qed
  qed
qed

text \<open>
  \<open>ReadAll\<close> with \<open>Comment = '#'\<close> and \<open>FieldsPerRecord = n\<close>: lines that start with the comment character
  and empty lines are skipped; any error ends it.
\<close>

function csv_read :: "nat \<Rightarrow> string list \<Rightarrow> string list list option" where
  "csv_read n [] = Some []"
| "csv_read n (l # ls) =
     (if (l \<noteq> [] \<and> hd l = CHR ''#'') \<or> chomp l = [] then csv_read n ls
      else (case csv_fields l ls of
          None \<Rightarrow> None
        | Some (fs, r) \<Rightarrow> if length fs \<noteq> n then None else map_option (\<lambda>rs. fs # rs) (csv_read n r)))"
  by pat_completeness auto
termination
  by (relation "measure (\<lambda>(n, ls). lines_size ls)") (auto simp: lines_size_def dest!: csv_fields_rest)

lemma csv_read_fields: "csv_read n ls = Some rows \<Longrightarrow> row \<in> set rows \<Longrightarrow> length row = n"
proof (induction n ls arbitrary: rows rule: csv_read.induct)
  case 1
  then show ?case by simp
next
  case (2 n l ls)
  then show ?case by (auto split: if_splits option.splits)
qed

section \<open>The directory\<close>

record Staff =
  ID :: string
  Name :: string
  Scopes :: "string list"

record Directory =
  byID :: "string \<Rightarrow> Staff option"
  order :: "Staff list"

definition scopeSeparator :: char where "scopeSeparator = CHR '';''"

definition parseScopes :: "string \<Rightarrow> string list" where
  "parseScopes field =
     filter (\<lambda>s. s \<noteq> []) (map trim_space (split_on scopeSeparator field))"

definition lower :: "string list \<Rightarrow> string list" where
  "lower ss = map (\<lambda>s. to_lower (trim_space s)) ss"

definition line_error :: "nat \<Rightarrow> string \<Rightarrow> go_error" where
  "line_error i msg = PlainError (''line '' @ itoa (int i + 2) @ '': '' @ msg)"

fun parse_rows :: "nat \<Rightarrow> string list list \<Rightarrow> Directory \<Rightarrow> go_error + Directory" where
  "parse_rows i [] d = Inr d"
| "parse_rows i (row # rows) d =
     (let sid = trim_space (row ! 0) in
      if sid = [] then Inl (line_error i ''id is required'')
      else if byID d sid \<noteq> None then Inl (line_error i ''duplicate id'')
      else (let s = \<lparr>ID = sid, Name = trim_space (row ! 1), Scopes = parseScopes (row ! 2)\<rparr>
            in parse_rows (Suc i) rows (d\<lparr>byID := (byID d)(sid \<mapsto> s), order := order d @ [s]\<rparr>)))"

definition empty_Directory :: Directory where
  "empty_Directory = \<lparr>byID = (\<lambda>_. None), order = []\<rparr>"

definition Parse :: "string \<Rightarrow> go_error + Directory" where
  "Parse content =
     (case csv_read 3 (csv_lines content) of
        None \<Rightarrow> Inl (WrapError ''read csv: %w'' [PlainError ''csv''])
      | Some [] \<Rightarrow> Inl (PlainError ''is empty'')
      | Some (header # rows) \<Rightarrow>
          if lower header \<noteq> [''id'', ''name'', ''scopes''] then Inl (PlainError ''header must be [id name scopes]'')
          else (case parse_rows 0 rows empty_Directory of
              Inl err \<Rightarrow> Inl err
            | Inr d \<Rightarrow> if order d = [] then Inl (PlainError ''contains no staff'') else Inr d))"

text \<open>\<open>Load\<close>: the contents of the file, or the error of opening it.\<close>

definition Load_staff :: "go_error + string \<Rightarrow> go_error + Directory" where
  "Load_staff file =
     (case file of
        Inl err \<Rightarrow> Inl (WrapError ''open staff fixture: %w (set STAFF_FILE to point at it)'' [err])
      | Inr content \<Rightarrow>
          (case Parse content of
             Inl err \<Rightarrow> Inl (WrapError ''staff fixture: %w'' [err])
           | Inr d \<Rightarrow> Inr d))"

definition Lookup :: "Directory \<Rightarrow> string \<Rightarrow> Staff option" where
  "Lookup d sid = byID d sid"

definition All :: "Directory \<Rightarrow> Staff list" where
  "All d = order d"

definition Granted :: "Directory \<Rightarrow> ctx \<Rightarrow> string \<Rightarrow> go_error + string list" where
  "Granted d c subject =
     (case byID d subject of None \<Rightarrow> Inr [] | Some s \<Rightarrow> Inr (Scopes s))"

section \<open>Well-formed directories\<close>

definition directory_ok :: "Directory \<Rightarrow> bool" where
  "directory_ok d \<longleftrightarrow>
     distinct (map ID (order d)) \<and> byID d = map_of (map (\<lambda>s. (ID s, s)) (order d))
     \<and> (\<forall>s \<in> set (order d). ID s \<noteq> [] \<and> [] \<notin> set (Scopes s))"

definition row_staff :: "string list \<Rightarrow> Staff" where
  "row_staff row = \<lparr>ID = trim_space (row ! 0), Name = trim_space (row ! 1), Scopes = parseScopes (row ! 2)\<rparr>"

lemma directory_ok_empty [simp]: "directory_ok empty_Directory"
  by (simp add: directory_ok_def empty_Directory_def)

lemma directory_ok_lookup:
  "directory_ok d \<Longrightarrow> byID d sid = Some s \<longleftrightarrow> s \<in> set (order d) \<and> ID s = sid"
  unfolding directory_ok_def
  by (auto simp: map_of_eq_Some_iff map_of_SomeD comp_def distinct_map inj_on_def image_iff
      intro: map_of_is_SomeI dest: map_of_SomeD)

lemma directory_ok_add:
  assumes "directory_ok d" "byID d (ID s) = None" "ID s \<noteq> []" "[] \<notin> set (Scopes s)"
  shows "directory_ok (d\<lparr>byID := (byID d)(ID s \<mapsto> s), order := order d @ [s]\<rparr>)"
proof -
  have "ID s \<notin> ID ` set (order d)"
    using assms(1,2) directory_ok_lookup [OF assms(1)] by (metis image_iff option.distinct(1))
  moreover have "map_of (map (\<lambda>s. (ID s, s)) (order d) @ [(ID s, s)]) = (byID d)(ID s \<mapsto> s)"
    using assms(1,2) by (auto simp: directory_ok_def map_add_def fun_eq_iff split: option.split)
  ultimately show ?thesis using assms by (auto simp: directory_ok_def)
qed

lemma parse_rows_result:
  assumes "directory_ok d"
  shows "case parse_rows i rows d of
      Inr d' \<Rightarrow> directory_ok d' \<and> order d' = order d @ map row_staff rows
        \<and> (\<forall>row \<in> set rows. trim_space (row ! 0) \<noteq> [])
    | Inl _ \<Rightarrow> (\<exists>row \<in> set rows. trim_space (row ! 0) = [])
        \<or> \<not> distinct (map ID (order d @ map row_staff rows))"
  using assms
proof (induction i rows d rule: parse_rows.induct)
  case (1 i d)
  then show ?case by simp
next
  case (2 i row rows d)
  let ?s = "row_staff row"
  have s: "ID ?s = trim_space (row ! 0)" by (simp add: row_staff_def)
  show ?case
  proof (cases "ID ?s = [] \<or> byID d (ID ?s) \<noteq> None")
    case True
    then obtain err where fails: "parse_rows i (row # rows) d = Inl err"
      using s by (cases "trim_space (row ! 0) = []") (auto simp: Let_def)
    have "ID ?s \<in> ID ` set (order d)" if "byID d (ID ?s) \<noteq> None"
      using that directory_ok_lookup [OF "2.prems", of "ID ?s"] by (metis image_eqI not_Some_eq)
    then have "ID ?s = [] \<or> \<not> distinct (map ID (order d @ map row_staff (row # rows)))"
      using True by auto
    then show ?thesis using s unfolding fails sum.case by (metis list.set_intros(1))
  next
    case False
    let ?d = "d\<lparr>byID := (byID d)(ID ?s \<mapsto> ?s), order := order d @ [?s]\<rparr>"
    have "[] \<notin> set (Scopes ?s)" by (simp add: row_staff_def parseScopes_def)
    then have ok: "directory_ok ?d" using False directory_ok_add [OF "2.prems", of ?s] by simp
    have eq: "parse_rows i (row # rows) d = parse_rows (Suc i) rows ?d"
      using False s by (simp add: Let_def row_staff_def)
    have "case parse_rows (Suc i) rows ?d of
      Inr d' \<Rightarrow> directory_ok d' \<and> order d' = order ?d @ map row_staff rows
        \<and> (\<forall>row \<in> set rows. trim_space (row ! 0) \<noteq> [])
    | Inl _ \<Rightarrow> (\<exists>row \<in> set rows. trim_space (row ! 0) = [])
        \<or> \<not> distinct (map ID (order ?d @ map row_staff rows))"
      by (rule "2.IH" [of "ID ?s" ?s]) (use False s ok in \<open>simp_all add: row_staff_def\<close>)
    then show ?thesis unfolding eq using False s by (auto split: sum.splits)
  qed
qed

section \<open>The contract of an entitlement source\<close>

text \<open>
  \<open>Entitlements\<close>, as the Middleware uses it: a source that always answers, and answers "nothing" for
  a subject it does not know. \<open>holds\<close> is the relation it answers from.
\<close>

locale entitlements =
  fixes granted :: "ctx \<Rightarrow> string \<Rightarrow> go_error + string list" and holds :: "string \<Rightarrow> string \<Rightarrow> bool"
  assumes answers: "\<exists>scopes. granted c subject = Inr scopes \<and> (\<forall>scope. scope \<in> set scopes \<longleftrightarrow> holds subject scope)"
begin

lemma never_fails: "granted c subject \<noteq> Inl err"
  using answers [of c subject] by auto

lemma granted_iff: "granted c subject = Inr scopes \<Longrightarrow> scope \<in> set scopes \<longleftrightarrow> holds subject scope"
  using answers [of c subject] by auto

end

definition staff_holds :: "Directory \<Rightarrow> string \<Rightarrow> string \<Rightarrow> bool" where
  "staff_holds d subject scope \<longleftrightarrow> (\<exists>s. Lookup d subject = Some s \<and> scope \<in> set (Scopes s))"

interpretation staff: entitlements "Granted d" "staff_holds d" for d
  by unfold_locales (auto simp: Granted_def staff_holds_def Lookup_def split: option.split)

section \<open>Properties\<close>

lemma Load_staff_rows:
  assumes "Load_staff file = Inr d"
  shows "directory_ok d" "staff \<in> set (order d) \<Longrightarrow> trim_space (ID staff) = ID staff"
proof -
  obtain rows where p: "parse_rows 0 rows empty_Directory = Inr d"
    using assms by (auto simp: Load_staff_def Parse_def split: sum.splits option.splits list.splits if_splits)
  have "order empty_Directory = []" by (simp add: empty_Directory_def)
  then have "directory_ok d \<and> order d = map row_staff rows"
    using parse_rows_result [where d = empty_Directory and i = 0 and rows = rows] p by simp
  then show "directory_ok d" "staff \<in> set (order d) \<Longrightarrow> trim_space (ID staff) = ID staff"
    by (auto simp: row_staff_def)
qed

text \<open>
  C28: the fixture. Given rows under the right header, parsing succeeds exactly if there is at least one
  staff row, no id is blank and no two ids agree once trimmed; the directory then lists the rows in file
  order, \<open>Lookup\<close> finds exactly the listed staff by id, and \<open>Granted\<close> is the scopes of that row and
  nothing for anybody else. No row's scopes can shadow another's.
\<close>

theorem Parse_directory:
  assumes "csv_read 3 (csv_lines content) = Some (header # rows)"
    and "lower header = [''id'', ''name'', ''scopes'']"
  shows "((\<exists>d. Parse content = Inr d) \<longleftrightarrow>
      rows \<noteq> [] \<and> (\<forall>row \<in> set rows. trim_space (row ! 0) \<noteq> []) \<and> distinct (map (\<lambda>row. trim_space (row ! 0)) rows))
    \<and> (\<forall>d. Parse content = Inr d \<longrightarrow>
        All d = map row_staff rows
        \<and> (\<forall>sid s. Lookup d sid = Some s \<longleftrightarrow> s \<in> set (All d) \<and> ID s = sid)
        \<and> (\<forall>c sid scopes. Granted d c sid = Inr scopes \<longrightarrow>
            (\<forall>scope. scope \<in> set scopes \<longleftrightarrow> (\<exists>s \<in> set (All d). ID s = sid \<and> scope \<in> set (Scopes s)))))"
proof -
  have ids: "map ID (map row_staff rows) = map (\<lambda>row. trim_space (row ! 0)) rows"
    by (simp add: row_staff_def)
  have empty: "order empty_Directory = []" by (simp add: empty_Directory_def)
  have parse: "Parse content =
      (case parse_rows 0 rows empty_Directory of
         Inl err \<Rightarrow> Inl err
       | Inr d \<Rightarrow> if order d = [] then Inl (PlainError ''contains no staff'') else Inr d)"
    using assms by (simp add: Parse_def)
  show ?thesis
  proof (cases "parse_rows 0 rows empty_Directory")
    case (Inl err)
    then have "\<not> ((\<forall>row \<in> set rows. trim_space (row ! 0) \<noteq> [])
        \<and> distinct (map (\<lambda>row. trim_space (row ! 0)) rows))"
      using parse_rows_result [where d = empty_Directory and i = 0 and rows = rows] empty
      by (simp del: map_map add: Inl ids)
    then show ?thesis by (simp add: parse Inl)
  next
    case (Inr d)
    then have d: "directory_ok d" "order d = map row_staff rows" "\<forall>row \<in> set rows. trim_space (row ! 0) \<noteq> []"
      using parse_rows_result [where d = empty_Directory and i = 0 and rows = rows] empty by auto
    then have "distinct (map (\<lambda>row. trim_space (row ! 0)) rows)"
      unfolding directory_ok_def using ids by metis
    moreover have "Lookup d sid = Some s \<longleftrightarrow> s \<in> set (All d) \<and> ID s = sid" for sid s
      using directory_ok_lookup [OF d(1)] by (simp add: Lookup_def All_def)
    moreover from this have "Granted d c sid = Inr scopes \<Longrightarrow>
        scope \<in> set scopes \<longleftrightarrow> (\<exists>s \<in> set (All d). ID s = sid \<and> scope \<in> set (Scopes s))" for c sid scopes scope
      using staff.granted_iff [of d c sid scopes scope] by (auto simp: staff_holds_def)
    ultimately show ?thesis using d by (auto simp: parse Inr All_def)
  qed
qed

definition example_staff :: string where
  "example_staff = ''# staff'' @ newline @ ''id,name,scopes'' @ newline
     @ ''s-1, '' @ quoted ''`Lee, Ann`'' @ '',quote:generate; quote:read'' @ newline @ ''s-2,Bo,'' @ newline"

lemma example_staff_rows:
  "csv_read 3 (csv_lines example_staff) = Some [[''id'', ''name'', ''scopes''],
     [''s-1'', ''Lee, Ann'', ''quote:generate; quote:read''], [''s-2'', ''Bo'', []]]"
  by code_simp

theorem Parse_directory_witness:
  "\<exists>d. Parse example_staff = Inr d \<and> map Scopes (All d) = [[''quote:generate'', ''quote:read''], []]
     \<and> Lookup d ''s-3'' = None"
proof -
  have h: "lower [''id'', ''name'', ''scopes''] = [''id'', ''name'', ''scopes'']" by code_simp
  have t: "map (\<lambda>row. trim_space (row ! 0)) [[''s-1'', ''Lee, Ann'', ''quote:generate; quote:read''], [''s-2'', ''Bo'', []]]
      = [''s-1'', ''s-2'']" by code_simp
  have sc: "map row_staff [[''s-1'', ''Lee, Ann'', ''quote:generate; quote:read''], [''s-2'', ''Bo'', []]]
      = [\<lparr>ID = ''s-1'', Name = ''Lee, Ann'', Scopes = [''quote:generate'', ''quote:read'']\<rparr>,
         \<lparr>ID = ''s-2'', Name = ''Bo'', Scopes = []\<rparr>]" by code_simp
  note p = Parse_directory [OF example_staff_rows h, unfolded sc t]
  have "\<exists>d. Parse example_staff = Inr d" using p t by simp
  then obtain d where d: "Parse example_staff = Inr d" by blast
  with p have "All d = [\<lparr>ID = ''s-1'', Name = ''Lee, Ann'', Scopes = [''quote:generate'', ''quote:read'']\<rparr>,
         \<lparr>ID = ''s-2'', Name = ''Bo'', Scopes = []\<rparr>]"
    and "\<forall>sid s. Lookup d sid = Some s \<longleftrightarrow> s \<in> set (All d) \<and> ID s = sid"
    by blast+
  moreover from this have "Lookup d ''s-3'' \<noteq> Some s" for s by force
  then have "Lookup d ''s-3'' = None" by (metis not_Some_eq)
  ultimately show ?thesis using d by (intro exI [of _ d]) simp
qed

end
