(* ===== verification/Sessions.thy ===== *)
theory Sessions
  imports Staffdir
begin

text \<open>
  \<open>internal/cqappbff/session.go\<close>: the in-memory session store and the session cookie. What any store of
  this kind promises is the locale \<open>live_store\<close>; its interpretation is the code's store, and the life of
  one session under any sequence of later operations follows from it.
\<close>

section \<open>Session ids\<close>

text \<open>\<open>base64.RawURLEncoding\<close>: four characters for three bytes, no padding.\<close>

definition base64_char :: "nat \<Rightarrow> char" where
  "base64_char n = char_of
     (if n < 26 then 65 + n else if n < 52 then 71 + n else if n < 62 then n - 4 else if n = 62 then 45 else 95)"

fun base64_url :: "string \<Rightarrow> string" where
  "base64_url [] = []"
| "base64_url [a] = [base64_char (byte a div 4), base64_char (byte a mod 4 * 16)]"
| "base64_url [a, b] =
     [base64_char (byte a div 4), base64_char (byte a mod 4 * 16 + byte b div 16),
      base64_char (byte b mod 16 * 4)]"
| "base64_url (a # b # c # s) =
     [base64_char (byte a div 4), base64_char (byte a mod 4 * 16 + byte b div 16),
      base64_char (byte b mod 16 * 4 + byte c div 64), base64_char (byte c mod 64)] @ base64_url s"

definition newSessionID :: "string option \<Rightarrow> go_error + string" where
  "newSessionID random =
     (case random of
        None \<Rightarrow> Inl (WrapError ''generate session id: %w'' [PlainError ''rand''])
      | Some bs \<Rightarrow> Inr (base64_url bs))"

section \<open>The store\<close>

record Session =
  sess_ID :: string
  sess_Staff :: Staff
  ExpiresAt :: instant

record SessionStore =
  st_byID :: "string \<Rightarrow> Session option"
  st_ttl :: duration

definition NewSessionStore :: "duration \<Rightarrow> SessionStore" where
  "NewSessionStore ttl = \<lparr>st_byID = (\<lambda>_. None), st_ttl = ttl\<rparr>"

definition store_put :: "instant \<Rightarrow> string \<Rightarrow> Staff \<Rightarrow> SessionStore \<Rightarrow> SessionStore" where
  "store_put now sid staff st =
     st\<lparr>st_byID := (st_byID st)(sid \<mapsto> \<lparr>sess_ID = sid, sess_Staff = staff, ExpiresAt = now + st_ttl st\<rparr>)\<rparr>"

text \<open>\<open>Create\<close>, \<open>Get\<close> and \<open>Delete\<close>, each under the lock; the random bytes and the clock are arguments.\<close>

definition Create :: "string option \<Rightarrow> instant \<Rightarrow> Staff \<Rightarrow> SessionStore \<Rightarrow> (go_error + Session) \<times> SessionStore" where
  "Create random now staff st =
     (case newSessionID random of
        Inl err \<Rightarrow> (Inl err, st)
      | Inr sid \<Rightarrow>
          (Inr \<lparr>sess_ID = sid, sess_Staff = staff, ExpiresAt = now + st_ttl st\<rparr>, store_put now sid staff st))"

definition Delete :: "string \<Rightarrow> SessionStore \<Rightarrow> SessionStore" where
  "Delete sid st = st\<lparr>st_byID := (st_byID st)(sid := None)\<rparr>"

definition Get :: "instant \<Rightarrow> string \<Rightarrow> SessionStore \<Rightarrow> Session option \<times> SessionStore" where
  "Get now sid st =
     (case st_byID st sid of
        None \<Rightarrow> (None, st)
      | Some sess \<Rightarrow> if \<not> now < ExpiresAt sess then (None, Delete sid st) else (Some sess, st))"

definition Count :: "SessionStore \<Rightarrow> nat" where
  "Count st = card (dom (st_byID st))"

section \<open>The cookie\<close>

definition SessionCookie :: string where "SessionCookie = ''cq_session''"

record CookieOptions =
  co_Secure :: bool
  co_TTL :: duration

record cookie =
  ck_value :: string
  ck_MaxAge :: int
  ck_Secure :: bool

text \<open>\<open>Cookie.String\<close> for the attributes both cookies share: \<open>Path=/\<close>, \<open>HttpOnly\<close>, \<open>SameSite=Lax\<close>.\<close>

definition cookie_text :: "cookie \<Rightarrow> string" where
  "cookie_text ck =
     SessionCookie @ ''='' @ ck_value ck @ ''; Path=/''
     @ (if ck_MaxAge ck > 0 then ''; Max-Age='' @ itoa (ck_MaxAge ck) else if ck_MaxAge ck < 0 then ''; Max-Age=0'' else [])
     @ ''; HttpOnly'' @ (if ck_Secure ck then ''; Secure'' else []) @ ''; SameSite=Lax''"

definition session_cookie :: "string \<Rightarrow> CookieOptions \<Rightarrow> cookie" where
  "session_cookie sid opts = \<lparr>ck_value = sid, ck_MaxAge = whole_seconds (co_TTL opts), ck_Secure = co_Secure opts\<rparr>"

definition clear_cookie :: "CookieOptions \<Rightarrow> cookie" where
  "clear_cookie opts = \<lparr>ck_value = [], ck_MaxAge = -1, ck_Secure = co_Secure opts\<rparr>"

definition set_cookie :: "cookie \<Rightarrow> response \<Rightarrow> response" where
  "set_cookie ck resp = resp\<lparr>resp_headers := (''Set-Cookie'', cookie_text ck) # resp_headers resp\<rparr>"

section \<open>Ids do not collide\<close>

definition base64_digit :: "char \<Rightarrow> nat" where
  "base64_digit c =
     (if is_upper c then byte c - 65 else if is_lower c then byte c - 71 else if is_digit c then byte c + 4
      else if byte c = 45 then 62 else 63)"

lemma base64_digit_char: "n < 64 \<Longrightarrow> base64_digit (base64_char n) = n"
proof -
  have b: "byte (base64_char k) =
      (if k < 26 then 65 + k else if k < 52 then 71 + k else if k < 62 then k - 4 else if k = 62 then 45 else 95)"
    if "k < 64" for k
    using that by (simp add: base64_char_def byte_def)
  assume "n < 64"
  then consider "n < 26" | "26 \<le> n" "n < 52" | "52 \<le> n" "n < 62" | "n = 62" | "n = 63" by linarith
  then show ?thesis
    by cases (auto simp: base64_digit_def is_upper_def is_lower_def is_digit_def b b [of 62, simplified] b [of 63, simplified])
qed

lemma base64_char_inj: "m < 64 \<Longrightarrow> n < 64 \<Longrightarrow> base64_char m = base64_char n \<longleftrightarrow> m = n"
  using base64_digit_char by metis

lemma byte_eq: "byte a = byte b \<longleftrightarrow> a = b"
  by (simp add: byte_def)

lemma split_eq: "(a :: nat) div k = b div k \<Longrightarrow> a mod k = b mod k \<Longrightarrow> a = b"
  by (metis div_mult_mod_eq)

lemma digit_pair: "x < k \<Longrightarrow> y < k \<Longrightarrow> m * k + x = n * k + y \<Longrightarrow> m = n \<and> x = (y :: nat)"
proof -
  assume a: "x < k" "y < k" "m * k + x = n * k + y"
  then have "(m * k + x) div k = (n * k + y) div k" by simp
  then have "m = n" using a(1,2) by simp
  then show ?thesis using a(3) by simp
qed

text \<open>Three bytes can be read back from their four digits.\<close>

lemma sextets_inj:
  assumes "a < 256" "b < 256" "c < 256" "a' < 256" "b' < 256" "c' < (256 :: nat)"
    and "a div 4 = a' div 4" "a mod 4 * 16 + b div 16 = a' mod 4 * 16 + b' div 16"
    and "b mod 16 * 4 + c div 64 = b' mod 16 * 4 + c' div 64" "c mod 64 = c' mod 64"
  shows "a = a' \<and> b = b' \<and> c = c'"
proof -
  have lt: "b div 16 < 16" "b' div 16 < 16" "c div 64 < 4" "c' div 64 < 4" using assms(2,3,5,6) by simp_all
  have "a mod 4 = a' mod 4" "b div 16 = b' div 16" using digit_pair [OF lt(1,2) assms(8)] by simp_all
  moreover have "b mod 16 = b' mod 16" "c div 64 = c' div 64" using digit_pair [OF lt(3,4) assms(9)] by simp_all
  ultimately show ?thesis using assms(7,10) split_eq by blast
qed

lemma sextet_less:
  "byte a div 4 < 64" "byte a mod 4 * 16 + byte b div 16 < 64" "byte b mod 16 * 4 + byte c div 64 < 64"
  "byte c mod 64 < 64" "byte a mod 4 * 16 < 64" "byte b mod 16 * 4 < 64"
  using byte_less_256 [of a] byte_less_256 [of b] byte_less_256 [of c] by linarith+

lemma base64_url_inj: "length s = length t \<Longrightarrow> base64_url s = base64_url t \<Longrightarrow> s = t"
proof (induction s arbitrary: t rule: base64_url.induct)
  case 1
  then show ?case by simp
next
  case (2 a)
  then obtain a' where t: "t = [a']" by (cases t) auto
  then show ?case
    using 2 sextets_inj [of "byte a" 0 0 "byte a'" 0 0]
    by (simp add: base64_char_inj sextet_less byte_eq)
next
  case (3 a b)
  then obtain a' b' where t: "t = [a', b']" by (cases t rule: base64_url.cases) auto
  then show ?case
    using 3 sextets_inj [of "byte a" "byte b" 0 "byte a'" "byte b'" 0]
    by (simp add: base64_char_inj sextet_less byte_eq)
next
  case (4 a b c s)
  then obtain a' b' c' t' where t: "t = a' # b' # c' # t'" "length s = length t'"
    by (cases t rule: base64_url.cases) auto
  then show ?case
    using 4 sextets_inj [of "byte a" "byte b" "byte c" "byte a'" "byte b'" "byte c'"]
    by (simp add: base64_char_inj sextet_less byte_eq)
qed

lemma newSessionID_inj:
  "newSessionID (Some x) = newSessionID (Some y) \<Longrightarrow> length x = length y \<Longrightarrow> x = y"
  using base64_url_inj by (simp add: newSessionID_def)

section \<open>What a store of live values promises\<close>

text \<open>
  \<open>live s t k\<close> is the value that key \<open>k\<close> has at time \<open>t\<close>. Reading tells it and never adds to it, and
  takes nothing away that is still alive; removing takes away one key; adding sets one key.
\<close>

datatype 'a store_op = OpGet instant string | OpPut instant string 'a | OpRemove string

locale live_store =
  fixes live :: "'s \<Rightarrow> instant \<Rightarrow> string \<Rightarrow> 'v option"
    and get :: "instant \<Rightarrow> string \<Rightarrow> 's \<Rightarrow> 'v option \<times> 's"
    and put :: "instant \<Rightarrow> string \<Rightarrow> 'a \<Rightarrow> 's \<Rightarrow> 's"
    and remove :: "string \<Rightarrow> 's \<Rightarrow> 's"
  assumes get_live: "fst (get now k s) = live s now k"
    and get_adds_nothing: "live s t x = None \<Longrightarrow> live (snd (get now k s)) t x = None"
    and get_keeps: "now \<le> t \<Longrightarrow> live (snd (get now k s)) t x = live s t x"
    and remove_live: "live (remove k s) t = (live s t)(k := None)"
    and put_other: "x \<noteq> k \<Longrightarrow> live (put now k a s) t x = live s t x"
begin

primrec apply_op :: "'a store_op \<Rightarrow> 's \<Rightarrow> 's" where
  "apply_op (OpGet now k) s = snd (get now k s)"
| "apply_op (OpPut now k a) s = put now k a s"
| "apply_op (OpRemove k) s = remove k s"

definition puts :: "string \<Rightarrow> 'a store_op \<Rightarrow> bool" where
  "puts k op \<longleftrightarrow> (\<exists>now a. op = OpPut now k a)"

definition reads_by :: "instant \<Rightarrow> 'a store_op \<Rightarrow> bool" where
  "reads_by t op \<longleftrightarrow> (\<forall>now k. op = OpGet now k \<longrightarrow> now \<le> t)"

lemma apply_op_gone: "live s t k = None \<Longrightarrow> \<not> puts k op \<Longrightarrow> live (apply_op op s) t k = None"
  by (cases op) (auto simp: get_adds_nothing remove_live puts_def put_other)

lemma gone_stays_gone:
  "live s t k = None \<Longrightarrow> list_all (\<lambda>op. \<not> puts k op) ops \<Longrightarrow> live (fold apply_op ops s) t k = None"
  by (induction ops arbitrary: s) (simp_all add: apply_op_gone)

lemma removed_stays_gone:
  "OpRemove k \<in> set ops \<Longrightarrow> list_all (\<lambda>op. \<not> puts k op) ops \<Longrightarrow> live (fold apply_op ops s) t k = None"
proof (induction ops arbitrary: s)
  case Nil
  then show ?case by simp
next
  case (Cons op ops)
  then show ?case
    using gone_stays_gone [of "remove k s" t k ops] by (cases "op = OpRemove k") (auto simp: remove_live)
qed

lemma apply_op_kept:
  "op \<noteq> OpRemove k \<Longrightarrow> \<not> puts k op \<Longrightarrow> reads_by t op \<Longrightarrow> live (apply_op op s) t k = live s t k"
  by (cases op) (auto simp: get_keeps remove_live puts_def put_other reads_by_def)

lemma kept:
  "OpRemove k \<notin> set ops \<Longrightarrow> list_all (\<lambda>op. \<not> puts k op) ops \<Longrightarrow> list_all (reads_by t) ops
    \<Longrightarrow> live (fold apply_op ops s) t k = live s t k"
  by (induction ops arbitrary: s) (auto simp: apply_op_kept)

end

section \<open>The code's store is one\<close>

definition store_live :: "SessionStore \<Rightarrow> instant \<Rightarrow> string \<Rightarrow> Session option" where
  "store_live st t k =
     (case st_byID st k of None \<Rightarrow> None | Some sess \<Rightarrow> if t < ExpiresAt sess then Some sess else None)"

interpretation sessions: live_store store_live Get store_put Delete
  by unfold_locales
    (auto simp: store_live_def Get_def store_put_def Delete_def fun_eq_iff split: option.splits if_splits)

definition store_ok :: "SessionStore \<Rightarrow> bool" where
  "store_ok st \<longleftrightarrow> (\<forall>k sess. st_byID st k = Some sess \<longrightarrow> sess_ID sess = k)"

lemma store_ok_ops [simp]:
  "store_ok (NewSessionStore ttl)"
  "store_ok st \<Longrightarrow> store_ok (store_put now k staff st)"
  "store_ok st \<Longrightarrow> store_ok (Delete k st)"
  "store_ok st \<Longrightarrow> store_ok (snd (Get now k st))"
  "store_ok st \<Longrightarrow> store_ok (snd (Create random now staff st))"
  by (auto simp: store_ok_def NewSessionStore_def store_put_def Delete_def Get_def Create_def
      split: option.split sum.split)

section \<open>Properties\<close>

text \<open>
  C19: the life of a session. From its creation on, whatever other sessions are created, read and removed
  in between, its id is good exactly until its time to live is over or it is deleted: then reading it
  gives the same session, afterwards the same nothing as an id that never was.
\<close>

theorem session_lifecycle:
  assumes "Create random now staff st = (Inr sess, st1)"
    and "list_all (\<lambda>op. \<not> sessions.puts (sess_ID sess) op) ops" "list_all (sessions.reads_by t) ops"
  shows "fst (Get t (sess_ID sess) (fold sessions.apply_op ops st1)) =
    (if t < now + st_ttl st \<and> OpRemove (sess_ID sess) \<notin> set ops then Some sess else None)
    \<and> sess_Staff sess = staff"
proof -
  have st1: "st1 = store_put now (sess_ID sess) staff st" and s: "sess_Staff sess = staff"
    "ExpiresAt sess = now + st_ttl st" "st_byID st1 (sess_ID sess) = Some sess"
    using assms(1) by (auto simp: Create_def store_put_def split: sum.splits)
  then have "store_live st1 t (sess_ID sess) = (if t < now + st_ttl st then Some sess else None)"
    by (simp add: store_live_def)
  then show ?thesis
    using sessions.removed_stays_gone [OF _ assms(2)] sessions.kept [OF _ assms(2,3)] s(1)
    by (cases "OpRemove (sess_ID sess) \<in> set ops") (simp_all add: sessions.get_live)
qed

definition example_staff_member :: Staff where
  "example_staff_member = \<lparr>ID = ''s-1'', Name = ''Ann'', Scopes = [''quote:generate'']\<rparr>"

theorem session_lifecycle_witness:
  "\<exists>sess st1. Create (Some (replicate 32 CHR ''A'')) 0 example_staff_member (NewSessionStore 10) = (Inr sess, st1)
     \<and> fst (Get 9 (sess_ID sess) (snd (Get 5 ''other'' st1))) = Some sess
     \<and> fst (Get 9 (sess_ID sess) (Delete (sess_ID sess) st1)) = None"
proof -
  let ?c = "Create (Some (replicate 32 CHR ''A'')) 0 example_staff_member (NewSessionStore 10)"
  obtain sess st1 where c: "?c = (Inr sess, st1)" by (simp add: Create_def newSessionID_def)
  have ttl: "st_ttl (NewSessionStore 10) = 10" by (simp add: NewSessionStore_def)
  have "fst (Get 9 (sess_ID sess) (fold sessions.apply_op [OpGet 5 ''other''] st1)) = Some sess"
    using session_lifecycle [OF c, of "[OpGet 5 ''other'']" 9]
    by (simp add: sessions.puts_def sessions.reads_by_def ttl)
  moreover have "fst (Get 9 (sess_ID sess) (fold sessions.apply_op [OpRemove (sess_ID sess)] st1)) = None"
    using session_lifecycle [OF c, of "[OpRemove (sess_ID sess)]" 9]
    by (simp add: sessions.puts_def sessions.reads_by_def)
  ultimately show ?thesis using c by auto
qed

end
