(* ===== verification/Signin.thy ===== *)
theory Signin
  imports Sessions
begin

text \<open>
  \<open>internal/cqappbff/auth.go\<close>: the credentials file and the authentication of a staff member against it.
  \<open>golang.org/x/crypto/bcrypt\<close> is not part of the repository: it is the parameter \<open>bcrypt\<close>. The hashes
  handed to it are part of the result, because the code promises that every attempt costs one comparison.
  Error texts leave out the \<open>%q\<close> renderings.
\<close>

section \<open>Credentials\<close>

text \<open>\<open>CompareHashAndPassword\<close> without an error, and \<open>Cost\<close> without an error.\<close>

record bcrypt =
  bc_matches :: "string \<Rightarrow> string \<Rightarrow> bool"
  bc_is_hash :: "string \<Rightarrow> bool"

definition ErrInvalidCredentials :: go_error where
  "ErrInvalidCredentials = PlainError ''invalid credentials''"

definition dummyHash :: string where
  "dummyHash = ''$2a$10$N9qo8uLOickgx2ZMRZoMyeIjZAgcfl7p92ldGxad68LJZdL17lhWy''"

text \<open>The map from ids to hashes, as the list of its entries in file order.\<close>

type_synonym hashes = "(string \<times> string) list"

record FixtureAuth =
  fa_staff :: Directory
  fa_hash :: hashes

definition lowerAll :: "string list \<Rightarrow> string list" where
  "lowerAll ss = map (\<lambda>s. to_lower (trim_space s)) ss"

fun credential_rows :: "bcrypt \<Rightarrow> nat \<Rightarrow> string list list \<Rightarrow> hashes \<Rightarrow> go_error + hashes" where
  "credential_rows bc i [] out = Inr out"
| "credential_rows bc i (row # rows) out =
     (let sid = trim_space (row ! 0); hash = trim_space (row ! 1) in
      if sid = [] then Inl (line_error i ''id is required'')
      else if map_of out sid \<noteq> None then Inl (line_error i ''duplicate id'')
      else if \<not> bc_is_hash bc hash then Inl (line_error i ''not a bcrypt hash'')
      else credential_rows bc (Suc i) rows (out @ [(sid, hash)]))"

definition parseCredentials :: "bcrypt \<Rightarrow> string \<Rightarrow> go_error + hashes" where
  "parseCredentials bc content =
     (case csv_read 2 (csv_lines content) of
        None \<Rightarrow> Inl (WrapError ''read csv: %w'' [PlainError ''csv''])
      | Some [] \<Rightarrow> Inl (PlainError ''is empty'')
      | Some (header # rows) \<Rightarrow>
          if lowerAll header \<noteq> [''id'', ''passwordhash'']
          then Inl (PlainError ''header must be [id passwordhash]'')
          else (case credential_rows bc 0 rows [] of
              Inl err \<Rightarrow> Inl err
            | Inr out \<Rightarrow> if out = [] then Inl (PlainError ''contains no credentials'') else Inr out))"

text \<open>
  The file, or the error of opening it. Go visits a map's keys in no fixed order, so which of several
  unknown ids is named is not determined; that one is, is.
\<close>

definition NewFixtureAuth :: "bcrypt \<Rightarrow> Directory \<Rightarrow> go_error + string \<Rightarrow> go_error + FixtureAuth" where
  "NewFixtureAuth bc staff file =
     (case file of
        Inl err \<Rightarrow> Inl (WrapError ''open credentials: %w (set CREDENTIALS_FILE to point at it)'' [err])
      | Inr content \<Rightarrow>
          (case parseCredentials bc content of
             Inl err \<Rightarrow> Inl (WrapError ''credentials: %w'' [err])
           | Inr hash \<Rightarrow>
               if list_ex (\<lambda>(sid, _). Lookup staff sid = None) hash
               then Inl (PlainError ''credential is not in the staff directory'')
               else Inr \<lparr>fa_staff = staff, fa_hash = hash\<rparr>))"

section \<open>Authentication\<close>

definition Authenticate_staff :: "bcrypt \<Rightarrow> FixtureAuth \<Rightarrow> string \<Rightarrow> string \<Rightarrow> (go_error + Staff) \<times> string list" where
  "Authenticate_staff bc a staffID password =
     (let known = Lookup (fa_staff a) staffID in
      case map_of (fa_hash a) staffID of
        None \<Rightarrow> (Inl ErrInvalidCredentials, [dummyHash])
      | Some stored \<Rightarrow>
          (if \<not> bc_matches bc stored password then (Inl ErrInvalidCredentials, [stored])
           else (case known of
               None \<Rightarrow> (Inl ErrInvalidCredentials, [stored])
             | Some staff \<Rightarrow> (Inr staff, [stored]))))"

section \<open>Lemmas\<close>

text \<open>What the credentials file means: its rows, trimmed.\<close>

definition row_credential :: "string list \<Rightarrow> string \<times> string" where
  "row_credential row = (trim_space (row ! 0), trim_space (row ! 1))"

definition credentials_ok :: "bcrypt \<Rightarrow> hashes \<Rightarrow> bool" where
  "credentials_ok bc hs \<longleftrightarrow> distinct (map fst hs) \<and> (\<forall>(sid, hash) \<in> set hs. sid \<noteq> [] \<and> bc_is_hash bc hash)"

lemma credential_rows_iff:
  "credentials_ok bc out \<Longrightarrow>
    (case credential_rows bc i rows out of
       Inr hs \<Rightarrow> hs = out @ map row_credential rows \<and> credentials_ok bc hs
     | Inl _ \<Rightarrow> \<not> credentials_ok bc (out @ map row_credential rows))"
proof (induction bc i rows out rule: credential_rows.induct)
  case (1 bc i out)
  then show ?case by simp
next
  case (2 bc i row rows out)
  let ?c = "row_credential row"
  have c: "?c = (trim_space (row ! 0), trim_space (row ! 1))" by (simp add: row_credential_def)
  show ?case
  proof (cases "credentials_ok bc (out @ [?c])")
    case True
    then have fresh: "trim_space (row ! 0) \<noteq> []" "map_of out (trim_space (row ! 0)) = None"
      "bc_is_hash bc (trim_space (row ! 1))"
      by (auto simp: credentials_ok_def c map_of_eq_None_iff)
    then have "credential_rows bc i (row # rows) out = credential_rows bc (Suc i) rows (out @ [?c])"
      by (simp add: Let_def c)
    then show ?thesis
      using 2(1) [OF refl refl] fresh True by (auto simp: c split: sum.splits)
  next
    case False
    then have "trim_space (row ! 0) = [] \<or> map_of out (trim_space (row ! 0)) \<noteq> None
        \<or> \<not> bc_is_hash bc (trim_space (row ! 1))"
      using "2.prems" by (auto simp: credentials_ok_def c map_of_eq_None_iff)
    then have "\<exists>err. credential_rows bc i (row # rows) out = Inl err" by (auto simp: Let_def)
    moreover have "\<not> credentials_ok bc (out @ map row_credential (row # rows))"
      using False by (auto simp: credentials_ok_def)
    ultimately show ?thesis by auto
  qed
qed

lemma NewFixtureAuth_ok:
  assumes "NewFixtureAuth bc staff file = Inr a"
  shows "fa_staff a = staff" "credentials_ok bc (fa_hash a)" "(sid, hash) \<in> set (fa_hash a) \<Longrightarrow> Lookup staff sid \<noteq> None"
proof -
  obtain content where p: "parseCredentials bc content = Inr (fa_hash a)" "fa_staff a = staff"
    and l: "\<not> list_ex (\<lambda>(sid, _). Lookup staff sid = None) (fa_hash a)"
    using assms by (auto simp: NewFixtureAuth_def split: sum.splits if_splits)
  then show "fa_staff a = staff" by simp
  show "(sid, hash) \<in> set (fa_hash a) \<Longrightarrow> Lookup staff sid \<noteq> None"
    using l by (auto simp: list_ex_iff)
  obtain rows where c: "credential_rows bc 0 rows [] = Inr (fa_hash a)"
    using p(1) by (auto simp: parseCredentials_def split: option.splits list.splits sum.splits if_splits)
  have "credentials_ok bc []" by (simp add: credentials_ok_def)
  then show "credentials_ok bc (fa_hash a)"
    using credential_rows_iff [where out = "[]" and i = 0 and rows = rows and bc = bc] unfolding c sum.case by blast
qed

section \<open>Properties\<close>

text \<open>
  C27: signing in. With credentials that passed the startup checks, an attempt succeeds exactly if the id
  has a credential whose hash the password matches, and then yields the staff member of that id; every
  failure is one and the same error; and every attempt, for known and unknown ids alike, is exactly one
  bcrypt comparison.
\<close>

theorem sign_in_authenticates:
  assumes "NewFixtureAuth bc staff file = Inr a"
  shows "(\<exists>s. fst (Authenticate_staff bc a sid password) = Inr s)
      = (\<exists>hash. map_of (fa_hash a) sid = Some hash \<and> bc_matches bc hash password)
    \<and> (\<forall>s. fst (Authenticate_staff bc a sid password) = Inr s \<longrightarrow> Lookup staff sid = Some s)
    \<and> (\<forall>err. fst (Authenticate_staff bc a sid password) = Inl err \<longrightarrow> err = ErrInvalidCredentials)
    \<and> length (snd (Authenticate_staff bc a sid password)) = 1"
proof (cases "map_of (fa_hash a) sid")
  case None
  then show ?thesis by (simp add: Authenticate_staff_def)
next
  case (Some hash)
  then obtain s where "Lookup (fa_staff a) sid = Some s"
    using NewFixtureAuth_ok [OF assms] map_of_SomeD by fastforce
  then show ?thesis using Some NewFixtureAuth_ok(1) [OF assms] by (simp add: Authenticate_staff_def)
qed

definition example_bcrypt :: bcrypt where
  "example_bcrypt = \<lparr>bc_matches = (\<lambda>hash password. hash = ''$2a$'' @ password), bc_is_hash = (\<lambda>h. take 4 h = ''$2a$'')\<rparr>"

definition example_credentials :: string where
  "example_credentials = ''id,passwordHash'' @ newline @ ''s-1, $2a$secret'' @ newline"

definition example_directory :: Directory where
  "example_directory = \<lparr>byID = map_of [(''s-1'', example_staff_member)], order = [example_staff_member]\<rparr>"

lemma example_fixture:
  "NewFixtureAuth example_bcrypt example_directory (Inr example_credentials)
     = Inr \<lparr>fa_staff = example_directory, fa_hash = [(''s-1'', ''$2a$secret'')]\<rparr>"
proof -
  have "csv_read 2 (csv_lines example_credentials) = Some [[''id'', ''passwordHash''], [''s-1'', ''$2a$secret'']]"
    by code_simp
  moreover have "lowerAll [''id'', ''passwordHash''] = [''id'', ''passwordhash'']" by code_simp
  moreover have "trim_space ''s-1'' = ''s-1''" "trim_space ''$2a$secret'' = ''$2a$secret''" by code_simp+
  ultimately show ?thesis
    by (simp add: NewFixtureAuth_def parseCredentials_def example_bcrypt_def example_directory_def Lookup_def)
qed

theorem sign_in_authenticates_witness:
  "\<exists>a. NewFixtureAuth example_bcrypt example_directory (Inr example_credentials) = Inr a
     \<and> fst (Authenticate_staff example_bcrypt a ''s-1'' ''secret'') = Inr example_staff_member
     \<and> fst (Authenticate_staff example_bcrypt a ''s-2'' ''secret'') = Inl ErrInvalidCredentials
     \<and> length (snd (Authenticate_staff example_bcrypt a ''s-2'' ''secret'')) = 1"
proof -
  let ?a = "\<lparr>fa_staff = example_directory, fa_hash = [(''s-1'', ''$2a$secret'')]\<rparr>"
  note p = sign_in_authenticates [OF example_fixture]
  obtain s where s: "fst (Authenticate_staff example_bcrypt ?a ''s-1'' ''secret'') = Inr s"
    using p [of "''s-1''" "''secret''"] by (auto simp: example_bcrypt_def)
  then have "s = example_staff_member"
    using p [of "''s-1''" "''secret''"] by (auto simp: example_directory_def Lookup_def)
  moreover have "fst (Authenticate_staff example_bcrypt ?a ''s-2'' ''secret'') \<noteq> Inr x" for x
    using p [of "''s-2''" "''secret''"] by auto
  then obtain err where "fst (Authenticate_staff example_bcrypt ?a ''s-2'' ''secret'') = Inl err"
    by (cases "fst (Authenticate_staff example_bcrypt ?a ''s-2'' ''secret'')") auto
  ultimately show ?thesis using example_fixture s p [of "''s-2''" "''secret''"] by auto
qed

end
