(* ===== verification/Wire.thy ===== *)
theory Wire
  imports Money GoJson
begin

text \<open>
  What one service writes the other reads: objects printed by \<^const>\<open>json_object\<close> from plain strings,
  integers and decimals are decoded to exactly the members they were built from. The lemmas walk the
  scanner over each kind of value once; the services' encoders and decoders rest on the last one.
\<close>

section \<open>Plain strings\<close>

text \<open>Printable ASCII that the encoder leaves as it is.\<close>

definition plain_char :: "char \<Rightarrow> bool" where
  "plain_char c \<longleftrightarrow> 32 \<le> byte c \<and> byte c < 127 \<and> byte c \<notin> {34, 92, 60, 62, 38}"

definition plain :: "string \<Rightarrow> bool" where
  "plain s \<longleftrightarrow> list_all plain_char s"

lemma plain_simps [simp]: "plain []" "plain (c # s) \<longleftrightarrow> plain_char c \<and> plain s"
  by (simp_all add: plain_def)

lemma escape_plain: "plain s \<Longrightarrow> escape s = s"
proof (induction s)
  case Nil
  then show ?case by (simp add: escape.simps [of "[]"])
next
  case (Cons c s)
  then show ?case
    by (simp add: escape.simps [of "c # s"] escape_byte_def plain_char_def Let_def)
qed

lemma unescape_plain: "plain s \<Longrightarrow> unescape s = s"
proof (induction s)
  case Nil
  then show ?case by (simp add: unescape.simps [of "[]"])
next
  case (Cons c s)
  then show ?case by (simp add: unescape.simps [of "c # s"] plain_char_def)
qed

lemma unquote_json_string: "plain s \<Longrightarrow> unquote (json_string s) = s"
  by (simp add: unquote_def json_string_def escape_plain unescape_plain)

lemma byte_quote: "byte (char_of (34 :: nat)) = 34"
  by (simp add: byte_def)

lemma quote_char: "char_of (34 :: nat) = CHR 0x22"
  by code_simp

lemma begin_quote: "begin_value d [] (char_of (34 :: nat)) = Goto InString []"
  unfolding quote_char by (simp add: begin_value_def json_space_def byte_def)

lemma scan_string_body:
  "plain s \<Longrightarrow> scan_bytes d InString [] (s @ char_of (34 :: nat) # r) = Some (s @ [char_of (34 :: nat)], r)"
  by (induction s) (simp_all add: byte_quote value_done_def plain_char_def)

lemma take_json_string:
  "plain s \<Longrightarrow> take_value d (json_string s @ r) = Some (json_string s, r)"
  by (simp add: take_value_def json_string_def escape_plain begin_quote scan_string_body)

section \<open>Numbers\<close>

definition ends_member :: "char \<Rightarrow> bool" where
  "ends_member c \<longleftrightarrow> c = CHR '','' \<or> c = CHR ''}''"

lemma ends_member_not: "ends_member c \<Longrightarrow> \<not> is_digit c \<and> c \<noteq> CHR ''.'' \<and> c \<noteq> CHR ''e'' \<and> c \<noteq> CHR ''E''"
  by (auto simp: ends_member_def char_class_defs)

lemma scan_digits:
  "digits_only ds \<Longrightarrow> ends_member c \<Longrightarrow> scan_bytes d Digits [] (ds @ c # r) = Some (ds, c # r)"
  using ends_member_not [of c] by (induction ds) (auto simp: number_end_def)

lemma scan_fraction:
  "digits_only ds \<Longrightarrow> ends_member c \<Longrightarrow> scan_bytes d FracDigits [] (ds @ c # r) = Some (ds, c # r)"
  using ends_member_not [of c] by (induction ds) auto

lemma scan_decimal:
  "digits_only ds \<Longrightarrow> digits_only fs \<Longrightarrow> fs \<noteq> [] \<Longrightarrow> ends_member c
    \<Longrightarrow> scan_bytes d Digits [] (ds @ CHR ''.'' # fs @ c # r) = Some (ds @ CHR ''.'' # fs, c # r)"
proof (induction ds)
  case Nil
  then obtain f fs' where "fs = f # fs'" "is_digit f" "digits_only fs'" by (cases fs) auto
  then show ?case
    using Nil scan_fraction [of fs' c d r] by (simp add: number_end_def is_digit_def byte_def)
next
  case (Cons x ds)
  then show ?case by simp
qed

lemma dec_digits_hd: "0 < n \<Longrightarrow> \<exists>x ds. dec_digits n = x # ds \<and> x \<noteq> CHR ''0'' \<and> is_digit x \<and> digits_only ds"
proof (induction n rule: dec_digits.induct)
  case (1 n)
  show ?case
  proof (cases "n < 10")
    case True
    then have "byte (digit_char n) \<noteq> 48" using "1.prems" by (simp add: byte_digit_char)
    then have "digit_char n \<noteq> CHR ''0''" by (auto simp: byte_def)
    then show ?thesis using True by (subst dec_digits.simps) simp
  next
    case False
    then obtain x ds where "dec_digits (n div 10) = x # ds" "x \<noteq> CHR ''0''" "is_digit x" "digits_only ds"
      using "1.IH" by fastforce
    then show ?thesis using False by (subst dec_digits.simps) simp
  qed
qed

lemma not_digit_chars:
  "\<not> is_digit CHR ''{''" "\<not> is_digit CHR ''[''" "\<not> is_digit CHR ''-''" "\<not> is_digit CHR ''t''"
  "\<not> is_digit CHR ''f''" "\<not> is_digit CHR ''n''"
  by code_simp+

lemma begin_digit:
  assumes "is_digit x" "x \<noteq> CHR ''0''"
  shows "begin_value d [] x = Goto Digits []"
proof -
  have "\<not> json_space x" "byte x \<noteq> 34" using assms(1) by (auto simp: json_space_def is_digit_def)
  then show ?thesis
    using assms not_digit_chars [THEN is_digit_neq [OF assms(1)]] by (simp add: begin_value_def)
qed

lemma begin_zero [simp]: "begin_value d [] CHR ''0'' = Goto Zero []"
  by (simp add: begin_value_def json_space_def byte_def)

text \<open>Integers and decimals that are not negative, as a member value.\<close>

lemma take_itoa:
  assumes "0 < m" "ends_member c"
  shows "take_value d (itoa m @ c # r) = Some (itoa m, c # r)"
proof -
  obtain x ds where x: "dec_digits (nat m) = x # ds" "x \<noteq> CHR ''0''" "is_digit x" "digits_only ds"
    using dec_digits_hd [of "nat m"] assms(1) by auto
  then show ?thesis
    using assms scan_digits [of ds c d r] by (simp add: take_value_def itoa_def begin_digit)
qed

lemma take_decimal_text:
  assumes "0 \<le> n" "0 < p" "ends_member c"
  shows "take_value d (decimal_text n p @ c # r) = Some (decimal_text n p, c # r)"
proof -
  let ?w = "nat n div 10 ^ p"
  let ?fs = "zero_pad p (dec_digits (nat n mod 10 ^ p))"
  have tx: "decimal_text n p = dec_digits ?w @ CHR ''.'' # ?fs"
    using assms(1) by (simp add: decimal_text_def)
  have fs: "digits_only ?fs" "?fs \<noteq> []" using assms(2)
    by (simp_all only: digits_only_zero_pad digits_only_dec_digits) (simp add: zero_pad_def)
  show ?thesis
  proof (cases "?w = 0")
    case True
    have "dec_digits 0 = [CHR ''0'']" by code_simp
    moreover obtain f fs' where "?fs = f # fs'" "is_digit f" "digits_only fs'" using fs by (cases ?fs) auto
    ultimately show ?thesis
      using True scan_fraction [of fs' c d r] assms(3)
      by (simp add: tx take_value_def number_end_def)
  next
    case False
    then obtain x ds where "dec_digits ?w = x # ds" "x \<noteq> CHR ''0''" "is_digit x" "digits_only ds"
      using dec_digits_hd [of ?w] by auto
    then show ?thesis
      using scan_decimal [OF _ fs assms(3), of ds d r] by (simp add: tx take_value_def begin_digit)
  qed
qed

section \<open>Objects\<close>

text \<open>
  A raw value that the scanner takes whole when a member ends after it, if ten levels of nesting are left:
  more than any message of the services has.
\<close>

definition member_value :: "string \<Rightarrow> bool" where
  "member_value v \<longleftrightarrow> skip_space v = v \<and> v \<noteq> []
     \<and> (\<forall>d c r. 10 \<le> d \<longrightarrow> ends_member c \<longrightarrow> take_value d (v @ c # r) = Some (v, c # r))"

lemma skip_space_plain: "\<not> json_space c \<Longrightarrow> skip_space (c # s) = c # s"
  by (simp add: skip_space_def)

lemma digit_not_space: "is_digit c \<Longrightarrow> \<not> json_space c"
  by (auto simp: json_space_def is_digit_def)

lemma quote_not_space [simp]: "\<not> json_space (char_of (34 :: nat))"
  by (simp add: json_space_def byte_quote)

lemma member_value_string: "plain s \<Longrightarrow> member_value (json_string s)"
  using take_json_string by (simp add: member_value_def json_string_def skip_space_plain)

lemma member_value_itoa: "0 < m \<Longrightarrow> member_value (itoa m)"
  using take_itoa [of m] dec_digits_hd [of "nat m"]
  by (auto simp: member_value_def itoa_def skip_space_plain digit_not_space)

lemma member_value_decimal:
  assumes "0 \<le> n" "0 < p"
  shows "member_value (decimal_text n p)"
proof -
  obtain x ds where "dec_digits (nat n div 10 ^ p) = x # ds" "is_digit x"
    using digits_only_dec_digits [of "nat n div 10 ^ p"] by (cases "dec_digits (nat n div 10 ^ p)") auto
  then show ?thesis
    using take_decimal_text [OF assms] assms(1)
    by (auto simp: member_value_def decimal_text_def skip_space_plain digit_not_space)
qed

lemma skip_space_stays:
  assumes "skip_space v = v" "v \<noteq> []"
  shows "skip_space (v @ s) = v @ s"
proof -
  obtain a b where v: "v = a # b" using assms(2) by (cases v) auto
  have "\<not> json_space a"
  proof
    assume "json_space a"
    then have "skip_space v = skip_space b" by (simp add: v skip_space_def)
    then show False using assms(1) skip_space_length [of b] by (simp add: v)
  qed
  then show ?thesis by (simp add: v skip_space_plain)
qed

lemma take_member_plain:
  assumes "plain k" "member_value v" "ends_member c" "10 \<le> d"
  shows "take_member d (json_string k @ CHR '':'' # v @ c # r) = Some ((json_string k, v), c # r)"
proof -
  have "skip_space (v @ c # r) = v @ c # r"
    using assms(2) skip_space_stays by (simp add: member_value_def)
  moreover have "\<not> json_space CHR '':''" by (simp add: json_space_def byte_def)
  ultimately show ?thesis
    using assms take_json_string [OF assms(1), of d "CHR '':'' # v @ c # r"]
    by (simp add: take_member_def member_value_def skip_space_plain)
       (simp add: json_string_def byte_quote)
qed

text \<open>The members of a printed object, from its first key on.\<close>

definition member_text :: "string \<times> string \<Rightarrow> string" where
  "member_text m = json_string (fst m) @ CHR '':'' # snd m"

definition good_member :: "string \<times> string \<Rightarrow> bool" where
  "good_member m \<longleftrightarrow> plain (fst m) \<and> member_value (snd m)"

lemma json_object_text: "json_object ms = ''{'' @ join_with '','' (map member_text ms) @ ''}''"
  by (simp add: json_object_def member_text_def split_def cong: map_cong)

lemma member_text_start: "skip_space (member_text m @ s) = member_text m @ s"
  by (simp add: member_text_def json_string_def skip_space_plain)

lemma take_member_text:
  "good_member m \<Longrightarrow> ends_member c \<Longrightarrow> 10 \<le> d
    \<Longrightarrow> take_member d (member_text m @ c # r) = Some ((json_string (fst m), snd m), c # r)"
  using take_member_plain [of "fst m" "snd m" c d r] by (simp add: good_member_def member_text_def)

lemma ends_member_chars [simp]: "ends_member CHR '',''" "ends_member CHR ''}''"
  by (simp_all add: ends_member_def)

lemma end_not_space [simp]: "skip_space (CHR '','' # s) = CHR '','' # s" "skip_space (CHR ''}'' # s) = CHR ''}'' # s"
  by (simp_all add: skip_space_def json_space_def byte_def)

lemma take_members_text:
  "ms \<noteq> [] \<Longrightarrow> list_all good_member ms \<Longrightarrow> 10 \<le> d
    \<Longrightarrow> take_members d (join_with '','' (map member_text ms) @ CHR ''}'' # r)
      = Some (map (\<lambda>m. (json_string (fst m), snd m)) ms, r)"
proof (induction ms)
  case Nil
  then show ?case by simp
next
  case (Cons m ms)
  show ?case
  proof (cases ms)
    case Nil
    then show ?thesis
      using Cons.prems take_member_text [of m "CHR ''}''" d r]
      by (simp add: take_members.simps [of d] member_text_start)
  next
    case (Cons m' ms')
    then have "take_members d (join_with '','' (map member_text ms) @ CHR ''}'' # r)
        = Some (map (\<lambda>m. (json_string (fst m), snd m)) ms, r)"
      using Cons.IH Cons.prems by simp
    then show ?thesis
      using Cons.prems Cons take_member_text [of m "CHR '',''" d "join_with '','' (map member_text ms) @ CHR ''}'' # r"]
      by (simp add: take_members.simps [of d "member_text m @ CHR '','' # _"] member_text_start)
  qed
qed

text \<open>Decoding what was printed gives the members back, with whatever follows left unread.\<close>

lemma decode_json_object:
  assumes "ms \<noteq> []" "list_all good_member ms"
  shows "decode_stream (json_object ms @ t) = Some (JObject ms, t)"
proof -
  let ?body = "join_with '','' (map member_text ms) @ CHR ''}'' # t"
  obtain m ms' where ms: "ms = m # ms'" using assms(1) by (cases ms) auto
  have start: "\<exists>s. ?body = CHR 0x22 # s"
    unfolding ms by (cases ms') (simp_all add: member_text_def json_string_def quote_char)
  then obtain s where s: "?body = CHR 0x22 # s" by blast
  have "skip_space ?body = ?body"
    unfolding s by (rule skip_space_plain) (simp add: json_space_def byte_def)
  then have "take_object (max_nesting - 1) (CHR ''{'' # ?body)
      = Some (map (\<lambda>m. (json_string (fst m), snd m)) ms, t)"
    using take_members_text [OF assms, of "max_nesting - 1" t] unfolding s by (simp add: take_object_def max_nesting_def)
  moreover have "skip_space (CHR ''{'' # ?body) = CHR ''{'' # ?body"
    by (rule skip_space_plain) (simp add: json_space_def byte_def)
  moreover have "map (\<lambda>(k, v). (unquote k, v)) (map (\<lambda>m. (json_string (fst m), snd m)) ms) = ms"
    using assms(2) by (induction ms) (auto simp: good_member_def unquote_json_string)
  ultimately show ?thesis by (simp add: decode_stream_def json_object_text Let_def)
qed

lemma unmarshal_json_object:
  assumes "ms \<noteq> []" "list_all good_member ms" "skip_space t = []"
  shows "unmarshal (json_object ms @ t) = Some (JObject ms)"
  using decode_json_object [OF assms(1,2), of t] assms(3) by (simp add: unmarshal_def)

lemma is_string_lit_json_string [simp]: "is_string_lit (json_string s)"
  by (simp add: is_string_lit_def json_string_def byte_quote)

end
