(* ===== verification/Envelope.thy ===== *)
theory Envelope
  imports Wire GoErrors
begin

text \<open>
  The error envelope on the wire: how \<open>encoding/json\<close> decodes it into the nested struct of
  \<open>internal/cqappbff/quotes.go\<close>, and that decoding what \<open>httpx.WriteError\<close> printed gives back the
  code, message, details and correlation id. Beyond \<open>Wire\<close> this needs values inside values: the
  scanner is followed with a non-empty context stack.
\<close>

section \<open>Arrays\<close>

text \<open>The raw elements of a raw array.\<close>

function take_elements :: "nat \<Rightarrow> string \<Rightarrow> string list option" where
  "take_elements depth s =
     (case take_value depth (skip_space s) of
        None \<Rightarrow> None
      | Some (v, r) \<Rightarrow>
          (case skip_space r of
             [] \<Rightarrow> None
           | c # r' \<Rightarrow>
               if c = CHR '']'' then Some [v]
               else if c = CHR '','' then map_option (\<lambda>vs. v # vs) (take_elements depth r')
               else None))"
  by pat_completeness auto
termination
proof (relation "measure (\<lambda>(d, s). length s)", simp, clarsimp)
  fix d s v r r'
  assume "take_value d (skip_space s) = Some (v, r)" and "skip_space r = CHR '','' # r'"
  then have "length r \<le> length (skip_space s)" and "length r' < length (skip_space r)"
    by (auto dest: take_value_append)
  then show "length r' < length s"
    using skip_space_length [of s] skip_space_length [of r] by linarith
qed

declare take_elements.simps [simp del]

definition take_array :: "string \<Rightarrow> string list option" where
  "take_array v =
     (if v = [] \<or> hd v \<noteq> CHR ''['' then None
      else (case skip_space (tl v) of
          [] \<Rightarrow> None
        | c # r \<Rightarrow> if c = CHR '']'' then Some [] else take_elements max_nesting (c # r)))"

section \<open>The envelope\<close>

record envelope =
  en_Code :: string
  en_Message :: string
  en_Details :: "FieldError list"
  en_CorrelationID :: string

fun collect :: "'a option list \<Rightarrow> 'a list option" where
  "collect [] = Some []"
| "collect (x # xs) = (case x of None \<Rightarrow> None | Some a \<Rightarrow> map_option (\<lambda>as. a # as) (collect xs))"

text \<open>A raw value into a struct: its members; null changes nothing.\<close>

definition object_members :: "string \<Rightarrow> (string \<times> string) list option" where
  "object_members v =
     (case unmarshal v of Some (JObject ms) \<Rightarrow> Some ms | Some JNull \<Rightarrow> Some [] | _ \<Rightarrow> None)"

definition detail_fields :: "string list" where "detail_fields = [''field'', ''code'']"
definition error_fields :: "string list" where "error_fields = [''code'', ''message'', ''details'', ''correlationId'']"

definition decode_field_error :: "string \<Rightarrow> FieldError option" where
  "decode_field_error v =
     (case object_members v of
        None \<Rightarrow> None
      | Some ms \<Rightarrow>
          (case (string_field detail_fields ''field'' ms, string_field detail_fields ''code'' ms) of
             (Some f, Some c) \<Rightarrow> Some \<lparr>fe_field = f, fe_code = c\<rparr>
           | _ \<Rightarrow> None))"

definition decode_details :: "string \<Rightarrow> FieldError list option" where
  "decode_details v =
     (if v = ''null'' then Some []
      else (case take_array v of None \<Rightarrow> None | Some es \<Rightarrow> collect (map decode_field_error es)))"

text \<open>
  \<open>json.Unmarshal\<close> into \<open>envelope\<close>: a type error anywhere is an error of the whole. Repeated keys assign
  again, in order; of repeated \<open>details\<close> the last counts (the library would reuse the old elements).
\<close>

definition details_field :: "(string \<times> string) list \<Rightarrow> FieldError list option" where
  "details_field ms =
     map_option (\<lambda>ds. if ds = [] then [] else last ds)
       (collect (map decode_details (field_values error_fields ''details'' ms)))"

definition decode_envelope :: "string \<Rightarrow> envelope option" where
  "decode_envelope body =
     (case object_members body of
        None \<Rightarrow> None
      | Some ms \<Rightarrow>
          (case collect (map object_members (field_values [''error''] ''error'' ms)) of
             None \<Rightarrow> None
           | Some mss \<Rightarrow>
               (let em = concat mss
                in case (string_field error_fields ''code'' em, string_field error_fields ''message'' em,
                    details_field em, string_field error_fields ''correlationId'' em) of
                     (Some c, Some m, Some d, Some i) \<Rightarrow>
                       Some \<lparr>en_Code = c, en_Message = m, en_Details = d, en_CorrelationID = i\<rparr>
                   | _ \<Rightarrow> None)))"

section \<open>Values that end by themselves\<close>

definition prefixed :: "string \<Rightarrow> (string \<times> string) option \<Rightarrow> (string \<times> string) option" where
  "prefixed v x = map_option (\<lambda>(u, t). (v @ u, t)) x"

lemma prefixed_simps [simp]:
  "prefixed [] x = x" "prefixed u (prefixed v x) = prefixed (u @ v) x" "prefixed v (Some (u, t)) = Some (v @ u, t)"
  by (auto simp: prefixed_def option.map_comp comp_def split_def option.map_ident)

text \<open>What the scanner does once a value is complete, with the contexts \<open>st\<close> still open.\<close>

definition finish :: "nat \<Rightarrow> json_ctx list \<Rightarrow> string \<Rightarrow> (string \<times> string) option" where
  "finish d st r = (if st = [] then Some ([], r) else scan_bytes d EndValue st r)"

text \<open>A value of at most \<open>k\<close> levels that the scanner takes whole, whatever follows it.\<close>

definition closed_value :: "nat \<Rightarrow> string \<Rightarrow> bool" where
  "closed_value k v \<longleftrightarrow> v \<noteq> [] \<and> skip_space v = v
     \<and> (\<forall>d st r. length st + k \<le> d \<longrightarrow> scan_bytes d BeginValue st (v @ r) = prefixed v (finish d st r))"

lemma scan_step_goto:
  "json_step d q st c = Goto q' st' \<Longrightarrow> scan_bytes d q st (c # s) = prefixed [c] (scan_bytes d q' st' s)"
  by (simp add: prefixed_def)

lemma scan_step_done:
  "json_step d q st c = value_done st' \<Longrightarrow> scan_bytes d q st (c # s) = prefixed [c] (finish d st' s)"
  by (simp add: prefixed_def value_done_def finish_def)

lemma scan_in_string:
  "plain s \<Longrightarrow> scan_bytes d InString st (s @ char_of (34 :: nat) # r) = prefixed (s @ [char_of (34 :: nat)]) (finish d st r)"
proof (induction s)
  case Nil
  then show ?case by (subst append_Nil, subst scan_step_done [where st' = st]) (simp_all add: byte_quote)
next
  case (Cons c s)
  then have "json_step d InString st c = Goto InString st" by (simp add: plain_char_def)
  then show ?case using Cons by (simp add: scan_step_goto del: scan_bytes.simps)
qed

lemma closed_string: "plain s \<Longrightarrow> closed_value 0 (json_string s)"
proof -
  assume p: "plain s"
  have "json_step d BeginValue st (char_of (34 :: nat)) = Goto InString st" for d st
    unfolding quote_char by (simp add: begin_value_def json_space_def byte_def)
  then have "scan_bytes d BeginValue st (json_string s @ r) = prefixed (json_string s) (finish d st r)" for d st r
    using scan_in_string [OF p] p by (simp add: json_string_def escape_plain scan_step_goto del: scan_bytes.simps)
  then show ?thesis by (simp add: closed_value_def json_string_def skip_space_plain)
qed

lemma closed_deeper: "closed_value j v \<Longrightarrow> j \<le> k \<Longrightarrow> closed_value k v"
  by (simp add: closed_value_def)

text \<open>The members of an object, from the first key on.\<close>

definition closed_member :: "nat \<Rightarrow> string \<times> string \<Rightarrow> bool" where
  "closed_member k m \<longleftrightarrow> plain (fst m) \<and> closed_value k (snd m)"

lemma begin_key_quote:
  "json_step d BeginKey st (char_of (34 :: nat)) = Goto InString st"
  "json_step d BeginKeyOrEmpty st (char_of (34 :: nat)) = Goto InString st"
  unfolding quote_char by (simp_all add: begin_key_def json_space_def byte_def)

lemma after_value_chars:
  "json_step d EndValue (ObjectKey # st) CHR '':'' = Goto BeginValue (ObjectValue # st)"
  "json_step d EndValue (ObjectValue # st) CHR '','' = Goto BeginKey (ObjectKey # st)"
  "json_step d EndValue (ObjectValue # st) CHR ''}'' = value_done st"
  "json_step d EndValue (ArrayValue # st) CHR '','' = Goto BeginValue (ArrayValue # st)"
  "json_step d EndValue (ArrayValue # st) CHR '']'' = value_done st"
  by (simp_all add: json_space_def byte_def)

lemma scan_member:
  assumes "closed_member k m" "Suc (length st) + k \<le> d" "q = BeginKey \<or> q = BeginKeyOrEmpty"
  shows "scan_bytes d q (ObjectKey # st) (member_text m @ r)
    = prefixed (member_text m) (scan_bytes d EndValue (ObjectValue # st) r)"
proof -
  have key: "scan_bytes d q (ObjectKey # st) (json_string (fst m) @ t)
      = prefixed (json_string (fst m)) (scan_bytes d EndValue (ObjectKey # st) t)" for t
    using assms(1,3) scan_in_string [of "fst m" d "ObjectKey # st" t]
    by (auto simp: closed_member_def json_string_def escape_plain finish_def
        scan_step_goto [OF begin_key_quote(1)] scan_step_goto [OF begin_key_quote(2)] simp del: scan_bytes.simps)
  have "scan_bytes d BeginValue (ObjectValue # st) (snd m @ r)
      = prefixed (snd m) (scan_bytes d EndValue (ObjectValue # st) r)"
    using assms(1,2) by (simp add: closed_member_def closed_value_def finish_def)
  then show ?thesis
    by (simp add: member_text_def key scan_step_goto [OF after_value_chars(1)] del: scan_bytes.simps)
qed

lemma scan_members:
  assumes "list_all (closed_member k) ms" "ms \<noteq> []" "Suc (length st) + k \<le> d" "q = BeginKey \<or> q = BeginKeyOrEmpty"
  shows "scan_bytes d q (ObjectKey # st) (join_with '','' (map member_text ms) @ CHR ''}'' # r)
    = prefixed (join_with '','' (map member_text ms) @ ''}'') (finish d st r)"
  using assms
proof (induction ms arbitrary: q)
  case Nil
  then show ?case by simp
next
  case (Cons m ms)
  show ?case
  proof (cases ms)
    case Nil
    then show ?thesis
      using Cons.prems scan_member [of k m st d q]
      by (simp add: scan_step_done [OF after_value_chars(3)] del: scan_bytes.simps)
  next
    case (Cons m' ms')
    then show ?thesis
      using Cons.prems Cons.IH [of BeginKey] scan_member [of k m st d q]
      by (simp add: scan_step_goto [OF after_value_chars(2)] del: scan_bytes.simps)
  qed
qed

lemma closed_object:
  assumes "list_all (closed_member k) ms" "ms \<noteq> []"
  shows "closed_value (Suc k) (json_object ms)"
proof -
  have "scan_bytes d BeginValue st (json_object ms @ r) = prefixed (json_object ms) (finish d st r)"
    if "length st + Suc k \<le> d" for d st r
  proof -
    have "json_step d BeginValue st CHR ''{'' = Goto BeginKeyOrEmpty (ObjectKey # st)"
      using that by (simp add: begin_value_def push_ctx_def json_space_def byte_def)
    then show ?thesis
      using scan_members [OF assms, of st d BeginKeyOrEmpty r] that
      by (simp add: json_object_text scan_step_goto del: scan_bytes.simps)
  qed
  then show ?thesis
    by (simp add: closed_value_def json_object_text skip_space_plain json_space_def byte_def)
qed

text \<open>Arrays, and their elements read back.\<close>

lemma begin_closed:
  "closed_value k v \<Longrightarrow> length st + k < d \<Longrightarrow>
    scan_bytes d BeginValueOrEmpty (ArrayValue # st) (v @ r) = prefixed v (scan_bytes d EndValue (ArrayValue # st) r)"
proof -
  assume v: "closed_value k v" and d: "length st + k < d"
  obtain c u where c: "v = c # u" using v by (cases v) (auto simp: closed_value_def)
  have s: "scan_bytes d BeginValue (ArrayValue # st) (v @ r) = prefixed v (scan_bytes d EndValue (ArrayValue # st) r)"
    using v d by (simp add: closed_value_def finish_def)
  have "\<not> json_space c" using v skip_space_stays [of v "[]"] skip_space_length [of u]
    by (auto simp: closed_value_def c skip_space_def split: if_splits dest!: arg_cong [of _ _ length])
  moreover have "c \<noteq> CHR '']''"
  proof
    assume "c = CHR '']''"
    have "scan_bytes (length [ArrayValue] + k) BeginValue [ArrayValue] (v @ ''}'') = prefixed v (finish (length [ArrayValue] + k) [ArrayValue] ''}'')"
      using v unfolding closed_value_def by blast
    then have "scan_bytes k BeginValue [] v = prefixed v (finish k [] [])"
      using v unfolding closed_value_def by (metis append_Nil2 add_0 list.size(3) order_refl)
    then show False
      using \<open>c = CHR '']''\<close> by (simp add: c begin_value_def json_space_def byte_def is_digit_def finish_def)
  qed
  ultimately have "json_step d BeginValueOrEmpty (ArrayValue # st) c = json_step d BeginValue (ArrayValue # st) c"
    by simp
  then show ?thesis using s by (simp only: c append_Cons scan_bytes.simps)
qed

lemma scan_elements:
  assumes "list_all (closed_value k) vs" "vs \<noteq> []" "length st + k < d" "q = BeginValue \<or> q = BeginValueOrEmpty"
  shows "scan_bytes d q (ArrayValue # st) (join_with '','' vs @ CHR '']'' # r)
    = prefixed (join_with '','' vs @ '']'') (finish d st r)"
  using assms
proof (induction vs arbitrary: q)
  case Nil
  then show ?case by simp
next
  case (Cons v vs)
  have v: "scan_bytes d q (ArrayValue # st) (v @ t) = prefixed v (scan_bytes d EndValue (ArrayValue # st) t)" for t
    using Cons.prems begin_closed [of k v st d t] by (auto simp: closed_value_def finish_def)
  show ?case
  proof (cases vs)
    case Nil
    then show ?thesis by (simp add: v scan_step_done [OF after_value_chars(5)] del: scan_bytes.simps)
  next
    case (Cons v' vs')
    then show ?thesis
      using Cons.prems Cons.IH [of BeginValue]
      by (simp add: v scan_step_goto [OF after_value_chars(4)] del: scan_bytes.simps)
  qed
qed

lemma closed_array:
  assumes "list_all (closed_value k) vs" "vs \<noteq> []"
  shows "closed_value (Suc k) (json_array vs)"
proof -
  have "scan_bytes d BeginValue st (json_array vs @ r) = prefixed (json_array vs) (finish d st r)"
    if "length st + Suc k \<le> d" for d st r
  proof -
    have "json_step d BeginValue st CHR ''['' = Goto BeginValueOrEmpty (ArrayValue # st)"
      using that by (simp add: begin_value_def push_ctx_def json_space_def byte_def)
    then show ?thesis
      using scan_elements [OF assms, of st d BeginValueOrEmpty r] that
      by (simp add: json_array_def scan_step_goto del: scan_bytes.simps)
  qed
  then show ?thesis
    by (simp add: closed_value_def json_array_def skip_space_plain json_space_def byte_def)
qed

lemma take_closed: "closed_value k v \<Longrightarrow> k \<le> d \<Longrightarrow> take_value d (v @ r) = Some (v, r)"
  by (simp add: closed_value_def take_value_def finish_def)

lemma member_value_closed: "closed_value k v \<Longrightarrow> k \<le> 10 \<Longrightarrow> member_value v"
  unfolding member_value_def by (intro conjI allI impI take_closed) (auto simp: closed_value_def)

lemma skip_closed: "closed_value k v \<Longrightarrow> skip_space (v @ s) = v @ s"
  by (rule skip_space_stays) (simp_all add: closed_value_def)

lemma bracket_stays [simp]: "skip_space (CHR '']'' # s) = CHR '']'' # s"
  by (simp add: skip_space_def json_space_def byte_def)

lemma take_elements_text:
  "list_all (closed_value k) vs \<Longrightarrow> vs \<noteq> [] \<Longrightarrow> k \<le> d
    \<Longrightarrow> take_elements d (join_with '','' vs @ '']'') = Some vs"
proof (induction vs)
  case Nil
  then show ?case by simp
next
  case (Cons v vs)
  show ?case
  proof (cases vs)
    case Nil
    then show ?thesis
      using Cons.prems take_closed [of k v d "'']''"] skip_closed [of k v "'']''"]
      by (simp add: take_elements.simps [of d])
  next
    case (Cons v' vs')
    let ?t = "CHR '','' # join_with '','' vs @ '']''"
    have "take_elements d (join_with '','' vs @ '']'') = Some vs" using Cons Cons.IH Cons.prems by simp
    then show ?thesis
      using Cons Cons.prems take_closed [of k v d ?t] skip_closed [of k v ?t]
      by (simp add: take_elements.simps [of d "v @ _"])
  qed
qed

lemma take_array_text:
  assumes "list_all (closed_value k) vs" "vs \<noteq> []" "k \<le> max_nesting"
  shows "take_array (json_array vs) = Some vs"
proof -
  obtain v vs' where vs: "vs = v # vs'" using assms(2) by (cases vs) auto
  let ?b = "join_with '','' vs @ '']''"
  obtain u where u: "?b = v @ u" unfolding vs by (cases vs') auto
  have v: "closed_value k v" using assms(1) vs by simp
  then obtain c w where c: "v = c # w" by (cases v) (auto simp: closed_value_def)
  have "skip_space ?b = c # w @ u" using skip_closed [OF v, of u] by (simp add: u c)
  moreover have "c \<noteq> CHR '']''"
    using take_closed [OF v order_refl, of "[]"]
    by (auto simp: c take_value_def begin_value_def json_space_def byte_def is_digit_def)
  ultimately show ?thesis
    using take_elements_text [OF assms] by (simp add: take_array_def json_array_def u c)
qed

section \<open>The envelope read back\<close>

lemma collect_map: "(\<And>x. x \<in> set xs \<Longrightarrow> f (g x) = Some x) \<Longrightarrow> collect (map f (map g xs)) = Some xs"
  by (induction xs) simp_all

lemma object_members_text:
  "ms \<noteq> [] \<Longrightarrow> list_all good_member ms \<Longrightarrow> skip_space t = [] \<Longrightarrow> object_members (json_object ms @ t) = Some ms"
  by (simp add: object_members_def unmarshal_json_object)

definition plain_detail :: "FieldError \<Rightarrow> bool" where
  "plain_detail f \<longleftrightarrow> plain (fe_field f) \<and> plain (fe_code f)"

lemmas plain_keys = plain_char_def byte_def

lemma closed_field_error: "plain_detail f \<Longrightarrow> closed_value 1 (encode_field_error f)"
  unfolding encode_field_error_def One_nat_def
  by (rule closed_object) (simp_all add: closed_member_def plain_keys closed_string plain_detail_def)

lemma decode_encode_field_error: "plain_detail f \<Longrightarrow> decode_field_error (encode_field_error f) = Some f"
proof -
  assume f: "plain_detail f"
  let ?ms = "[(''field'', json_string (fe_field f)), (''code'', json_string (fe_code f))]"
  have "object_members (json_object ?ms @ []) = Some ?ms"
    using f by (intro object_members_text)
      (simp_all add: good_member_def plain_keys member_value_string plain_detail_def skip_space_def)
  then show ?thesis
    using f by (simp add: decode_field_error_def encode_field_error_def string_field_def field_values_def field_of_def
        detail_fields_def string_or_null_def unquote_json_string plain_detail_def)
qed

lemma decode_details_text:
  assumes "list_all plain_detail ds" "ds \<noteq> []"
  shows "decode_details (json_array (map encode_field_error ds)) = Some ds"
proof -
  have "list_all (closed_value 1) (map encode_field_error ds)"
    using assms(1) closed_field_error by (simp add: list_all_iff)
  then have "take_array (json_array (map encode_field_error ds)) = Some (map encode_field_error ds)"
    by (rule take_array_text) (use assms(2) in \<open>simp_all add: max_nesting_def\<close>)
  moreover have "collect (map decode_field_error (map encode_field_error ds)) = Some ds"
    using assms(1) by (intro collect_map) (simp add: list_all_iff decode_encode_field_error)
  ultimately show ?thesis by (simp add: decode_details_def json_array_def)
qed

lemma decode_encode_envelope:
  assumes "plain code" "plain message" "plain cid" "list_all plain_detail ds" "skip_space t = []"
  shows "decode_envelope (encode_envelope code message ds cid @ t)
    = Some \<lparr>en_Code = code, en_Message = message, en_Details = ds, en_CorrelationID = cid\<rparr>"
proof -
  let ?em = "[(''code'', json_string code), (''message'', json_string message)]
        @ (if ds = [] then [] else [(''details'', json_array (map encode_field_error ds))])
        @ [(''correlationId'', json_string cid)]"
  have arr: "ds \<noteq> [] \<Longrightarrow> closed_value 2 (json_array (map encode_field_error ds))"
    using closed_array [of 1 "map encode_field_error ds"] assms(4) closed_field_error
    by (simp add: list_all_iff numeral_2_eq_2)
  have str: "plain s \<Longrightarrow> closed_value 2 (json_string s)" for s
    using closed_deeper [OF closed_string] by simp
  have em: "list_all (closed_member 2) ?em"
    using assms arr str by (simp add: closed_member_def plain_keys)
  have obj: "closed_value 3 (json_object ?em)" using closed_object [OF em] by (simp add: numeral_3_eq_3 numeral_2_eq_2)
  have "object_members (json_object [(''error'', json_object ?em)] @ t) = Some [(''error'', json_object ?em)]"
    using obj assms(5) member_value_closed [OF obj] by (intro object_members_text) (simp_all add: good_member_def plain_keys)
  moreover have "list_all good_member ?em"
    using assms(1-4) arr member_value_string member_value_closed [of 2 "json_array (map encode_field_error ds)"]
    by (simp add: good_member_def plain_keys)
  then have "object_members (json_object ?em @ []) = Some ?em"
    by (intro object_members_text) (simp_all add: skip_space_def)
  ultimately show ?thesis
    using assms(1-4) decode_details_text [OF assms(4)]
    by (cases "ds = []")
       (simp_all add: decode_envelope_def encode_envelope_def details_field_def string_field_def field_values_def
          field_of_def error_fields_def string_or_null_def unquote_json_string)
qed

end
