(* ===== verification/Authtoken.thy ===== *)
theory Authtoken
  imports Httpx
begin

text \<open>
  \<open>internal/platform/authtoken/token.go\<close>: the token contract between the BFF, which mints, and the
  Middleware, which verifies. The JWT library is not part of the repository: it is the parameter
  \<open>jwt\<close>, and what the code relies on is the predicate \<open>jwt_documented\<close>.
\<close>

section \<open>The contract\<close>

definition Issuer :: string where "Issuer = ''cqapp-bff''"
definition Audience :: string where "Audience = ''cqapp-middleware''"
definition ScopeQuoteGenerate :: string where "ScopeQuoteGenerate = ''quote:generate''"
definition signingMethod :: string where "signingMethod = ''HS256''"

lemmas token_contract_defs = Issuer_def Audience_def ScopeQuoteGenerate_def signingMethod_def

text \<open>\<open>jwt.RegisteredClaims\<close> and the scope; an absent date is \<^const>\<open>None\<close>.\<close>

record Claims =
  cl_Issuer :: string
  cl_Subject :: string
  cl_Audience :: "string list"
  cl_IssuedAt :: "instant option"
  cl_ExpiresAt :: "instant option"
  cl_NotBefore :: "instant option"
  cl_ID :: string
  cl_Scope :: "string list"

definition ErrNoSubject :: go_error where "ErrNoSubject = PlainError ''token has no subject''"

section \<open>The library\<close>

text \<open>The options \<open>jwt.NewParser\<close> is given.\<close>

record parser =
  po_methods :: "string list"
  po_issuer :: string
  po_audience :: string
  po_expiration_required :: bool
  po_leeway :: duration
  po_issued_at :: bool

text \<open>
  \<open>jwt_sign alg key claims\<close> is \<open>NewWithClaims(alg, claims).SignedString(key)\<close>; \<open>jwt_parse\<close> is
  \<open>ParseWithClaims\<close> at an instant; \<open>jwt_header_alg\<close> is the algorithm a token's header names.
\<close>

record jwt =
  jwt_sign :: "string \<Rightarrow> string \<Rightarrow> Claims \<Rightarrow> go_error + string"
  jwt_parse :: "parser \<Rightarrow> string \<Rightarrow> instant \<Rightarrow> string \<Rightarrow> go_error + Claims"
  jwt_header_alg :: "string \<Rightarrow> string option"

text \<open>The documented checks of the validator.\<close>

definition claims_valid :: "parser \<Rightarrow> instant \<Rightarrow> Claims \<Rightarrow> bool" where
  "claims_valid p now cl \<longleftrightarrow>
     cl_Issuer cl = po_issuer p \<and> po_audience p \<in> set (cl_Audience cl)
     \<and> (case cl_ExpiresAt cl of
          None \<Rightarrow> \<not> po_expiration_required p
        | Some t \<Rightarrow> now < t + po_leeway p)
     \<and> (case cl_IssuedAt cl of None \<Rightarrow> True | Some t \<Rightarrow> po_issued_at p \<longrightarrow> t - po_leeway p \<le> now)
     \<and> (case cl_NotBefore cl of None \<Rightarrow> True | Some t \<Rightarrow> t - po_leeway p \<le> now)"

definition ascii :: "string \<Rightarrow> bool" where
  "ascii s \<longleftrightarrow> list_all (\<lambda>c. byte c < 128) s"

definition ascii_claims :: "Claims \<Rightarrow> bool" where
  "ascii_claims cl \<longleftrightarrow> ascii (cl_Issuer cl) \<and> ascii (cl_Subject cl) \<and> list_all ascii (cl_Audience cl)
     \<and> ascii (cl_ID cl) \<and> list_all ascii (cl_Scope cl)"

text \<open>
  What the documentation promises: a parsed token names an allowed algorithm and its claims pass the
  checks; a token the library itself signed with an allowed algorithm is parsed, under the same key, to
  the claims that were signed exactly when those pass the checks. Nothing is said of other keys, nor of an
  empty issuer or audience, which the library takes for an option that was not given.
\<close>

definition names_parties :: "parser \<Rightarrow> bool" where
  "names_parties p \<longleftrightarrow> po_issuer p \<noteq> [] \<and> po_audience p \<noteq> []"

definition jwt_documented :: "jwt \<Rightarrow> bool" where
  "jwt_documented j \<longleftrightarrow>
     (\<forall>p key now raw cl. names_parties p \<and> jwt_parse j p key now raw = Inr cl
        \<longrightarrow> claims_valid p now cl \<and> (\<exists>alg \<in> set (po_methods p). jwt_header_alg j raw = Some alg))
     \<and> (\<forall>p alg key now cl tok. names_parties p \<and> jwt_sign j alg key cl = Inr tok \<and> alg \<in> set (po_methods p) \<and> ascii_claims cl
        \<longrightarrow> (case jwt_parse j p key now tok of Inr cl' \<Rightarrow> cl' = cl | Inl _ \<Rightarrow> \<not> claims_valid p now cl))"

section \<open>Mint and Verify\<close>

text \<open>\<open>jwt.NewNumericDate\<close> truncates to the library's precision of a second.\<close>

definition NewNumericDate :: "instant \<Rightarrow> instant" where
  "NewNumericDate t = t div second * second"

text \<open>The 16 random bytes, \<^const>\<open>None\<close> if the random source failed.\<close>

definition randomID :: "string option \<Rightarrow> go_error + string" where
  "randomID random =
     (case random of
        None \<Rightarrow> Inl (WrapError ''generate token id: %w'' [PlainError ''rand''])
      | Some bs \<Rightarrow> Inr (hex_encode bs))"

definition minted_claims :: "string \<Rightarrow> instant \<Rightarrow> string \<Rightarrow> string list \<Rightarrow> duration \<Rightarrow> Claims" where
  "minted_claims tid now subject scopes ttl =
     \<lparr>cl_Issuer = Issuer, cl_Subject = subject, cl_Audience = [Audience],
      cl_IssuedAt = Some (NewNumericDate now), cl_ExpiresAt = Some (NewNumericDate (now + ttl)),
      cl_NotBefore = None, cl_ID = tid, cl_Scope = scopes\<rparr>"

definition Mint ::
  "jwt \<Rightarrow> string option \<Rightarrow> instant \<Rightarrow> string \<Rightarrow> string \<Rightarrow> string list \<Rightarrow> duration \<Rightarrow> go_error + string" where
  "Mint j random now key subject scopes ttl =
     (case randomID random of
        Inl err \<Rightarrow> Inl err
      | Inr tid \<Rightarrow>
          (case jwt_sign j signingMethod key (minted_claims tid now subject scopes ttl) of
             Inl err \<Rightarrow> Inl (WrapError ''sign token: %w'' [err])
           | Inr signed \<Rightarrow> Inr signed))"

record Verifier =
  vf_key :: string
  vf_parser :: parser

definition NewVerifier :: "string \<Rightarrow> duration \<Rightarrow> Verifier" where
  "NewVerifier key leeway =
     \<lparr>vf_key = key,
      vf_parser = \<lparr>po_methods = [signingMethod], po_issuer = Issuer, po_audience = Audience,
        po_expiration_required = True, po_leeway = leeway, po_issued_at = True\<rparr>\<rparr>"

definition Verify :: "jwt \<Rightarrow> Verifier \<Rightarrow> instant \<Rightarrow> string \<Rightarrow> go_error + Caller" where
  "Verify j v now raw =
     (case jwt_parse j (vf_parser v) (vf_key v) now raw of
        Inl err \<Rightarrow> Inl err
      | Inr claims \<Rightarrow>
          (let subject = trim_space (cl_Subject claims)
           in if subject = [] then Inl ErrNoSubject
              else Inr \<lparr>Subject = subject, TokenID = cl_ID claims, Requested = cl_Scope claims\<rparr>))"

section \<open>Lemmas\<close>

lemma NewVerifier_names: "names_parties (vf_parser (NewVerifier key leeway))"
  by (simp add: names_parties_def NewVerifier_def token_contract_defs)

lemma minted_verifies:
  assumes "jwt_documented j" and "Mint j (Some bs) now key subject scopes ttl = Inr tok"
    and "ascii subject" "list_all ascii scopes" and "trim_space subject \<noteq> []"
  shows "((\<exists>caller. Verify j (NewVerifier key leeway) later tok = Inr caller)
      \<longleftrightarrow> NewNumericDate now - leeway \<le> later \<and> later < NewNumericDate (now + ttl) + leeway)
    \<and> (\<forall>caller. Verify j (NewVerifier key leeway) later tok = Inr caller
        \<longrightarrow> caller = \<lparr>Subject = trim_space subject, TokenID = hex_encode bs, Requested = scopes\<rparr>)"
proof -
  let ?p = "vf_parser (NewVerifier key leeway)"
  let ?cl = "minted_claims (hex_encode bs) now subject scopes ttl"
  have signed: "jwt_sign j signingMethod key ?cl = Inr tok"
    using assms(2) by (auto simp: Mint_def randomID_def split: sum.splits)
  have "correlation_char c \<Longrightarrow> byte c < 128" for c
    by (auto simp: correlation_char_def is_lower_def is_upper_def is_digit_def byte_def)
  then have "ascii (hex_encode bs)"
    using hex_encode_chars [of bs] by (auto simp: ascii_def list_all_iff)
  then have asc: "ascii_claims ?cl"
    using assms(3,4) by (simp add: ascii_claims_def minted_claims_def token_contract_defs ascii_def byte_def)
  have m: "signingMethod \<in> set (po_methods ?p)" by (simp add: NewVerifier_def)
  have parse: "case jwt_parse j ?p key later tok of Inr cl' \<Rightarrow> cl' = ?cl | Inl _ \<Rightarrow> \<not> claims_valid ?p later ?cl"
    using assms(1) signed m asc NewVerifier_names unfolding jwt_documented_def by blast
  have sound: "jwt_parse j ?p key later tok = Inr cl \<Longrightarrow> claims_valid ?p later cl" for cl
    using assms(1) NewVerifier_names unfolding jwt_documented_def by blast
  have valid: "claims_valid ?p later ?cl \<longleftrightarrow>
      NewNumericDate now - leeway \<le> later \<and> later < NewNumericDate (now + ttl) + leeway"
    by (auto simp: claims_valid_def minted_claims_def NewVerifier_def)
  have s: "cl_Subject ?cl = subject" "cl_ID ?cl = hex_encode bs" "cl_Scope ?cl = scopes"
    by (simp_all add: minted_claims_def)
  show ?thesis
    using parse sound valid assms(5) s
    by (cases "jwt_parse j ?p key later tok") (auto simp: Verify_def NewVerifier_def Let_def)
qed

section \<open>Properties\<close>

text \<open>
  C16: a verified token establishes an identity. Whatever text is presented, if it is accepted then its
  header names HS256 and nothing else, the claims it carries were issued by the BFF for the Middleware,
  it has an expiry that has not passed by more than the leeway and was not issued further in the future
  than that; the caller is the trimmed subject and is never blank.
\<close>

theorem Verify_sound:
  assumes "jwt_documented j" and "Verify j (NewVerifier key leeway) now raw = Inr caller"
  shows "jwt_header_alg j raw = Some ''HS256'' \<and> Subject caller \<noteq> []
    \<and> (\<exists>cl t. jwt_parse j (vf_parser (NewVerifier key leeway)) key now raw = Inr cl
        \<and> cl_Issuer cl = ''cqapp-bff'' \<and> ''cqapp-middleware'' \<in> set (cl_Audience cl)
        \<and> cl_ExpiresAt cl = Some t \<and> now < t + leeway
        \<and> (\<forall>i. cl_IssuedAt cl = Some i \<longrightarrow> i - leeway \<le> now)
        \<and> Subject caller = trim_space (cl_Subject cl) \<and> Requested caller = cl_Scope cl)"
proof -
  let ?p = "vf_parser (NewVerifier key leeway)"
  obtain cl where cl: "jwt_parse j ?p key now raw = Inr cl"
    and caller: "trim_space (cl_Subject cl) \<noteq> []"
      "caller = \<lparr>Subject = trim_space (cl_Subject cl), TokenID = cl_ID cl, Requested = cl_Scope cl\<rparr>"
    using assms(2) by (auto simp: Verify_def NewVerifier_def Let_def split: sum.splits if_splits)
  have "claims_valid ?p now cl \<and> (\<exists>alg \<in> set (po_methods ?p). jwt_header_alg j raw = Some alg)"
    using assms(1) cl NewVerifier_names unfolding jwt_documented_def by blast
  then show ?thesis
    using cl caller
    by (auto simp: NewVerifier_def claims_valid_def token_contract_defs split: option.splits)
qed

text \<open>
  C17: what the BFF mints, the Middleware accepts. A token minted for a non-blank subject verifies, under
  the same key, to that subject (trimmed), the token's own id and the requested scopes, exactly from its
  issue time minus the leeway until its expiry plus the leeway, both dates cut to whole seconds.
\<close>

theorem Mint_Verify_roundtrip:
  assumes "jwt_documented j" and "Mint j (Some bs) now key subject scopes ttl = Inr tok"
    and "ascii subject" "list_all ascii scopes" and "trim_space subject \<noteq> []"
  shows "((\<exists>caller. Verify j (NewVerifier key leeway) later tok = Inr caller)
      \<longleftrightarrow> NewNumericDate now - leeway \<le> later \<and> later < NewNumericDate (now + ttl) + leeway)
    \<and> (\<forall>caller. Verify j (NewVerifier key leeway) later tok = Inr caller
        \<longrightarrow> caller = \<lparr>Subject = trim_space subject, TokenID = hex_encode bs, Requested = scopes\<rparr>)"
  by (rule minted_verifies [OF assms])

section \<open>Examples\<close>

text \<open>A library that signs one set of claims with one key, enough to show that the hypotheses can hold.\<close>

definition one_token :: "string \<Rightarrow> Claims \<Rightarrow> jwt" where
  "one_token key cl =
     \<lparr>jwt_sign = (\<lambda>alg k c. if alg = signingMethod \<and> k = key \<and> c = cl then Inr ''token'' else Inl (PlainError [])),
      jwt_parse = (\<lambda>p k now raw. if raw = ''token'' \<and> k = key \<and> signingMethod \<in> set (po_methods p)
         \<and> claims_valid p now cl then Inr cl else Inl (PlainError [])),
      jwt_header_alg = (\<lambda>raw. if raw = ''token'' then Some signingMethod else None)\<rparr>"

lemma one_token_documented: "jwt_documented (one_token key cl)"
  by (auto simp: jwt_documented_def one_token_def)

definition example_bytes :: string where "example_bytes = replicate 16 CHR ''A''"

definition example_jwt :: jwt where
  "example_jwt = one_token ''key'' (minted_claims (hex_encode example_bytes) (100 * second) ''s-1''
     [ScopeQuoteGenerate] (60 * second))"

lemma example_minted:
  "Mint example_jwt (Some example_bytes) (100 * second) ''key'' ''s-1'' [ScopeQuoteGenerate] (60 * second)
     = Inr ''token''"
  by (simp add: Mint_def randomID_def example_jwt_def one_token_def)

lemma example_documented: "jwt_documented example_jwt"
  by (simp add: example_jwt_def one_token_documented)

theorem Mint_Verify_roundtrip_witness:
  "\<exists>caller. Verify example_jwt (NewVerifier ''key'' (5 * second)) (164 * second) ''token'' = Inr caller
     \<and> caller = \<lparr>Subject = ''s-1'', TokenID = hex_encode example_bytes, Requested = [ScopeQuoteGenerate]\<rparr>"
proof -
  have a: "ascii ''s-1''" "list_all ascii [ScopeQuoteGenerate]" "trim_space ''s-1'' = ''s-1''"
    by code_simp+
  then have "trim_space ''s-1'' \<noteq> []" by simp
  note r = Mint_Verify_roundtrip [OF example_documented example_minted a(1,2) this]
  have "NewNumericDate (100 * second) - 5 * second \<le> 164 * second \<and>
      164 * second < NewNumericDate (100 * second + 60 * second) + 5 * second"
    by code_simp
  with r [of "5 * second" "164 * second"] a(3) show ?thesis by auto
qed

theorem Verify_sound_witness:
  "jwt_header_alg example_jwt ''token'' = Some ''HS256''
   \<and> (\<exists>caller. Verify example_jwt (NewVerifier ''key'' (5 * second)) (164 * second) ''token'' = Inr caller)"
proof -
  have "Verify example_jwt (NewVerifier ''key'' (5 * second)) (164 * second) ''token''
      = Inr \<lparr>Subject = ''s-1'', TokenID = hex_encode example_bytes, Requested = [ScopeQuoteGenerate]\<rparr>"
    by code_simp
  from this Verify_sound [OF example_documented this] show ?thesis by blast
qed

end
