(* ===== verification/GoFloat.thy ===== *)
theory GoFloat
  imports GoStrings "HOL-Library.Log_Nat"
begin

text \<open>
  Go's \<open>float64\<close> as far as the services use it: conversion from an integer, division, comparison, and
  \<open>strconv.ParseFloat\<close>. Finite values are rationals, rounded to the nearest representable one with ties
  to even; the sign of zero is not kept, since nothing here tells the two zeros apart.
\<close>

section \<open>Values and rounding\<close>

datatype float64 = NaN | Inf bool | Fin rat \<comment> \<open>\<open>Inf True\<close> is the negative infinity\<close>

text \<open>The exponent of the last place: 53 significant bits, never below the subnormal limit.\<close>

definition ulp_exponent :: "rat \<Rightarrow> int" where
  "ulp_exponent x =
     (case quotient_of \<bar>x\<bar> of (n, d) \<Rightarrow>
        let e = bitlen n - bitlen d - 53
        in max (-1074) (if 2 powi (e + 53) \<le> \<bar>x\<bar> then e + 1 else e))"

definition round_even :: "rat \<Rightarrow> int" where
  "round_even m =
     (let k = \<lfloor>m\<rfloor>; f = m - of_int k
      in if f < 1 / 2 \<or> (f = 1 / 2 \<and> even k) then k else k + 1)"

definition to_float :: "rat \<Rightarrow> float64" where
  "to_float x =
     (if x = 0 then Fin 0
      else let e = ulp_exponent x;
               y = of_int (round_even (x / 2 powi e)) * 2 powi e
           in if 2 ^ 1024 \<le> \<bar>y\<bar> then Inf (y < 0) else Fin y)"

definition float_of_int :: "int \<Rightarrow> float64" where
  "float_of_int n = to_float (of_int n)"

fun float_div :: "float64 \<Rightarrow> float64 \<Rightarrow> float64" where
  "float_div (Fin x) (Fin y) =
     (if y \<noteq> 0 then to_float (x / y) else if x = 0 then NaN else Inf (x < 0))"
| "float_div (Fin x) (Inf s) = Fin 0"
| "float_div (Inf s) (Fin y) = Inf (s \<noteq> (y < 0))"
| "float_div _ _ = NaN"

text \<open>Comparisons with NaN are false.\<close>

fun float_less :: "float64 \<Rightarrow> float64 \<Rightarrow> bool" where
  "float_less (Fin x) (Fin y) \<longleftrightarrow> x < y"
| "float_less (Fin x) (Inf s) \<longleftrightarrow> \<not> s"
| "float_less (Inf s) (Fin y) \<longleftrightarrow> s"
| "float_less (Inf s) (Inf t) \<longleftrightarrow> s \<and> \<not> t"
| "float_less _ _ \<longleftrightarrow> False"

fun float_le :: "float64 \<Rightarrow> float64 \<Rightarrow> bool" where
  "float_le (Fin x) (Fin y) \<longleftrightarrow> x \<le> y"
| "float_le (Fin x) (Inf s) \<longleftrightarrow> \<not> s"
| "float_le (Inf s) (Fin y) \<longleftrightarrow> s"
| "float_le (Inf s) (Inf t) \<longleftrightarrow> s \<or> \<not> t"
| "float_le _ _ \<longleftrightarrow> False"

text \<open>Go's operators, on the library's: an order that no NaN takes part in, not even with itself.\<close>

instantiation float64 :: ord
begin

definition less_eq_float64 :: "float64 \<Rightarrow> float64 \<Rightarrow> bool" where [simp]: "less_eq_float64 = float_le"
definition less_float64 :: "float64 \<Rightarrow> float64 \<Rightarrow> bool" where [simp]: "less_float64 = float_less"

instance ..

end

lemma float_le_NaN [simp]: "\<not> float_le NaN x" "\<not> float_le x NaN"
  by (cases x; simp)+

section \<open>Rounding respects representable bounds\<close>

lemma round_even_le: "m \<le> of_int k \<Longrightarrow> round_even m \<le> k"
proof -
  assume m: "m \<le> of_int k"
  then have "\<lfloor>m\<rfloor> \<le> k" by linarith
  moreover have "\<lfloor>m\<rfloor> = k \<Longrightarrow> m = of_int k" using m by linarith
  ultimately show ?thesis by (cases "\<lfloor>m\<rfloor> = k") (auto simp: round_even_def Let_def)
qed

lemma round_even_ge: "of_int k \<le> m \<Longrightarrow> k \<le> round_even m"
proof -
  assume "of_int k \<le> m"
  then have "k \<le> \<lfloor>m\<rfloor>" by linarith
  then show ?thesis by (auto simp: round_even_def Let_def)
qed

lemma bitlen_powi:
  assumes "0 < n"
  shows "(2 :: rat) powi (bitlen n - 1) \<le> of_int n" "of_int n < (2 :: rat) powi bitlen n"
proof -
  have b: "0 < bitlen n" and lo: "2 ^ nat (bitlen n - 1) \<le> n" and hi: "n < 2 ^ nat (bitlen n)"
    using bitlen_bounds [OF assms] assms bitlen_eq_zero_iff [of n] bitlen_nonneg [of n]
    by (simp_all add: less_le)
  have "(2 :: rat) powi (bitlen n - 1) = of_int (2 ^ nat (bitlen n - 1))"
    using b by (simp add: power_int_def)
  then show "(2 :: rat) powi (bitlen n - 1) \<le> of_int n" using lo by (simp only: of_int_le_iff)
  have "(2 :: rat) powi bitlen n = of_int (2 ^ nat (bitlen n))"
    using b by (simp add: power_int_def)
  then show "of_int n < (2 :: rat) powi bitlen n" using hi by (simp only: of_int_less_iff)
qed

lemma ulp_exponent_bounds:
  assumes "0 < x"
  shows "-1074 \<le> ulp_exponent x" "x < 2 powi (ulp_exponent x + 53)"
    "-1074 < ulp_exponent x \<Longrightarrow> 2 powi (ulp_exponent x + 52) \<le> x"
proof -
  obtain n d where q: "quotient_of x = (n, d)" by fastforce
  define e where "e = bitlen n - bitlen d - 53"
  have d: "0 < d" and x: "x = of_int n / of_int d"
    using q quotient_of_denom_pos quotient_of_div by blast+
  then have n: "0 < n" using assms by (simp add: zero_less_divide_iff)
  have lo: "2 powi (e + 52) < x"
  proof -
    have "(2 :: rat) powi (e + 52) * of_int d < 2 powi (e + 52) * 2 powi bitlen d"
      using bitlen_powi(2) [OF d] by (intro mult_strict_left_mono) simp_all
    also have "\<dots> = 2 powi (bitlen n - 1)" by (simp add: e_def flip: power_int_add)
    also have "\<dots> \<le> of_int n" by (rule bitlen_powi(1) [OF n])
    finally show ?thesis using d by (simp add: x field_simps)
  qed
  have hi: "x < 2 powi (e + 54)"
  proof -
    have "of_int n < (2 :: rat) powi bitlen n" by (rule bitlen_powi(2) [OF n])
    also have "\<dots> = 2 powi (e + 54) * 2 powi (bitlen d - 1)" by (simp add: e_def flip: power_int_add)
    also have "\<dots> \<le> 2 powi (e + 54) * of_int d"
      using bitlen_powi(1) [OF d] by (intro mult_left_mono) simp_all
    finally show ?thesis using d by (simp add: x field_simps)
  qed
  have u: "ulp_exponent x = max (-1074) (if 2 powi (e + 53) \<le> x then e + 1 else e)"
    using assms q by (simp add: ulp_exponent_def e_def Let_def)
  show "-1074 \<le> ulp_exponent x" by (simp add: u)
  have "x < 2 powi ((if 2 powi (e + 53) \<le> x then e + 1 else e) + 53)" using hi by (simp add: add.commute)
  also have "\<dots> \<le> 2 powi (ulp_exponent x + 53)"
    by (intro power_int_increasing) (auto simp: u)
  finally show "x < 2 powi (ulp_exponent x + 53)" .
  show "2 powi (ulp_exponent x + 52) \<le> x" if "-1074 < ulp_exponent x"
    using that lo by (auto simp: u max_def add.commute split: if_splits)
qed

definition representable :: "rat \<Rightarrow> bool" where
  "representable y \<longleftrightarrow> (\<exists>k e. y = of_int k * 2 powi e \<and> -1074 \<le> e \<and> \<bar>k\<bar> < 2 ^ 53)"

lemma representable_grid:
  assumes "y = of_int k * 2 powi e" "u \<le> e"
  shows "y = of_int (k * 2 ^ nat (e - u)) * (2 :: rat) powi u"
proof -
  have "(2 :: rat) powi e = 2 powi (e - u) * 2 powi u" by (simp flip: power_int_add)
  also have "(2 :: rat) powi (e - u) = of_int (2 ^ nat (e - u))"
    using assms(2) by (simp add: power_int_def)
  finally show ?thesis by (simp add: assms(1))
qed

lemma representable_small:
  assumes "y = of_int k * 2 powi e" "\<bar>k\<bar> < 2 ^ 53"
  shows "y < (2 :: rat) powi (e + 53)"
proof -
  have "(of_int k :: rat) < of_int (2 ^ 53)" using assms(2) by (simp only: of_int_less_iff)
  then have "y < 2 ^ 53 * 2 powi e"
    unfolding assms(1) by (intro mult_strict_right_mono) simp_all
  also have "(2 :: rat) ^ 53 * 2 powi e = 2 powi (e + 53)"
    by (simp add: power_int_add)
  finally show ?thesis .
qed

lemma to_float_pos:
  assumes "0 < x"
  shows "to_float x =
    (let y = of_int (round_even (x / 2 powi ulp_exponent x)) * 2 powi ulp_exponent x
     in if 2 ^ 1024 \<le> y then Inf False else Fin y)"
    "0 \<le> round_even (x / 2 powi ulp_exponent x)"
proof -
  show *: "0 \<le> round_even (x / 2 powi ulp_exponent x)"
    using assms by (intro round_even_ge) simp
  then have "0 \<le> of_int (round_even (x / 2 powi ulp_exponent x)) * (2 :: rat) powi ulp_exponent x"
    by (intro mult_nonneg_nonneg) simp_all
  then show "to_float x =
    (let y = of_int (round_even (x / 2 powi ulp_exponent x)) * 2 powi ulp_exponent x
     in if 2 ^ 1024 \<le> y then Inf False else Fin y)"
    using assms unfolding to_float_def Let_def by (simp add: not_less abs_of_nonneg del: zero_le_mult_iff)
qed

lemma to_float_le:
  assumes x: "0 < x" "x \<le> y" and y: "representable y" "y < 2 ^ 1024"
  shows "\<exists>r. to_float x = Fin r \<and> 0 \<le> r \<and> r \<le> y"
proof -
  let ?u = "ulp_exponent x"
  obtain k e where k: "y = of_int k * 2 powi e" "-1074 \<le> e" "\<bar>k\<bar> < 2 ^ 53"
    using y(1) by (auto simp: representable_def)
  have "?u \<le> e"
  proof (rule ccontr)
    assume "\<not> ?u \<le> e"
    then have "2 powi (?u + 52) \<le> x" using ulp_exponent_bounds(3) [OF x(1)] k(2) by linarith
    moreover have "(2 :: rat) powi (e + 53) \<le> 2 powi (?u + 52)"
      using \<open>\<not> ?u \<le> e\<close> by (intro power_int_increasing) simp_all
    ultimately show False using representable_small [OF k(1,3)] x(2) by linarith
  qed
  from representable_grid [OF k(1) this] obtain j where j: "y = of_int j * 2 powi ?u" by blast
  have "x / 2 powi ?u \<le> of_int j" using x(2) by (simp add: j divide_le_eq)
  then have "round_even (x / 2 powi ?u) \<le> j" by (rule round_even_le)
  then have "of_int (round_even (x / 2 powi ?u)) * 2 powi ?u \<le> y"
    unfolding j by (intro mult_right_mono) simp_all
  moreover have "0 \<le> of_int (round_even (x / 2 powi ?u)) * (2 :: rat) powi ?u"
    using to_float_pos(2) [OF x(1)] by (intro mult_nonneg_nonneg) simp_all
  ultimately show ?thesis using y(2) by (simp add: to_float_pos [OF x(1)] Let_def)
qed

lemma to_float_ge:
  assumes x: "0 < x" "y \<le> x" and y: "representable y"
  shows "float_le (Fin y) (to_float x)"
proof -
  let ?u = "ulp_exponent x"
  let ?r = "of_int (round_even (x / 2 powi ?u)) * (2 :: rat) powi ?u"
  obtain k e where k: "y = of_int k * 2 powi e" "-1074 \<le> e" "\<bar>k\<bar> < 2 ^ 53"
    using y(1) by (auto simp: representable_def)
  have "y \<le> ?r"
  proof (cases "?u \<le> e")
    case True
    from representable_grid [OF k(1) this] obtain j where j: "y = of_int j * 2 powi ?u" by blast
    have "of_int j \<le> x / 2 powi ?u" using x(2) by (simp add: j le_divide_eq)
    then have "j \<le> round_even (x / 2 powi ?u)" by (rule round_even_ge)
    then show ?thesis unfolding j by (intro mult_right_mono) simp_all
  next
    case False
    then have "2 powi (?u + 52) \<le> x" using ulp_exponent_bounds(3) [OF x(1)] k(2) by linarith
    then have "of_int (2 ^ 52) \<le> x / 2 powi ?u" by (simp add: le_divide_eq power_int_add mult.commute)
    then have "2 ^ 52 \<le> round_even (x / 2 powi ?u)" by (rule round_even_ge)
    then have "(of_int (2 ^ 52) :: rat) \<le> of_int (round_even (x / 2 powi ?u))" by (simp only: of_int_le_iff)
    then have "2 ^ 52 * 2 powi ?u \<le> ?r" by (intro mult_right_mono) simp_all
    moreover have "(2 :: rat) powi (e + 53) \<le> 2 powi (?u + 52)"
      using False by (intro power_int_increasing) simp_all
    moreover have "(2 :: rat) powi (?u + 52) = 2 ^ 52 * 2 powi ?u" by (simp add: power_int_add)
    ultimately show ?thesis using representable_small [OF k(1,3)] by linarith
  qed
  then show ?thesis by (simp add: to_float_pos [OF x(1)] Let_def)
qed

lemma to_float_exact:
  assumes "representable x" "0 < x" "x < 2 ^ 1024"
  shows "to_float x = Fin x"
  using to_float_le [OF assms(2) order_refl assms(1,3)] to_float_ge [OF assms(2) order_refl assms(1)]
  by auto

lemma representable_int: "\<bar>n\<bar> < 2 ^ 53 \<Longrightarrow> representable (of_int n)"
  unfolding representable_def by (intro exI [of _ n] exI [of _ 0]) simp

lemma float_of_nat: "n < 2 ^ 53 \<Longrightarrow> float_of_int (int n) = Fin (of_nat n)"
proof (cases "n = 0")
  case True
  then show ?thesis by (simp add: float_of_int_def to_float_def)
next
  case False
  assume n: "n < 2 ^ 53"
  have less: "int n < 2 ^ 53"
    using n by (metis of_nat_less_iff of_nat_numeral of_nat_power)
  then have "(of_int (int n) :: rat) < of_int (2 ^ 53)" by (simp only: of_int_less_iff)
  also have "\<dots> < 2 ^ 1024"
    unfolding of_int_power of_int_numeral by (rule power_strict_increasing) simp_all
  finally have "to_float (of_int (int n)) = Fin (of_int (int n))"
    using False less by (intro to_float_exact representable_int) simp_all
  then show ?thesis by (simp add: float_of_int_def)
qed

text \<open>The comparison of a quotient of counts with one half is exact.\<close>

lemma half_quotient:
  assumes "n < 2 ^ 53" "k \<le> n" "0 < n"
  shows "float_le (Fin (1 / 2)) (float_div (float_of_int (int k)) (float_of_int (int n))) \<longleftrightarrow> n \<le> 2 * k"
proof -
  let ?x = "of_nat k / of_nat n :: rat"
  have q: "float_div (float_of_int (int k)) (float_of_int (int n)) = to_float ?x"
  proof -
    have "k < 2 ^ 53" using assms(1,2) by (rule le_less_trans [rotated])
    moreover have "(of_nat n :: rat) \<noteq> 0" using assms(3) by (metis of_nat_0_less_iff less_irrefl)
    ultimately show ?thesis
      unfolding float_of_nat [OF assms(1)] float_of_nat [OF \<open>k < 2 ^ 53\<close>] float_div.simps
      by (simp only: not_False_eq_True if_True)
  qed
  have half: "representable (1 / 2)"
    unfolding representable_def by (intro exI [of _ 1] exI [of _ "-1"]) simp
  have below: "representable ((2 ^ 53 - 1) / 2 ^ 54)"
  proof -
    have "(2 :: rat) powi (-54) = 1 / 2 ^ 54"
      by (simp only: power_int_minus power_int_numeral inverse_eq_divide)
    then have eq: "(2 ^ 53 - 1) / 2 ^ 54 = of_int (2 ^ 53 - 1) * (2 :: rat) powi (-54)" by simp
    show ?thesis
      unfolding representable_def by (intro exI conjI, rule eq) simp_all
  qed
  show ?thesis
  proof (cases "n \<le> 2 * k")
    case True
    then have "(of_nat n :: rat) \<le> of_nat (2 * k)" by (simp only: of_nat_le_iff)
    then have "1 / 2 \<le> ?x" using assms(3) by (simp add: field_simps)
    moreover have "0 < ?x" using True assms(3) by simp
    ultimately have "float_le (Fin (1 / 2)) (to_float ?x)" by (intro to_float_ge [OF _ _ half])
    then show ?thesis using True by (simp add: q)
  next
    case False
    have "to_float ?x = Fin 0 \<or> (\<exists>r. to_float ?x = Fin r \<and> r \<le> (2 ^ 53 - 1) / 2 ^ 54)"
    proof (cases "k = 0")
      case True
      then show ?thesis by (simp add: to_float_def)
    next
      case k: False
      have "(of_nat (2 * k + 1) :: rat) \<le> of_nat n" using False by (simp only: of_nat_le_iff)
      moreover have "(of_nat n :: rat) \<le> of_nat (2 ^ 53)" using assms(1) by (simp only: of_nat_le_iff)
      ultimately have "?x \<le> (2 ^ 53 - 1) / 2 ^ 54" using assms(3) by (simp add: field_simps)
      then show ?thesis using to_float_le [OF _ _ below, of ?x] k assms(3) by auto
    qed
    then have "\<not> float_le (Fin (1 / 2)) (to_float ?x)" by auto
    then show ?thesis using False by (simp add: q)
  qed
qed

end
