(* ===== verification/GoConv.thy ===== *)
theory GoConv
  imports GoFloat
begin

text \<open>
  The text conversions of Go's standard library that configuration goes through: \<open>strconv.ParseBool\<close>,
  \<open>strconv.ParseFloat\<close> with its special values, hexadecimal form and underscores, and
  \<open>time.ParseDuration\<close> with its overflow checks and its fraction in \<open>float64\<close>. Each returns \<^const>\<open>None\<close>
  for any error of the library.
\<close>

section \<open>Booleans\<close>

definition parse_bool :: "string \<Rightarrow> bool option" where
  "parse_bool s =
     (if List.member [''1'', ''t'', ''T'', ''true'', ''TRUE'', ''True''] s then Some True
      else if List.member [''0'', ''f'', ''F'', ''false'', ''FALSE'', ''False''] s then Some False
      else None)"

section \<open>Floats\<close>

definition has_sign :: "string \<Rightarrow> bool" where
  "has_sign s \<longleftrightarrow> s \<noteq> [] \<and> (hd s = CHR ''-'' \<or> hd s = CHR ''+'')"

definition is_negative :: "string \<Rightarrow> bool" where
  "is_negative s \<longleftrightarrow> s \<noteq> [] \<and> hd s = CHR ''-''"

definition unsigned :: "string \<Rightarrow> string" where
  "unsigned s = (if has_sign s then tl s else s)"

definition special_float :: "string \<Rightarrow> float64 option" where
  "special_float s =
     (if equal_fold_ascii s ''nan'' then Some NaN
      else if equal_fold_ascii (unsigned s) ''inf'' \<or> equal_fold_ascii (unsigned s) ''infinity''
      then Some (Inf (is_negative s)) else None)"

definition hex_letter :: "char \<Rightarrow> bool" where
  "hex_letter c \<longleftrightarrow> 97 \<le> byte (ascii_lower c) \<and> byte (ascii_lower c) \<le> 102"

definition is_digit_of :: "bool \<Rightarrow> char \<Rightarrow> bool" where
  "is_digit_of hex c \<longleftrightarrow> is_digit c \<or> hex \<and> hex_letter c"

definition hex_value :: "char \<Rightarrow> nat" where
  "hex_value c = (if is_digit c then digit_value c else byte (ascii_lower c) - 87)"

text \<open>The digits of the mantissa, how many of them follow the point, and what is left.\<close>

fun mantissa :: "bool \<Rightarrow> bool \<Rightarrow> string \<Rightarrow> nat list \<times> nat \<times> string" where
  "mantissa hex dot [] = ([], 0, [])"
| "mantissa hex dot (c # s) =
     (if c = CHR ''_'' then mantissa hex dot s
      else if c = CHR ''.'' then (if dot then ([], 0, c # s) else mantissa hex True s)
      else if is_digit_of hex c then
        (case mantissa hex dot s of (ds, k, r) \<Rightarrow> (hex_value c # ds, if dot then Suc k else k, r))
      else ([], 0, c # s))"

text \<open>The exponent digits; the code stops adding digits once 10000 is reached.\<close>

fun exponent_digits :: "nat \<Rightarrow> string \<Rightarrow> nat \<times> string" where
  "exponent_digits e [] = (e, [])"
| "exponent_digits e (c # s) =
     (if c = CHR ''_'' then exponent_digits e s
      else if is_digit c then exponent_digits (if e < 10000 then 10 * e + digit_value c else e) s
      else (e, c # s))"

definition scan_exponent :: "string \<Rightarrow> int option" where
  "scan_exponent s =
     (let t = unsigned s
      in if t = [] \<or> \<not> is_digit (hd t) then None
         else (case exponent_digits 0 t of (e, r) \<Rightarrow>
           if r = [] then Some (if is_negative s then - int e else int e) else None))"

text \<open>Underscores must stand between digits, or between a base prefix and a digit.\<close>

datatype last_seen = Beginning | SawDigit | SawUnderscore | SawOther

fun underscores_ok :: "bool \<Rightarrow> last_seen \<Rightarrow> string \<Rightarrow> bool" where
  "underscores_ok hex saw [] \<longleftrightarrow> saw \<noteq> SawUnderscore"
| "underscores_ok hex saw (c # s) \<longleftrightarrow>
     (if is_digit_of hex c then underscores_ok hex SawDigit s
      else if c = CHR ''_'' then saw = SawDigit \<and> underscores_ok hex SawUnderscore s
      else saw \<noteq> SawUnderscore \<and> underscores_ok hex SawOther s)"

definition base_prefix :: "string \<Rightarrow> string" where
  "base_prefix s = (if 2 \<le> length s \<and> hd s = CHR ''0'' then [ascii_lower (s ! 1)] else [])"

definition underscore_ok :: "string \<Rightarrow> bool" where
  "underscore_ok s =
     (let t = unsigned s; p = base_prefix t
      in if p = ''b'' \<or> p = ''o'' \<or> p = ''x'' then underscores_ok (p = ''x'') SawDigit (drop 2 t)
         else underscores_ok False Beginning t)"

definition number_value :: "nat \<Rightarrow> nat list \<Rightarrow> int" where
  "number_value b ds = int (foldl (\<lambda>n d. b * n + d) 0 ds)"

definition read_float :: "string \<Rightarrow> rat option" where
  "read_float s =
     (let t = unsigned s; hex = (2 < length t \<and> base_prefix t = ''x'') in
      case mantissa hex False (if hex then drop 2 t else t) of (ds, k, r) \<Rightarrow>
        if ds = [] \<or> (List.member s (CHR ''_'') \<and> \<not> underscore_ok s) then None
        else (let exp_char = (if hex then CHR ''p'' else CHR ''e'');
                  m = number_value (if hex then 16 else 10) ds;
                  scaled = (\<lambda>e. if hex then of_int m * 2 powi (e - 4 * int k) else of_int m * 10 powi (e - int k))
              in if r \<noteq> [] \<and> ascii_lower (hd r) = exp_char
                 then map_option (\<lambda>e. (if is_negative s then -1 else 1) * scaled e) (scan_exponent (tl r))
                 else if hex \<or> r \<noteq> [] then None
                 else Some ((if is_negative s then -1 else 1) * scaled 0)))"

text \<open>\<open>ParseFloat(s, 64)\<close>: a finite text that rounds to infinity is a range error.\<close>

definition parse_float :: "string \<Rightarrow> float64 option" where
  "parse_float s =
     (case special_float s of
        Some f \<Rightarrow> Some f
      | None \<Rightarrow> (case read_float s of
          None \<Rightarrow> None
        | Some x \<Rightarrow> (case to_float x of Fin y \<Rightarrow> Some (Fin y) | _ \<Rightarrow> None)))"

section \<open>Durations\<close>

definition duration_units :: "(string \<times> nat) list" where
  "duration_units =
     [(''ns'', 1), (''us'', 1000), (bytes [0xC2, 0xB5, 0x73], 1000), (bytes [0xCE, 0xBC, 0x73], 1000),
      (''ms'', 1000000), (''s'', 1000000000), (''m'', 60000000000), (''h'', 3600000000000)]"

text \<open>\<open>leadingInt\<close>: \<^const>\<open>None\<close> on overflow.\<close>

fun leading_int :: "nat \<Rightarrow> string \<Rightarrow> (nat \<times> string) option" where
  "leading_int x [] = Some (x, [])"
| "leading_int x (c # s) =
     (if \<not> is_digit c then Some (x, c # s)
      else if x > 2 ^ 63 div 10 \<or> 10 * x + digit_value c > 2 ^ 63 then None
      else leading_int (10 * x + digit_value c) s)"

text \<open>\<open>leadingFraction\<close>: the digits past an overflow are skipped. The scale is ten to the second result.\<close>

fun leading_fraction :: "bool \<Rightarrow> nat \<Rightarrow> nat \<Rightarrow> string \<Rightarrow> nat \<times> nat \<times> string" where
  "leading_fraction full x k [] = (x, k, [])"
| "leading_fraction full x k (c # s) =
     (if \<not> is_digit c then (x, k, c # s)
      else if full \<or> x > (2 ^ 63 - 1) div 10 \<or> 10 * x + digit_value c > 2 ^ 63 then leading_fraction True x k s
      else leading_fraction False (10 * x + digit_value c) (Suc k) s)"

text \<open>\<open>uint64(float64(f) * (float64(unit) / scale))\<close>, all of it finite.\<close>

definition finite_value :: "float64 \<Rightarrow> rat" where
  "finite_value f = (case f of Fin x \<Rightarrow> x | _ \<Rightarrow> 0)"

definition fraction_nanos :: "nat \<Rightarrow> nat \<Rightarrow> nat \<Rightarrow> nat" where
  "fraction_nanos f unit k =
     (let per = to_float (of_nat unit / 10 ^ k)
      in nat \<lfloor>finite_value (to_float (finite_value (to_float (of_nat f)) * finite_value per))\<rfloor>)"

definition unit_char :: "char \<Rightarrow> bool" where
  "unit_char c \<longleftrightarrow> c \<noteq> CHR ''.'' \<and> \<not> is_digit c"

text \<open>One number and its unit: its nanoseconds and what is left.\<close>

definition take_duration :: "string \<Rightarrow> (nat \<times> string) option" where
  "take_duration s =
     (if \<not> (s \<noteq> [] \<and> (hd s = CHR ''.'' \<or> is_digit (hd s))) then None
      else (case leading_int 0 s of
        None \<Rightarrow> None
      | Some (v, s1) \<Rightarrow>
          (let pre = length s1 \<noteq> length s;
               point = (s1 \<noteq> [] \<and> hd s1 = CHR ''.'');
               (f, k, s2) = (if point then leading_fraction False 0 0 (tl s1) else (0, 0, s1));
               post = (point \<and> length s2 \<noteq> length (tl s1));
               u = takeWhile unit_char s2
           in if \<not> pre \<and> \<not> post \<or> u = [] then None
              else (case map_of duration_units u of
                None \<Rightarrow> None
              | Some unit \<Rightarrow>
                  if v > 2 ^ 63 div unit then None
                  else (let w = (if f > 0 then v * unit + fraction_nanos f unit k else v * unit)
                        in if w > 2 ^ 63 then None else Some (w, dropWhile unit_char s2))))))"

lemma leading_int_length: "leading_int x s = Some (v, r) \<Longrightarrow> length r \<le> length s"
  by (induction x s rule: leading_int.induct) (auto split: if_splits)

lemma leading_fraction_length: "leading_fraction full x k s = (f, j, r) \<Longrightarrow> length r \<le> length s"
  by (induction full x k s rule: leading_fraction.induct) (auto split: if_splits)

lemma dropWhile_shorter: "takeWhile P s \<noteq> [] \<Longrightarrow> length (dropWhile P s) < length s"
  by (cases s) (auto intro: le_imp_less_Suc length_dropWhile_le split: if_splits)

lemma take_duration_shorter: "take_duration s = Some (w, r) \<Longrightarrow> length r < length s"
proof -
  assume a: "take_duration s = Some (w, r)"
  then obtain v s1 where l: "leading_int 0 s = Some (v, s1)"
    by (auto simp: take_duration_def split: if_splits option.splits)
  obtain f k s2 where s2: "(if s1 \<noteq> [] \<and> hd s1 = CHR ''.'' then leading_fraction False 0 0 (tl s1) else (0, 0, s1)) = (f, k, s2)"
    by (cases "if s1 \<noteq> [] \<and> hd s1 = CHR ''.'' then leading_fraction False 0 0 (tl s1) else (0, 0, s1)") auto
  then have "length s2 \<le> length s1"
    using leading_fraction_length [of False 0 0 "tl s1" f k s2] by (auto split: if_splits)
  moreover have "takeWhile unit_char s2 \<noteq> []" "r = dropWhile unit_char s2"
    using a l s2 by (auto simp: take_duration_def Let_def split: if_splits option.splits)
  ultimately show ?thesis
    using leading_int_length [OF l] dropWhile_shorter [of unit_char s2] by simp
qed

function sum_durations :: "nat \<Rightarrow> string \<Rightarrow> nat option" where
  "sum_durations d s =
     (if s = [] then Some d
      else (case take_duration s of
          None \<Rightarrow> None
        | Some (w, r) \<Rightarrow> if d + w > 2 ^ 63 then None else sum_durations (d + w) r))"
  by pat_completeness auto
termination
  by (relation "measure (\<lambda>(d, s). length s)") (auto simp: take_duration_shorter)

declare sum_durations.simps [simp del]

definition parse_duration :: "string \<Rightarrow> duration option" where
  "parse_duration s =
     (let t = unsigned s
      in if t = ''0'' then Some 0
         else if t = [] then None
         else (case sum_durations 0 t of
             None \<Rightarrow> None
           | Some d \<Rightarrow> if is_negative s then Some (wrap64 (- int d))
                       else if d > 2 ^ 63 - 1 then None else Some (int d)))"

section \<open>Lemmas\<close>

lemma parse_duration_is_int64: "parse_duration s = Some d \<Longrightarrow> is_int64 d"
  by (auto simp: parse_duration_def is_int64_def Let_def split: if_splits option.splits)
     (simp_all add: wrap64_def)

text \<open>The loop over the digits stops exactly where the value no longer fits.\<close>

definition digits_from :: "nat \<Rightarrow> string \<Rightarrow> nat" where
  "digits_from x ds = foldl (\<lambda>n c. 10 * n + digit_value c) x ds"

lemma digits_from_simps [simp]: "digits_from x [] = x" "digits_from x (c # ds) = digits_from (10 * x + digit_value c) ds"
  by (simp_all add: digits_from_def)

lemma digits_from_ge: "x \<le> digits_from x ds"
proof (induction ds arbitrary: x)
  case Nil
  then show ?case by simp
next
  case (Cons c ds)
  have "x \<le> 10 * x + digit_value c" by simp
  also note Cons.IH
  finally show ?case by simp
qed

lemma leading_int_digits:
  assumes "digits_only ds" "r = [] \<or> \<not> is_digit (hd r)" "x \<le> 2 ^ 63"
  shows "leading_int x (ds @ r) = (if digits_from x ds \<le> 2 ^ 63 then Some (digits_from x ds, r) else None)"
  using assms
proof (induction ds arbitrary: x)
  case Nil
  then show ?case by (cases r) auto
next
  case (Cons c ds)
  let ?y = "10 * x + digit_value c"
  have ge: "?y \<le> digits_from ?y ds" by (rule digits_from_ge)
  have "x > 2 ^ 63 div 10 \<Longrightarrow> ?y > 2 ^ 63" by simp
  then show ?case using Cons ge by auto
qed

lemma unit_letters:
  assumes "(u, unit) \<in> set duration_units"
  shows "u \<noteq> []" "takeWhile unit_char u = u" "dropWhile unit_char u = []" "0 < unit"
    "\<not> is_digit (hd u)" "hd u \<noteq> CHR ''.''"
proof -
  have "list_all (\<lambda>(u, unit). u \<noteq> [] \<and> list_all unit_char u \<and> 0 < unit) duration_units" by code_simp
  then have u: "u \<noteq> []" "\<forall>c \<in> set u. unit_char c" "0 < unit" using assms by (auto simp: list_all_iff)
  then show "u \<noteq> []" "takeWhile unit_char u = u" "dropWhile unit_char u = []" "0 < unit"
    by (simp_all add: takeWhile_eq_all_conv dropWhile_eq_Nil_conv)
  have "unit_char (hd u)" using u(1,2) by simp
  then show "\<not> is_digit (hd u)" "hd u \<noteq> CHR ''.''" by (simp_all add: unit_char_def)
qed

lemma duration_units_distinct: "distinct (map fst duration_units)"
  by code_simp

lemma take_duration_whole:
  assumes "digits_only ds" "ds \<noteq> []" "(u, unit) \<in> set duration_units"
  shows "take_duration (ds @ u) = (if digits_value ds * unit \<le> 2 ^ 63 then Some (digits_value ds * unit, []) else None)"
proof -
  let ?v = "digits_value ds"
  note u = unit_letters [OF assms(3)]
  have hd: "is_digit (hd (ds @ u))" using assms(1,2) by (cases ds) auto
  have "digits_from 0 ds = ?v" by (simp add: digits_from_def digits_value_def)
  then have l: "leading_int 0 (ds @ u) = (if ?v \<le> 2 ^ 63 then Some (?v, u) else None)"
    using leading_int_digits [of ds u 0] assms(1) u(5) by simp
  have m: "map_of duration_units u = Some unit"
    using assms(3) duration_units_distinct by (rule map_of_is_SomeI [rotated])
  have fits: "?v > 2 ^ 63 div unit \<longleftrightarrow> ?v * unit > 2 ^ 63"
    using u(4) by (simp only: div_less_iff_less_mult)
  have "?v * unit \<le> 2 ^ 63 \<Longrightarrow> ?v \<le> 2 ^ 63"
    using u(4) le_trans [of ?v "?v * unit" "2 ^ 63"] by simp
  then show ?thesis
    using hd assms(2) fits unfolding take_duration_def l
    by (cases "?v * unit \<le> 2 ^ 63"; cases "?v \<le> 2 ^ 63")
       (simp_all add: Let_def not_le u m del: takeWhile_eq_Nil_iff)
qed

text \<open>A whole number of units, as all the defaults and the documentation write durations.\<close>

lemma parse_duration_whole:
  assumes "digits_only ds" "ds \<noteq> []" "(u, unit) \<in> set duration_units"
  shows "parse_duration (ds @ u) =
    (if digits_value ds * unit < 2 ^ 63 then Some (int (digits_value ds * unit)) else None)"
proof -
  have "u \<noteq> []" by (rule unit_letters(1) [OF assms(3)])
  moreover have "is_digit (hd (ds @ u))" using assms(1,2) by (cases ds) auto
  then have "hd (ds @ u) \<noteq> CHR ''-''" "hd (ds @ u) \<noteq> CHR ''+''" by (auto simp: char_class_defs)
  moreover have "ds @ u \<noteq> ''0''" using assms(2) \<open>u \<noteq> []\<close> by (cases ds; cases u) auto
  ultimately show ?thesis
    using take_duration_whole [OF assms] assms(2)
    by (simp add: parse_duration_def unsigned_def has_sign_def is_negative_def
        sum_durations.simps [of _ "ds @ u"] sum_durations.simps [of _ "[]"])
qed

text \<open>Only a text that says so is not a number.\<close>

lemma to_float_not_NaN: "to_float x \<noteq> NaN"
  by (simp add: to_float_def Let_def)

lemma parse_float_NaN: "parse_float s = Some NaN \<longleftrightarrow> equal_fold_ascii s ''nan''"
  by (auto simp: parse_float_def special_float_def split: option.splits float64.splits if_splits)

end
