(* ===== verification/Settings.thy ===== *)
theory Settings
  imports GoConv "HOL-Library.State_Monad"
begin

text \<open>
  \<open>internal/platform/secrets\<close> and \<open>internal/platform/config\<close>: where values come from, how a secret is
  masked, and the loader, which goes on after a bad value and keeps a list of everything that was wrong.
  The loader is a state monad over that list; each getter reads one key.
\<close>

section \<open>Secrets\<close>

text \<open>A \<open>Provider\<close>; \<^const>\<open>None\<close> is not found. The process environment and a map give one each.\<close>

type_synonym provider = "string \<Rightarrow> string option"

definition EnvProvider :: "(string \<Rightarrow> string option) \<Rightarrow> provider" where
  "EnvProvider lookup name = (case lookup name of None \<Rightarrow> None | Some v \<Rightarrow> if v = [] then None else Some v)"

definition MapProvider :: "(string \<times> string) list \<Rightarrow> provider" where
  "MapProvider m name = (case map_of m name of None \<Rightarrow> None | Some v \<Rightarrow> if v = [] then None else Some v)"

definition Mask :: "string \<Rightarrow> string" where
  "Mask s = (if length s < 8 then ''****'' else ''****'' @ drop (length s - 4) s)"

text \<open>A secret value: what it shows when it is formatted, logged or marshalled is the mask.\<close>

datatype secret = Secret (Reveal: string)

definition secret_String :: "secret \<Rightarrow> string" where
  "secret_String v = Mask (Reveal v)"

section \<open>The loader\<close>

datatype problem =
    Required
  | NotAnInteger string
  | NotANumber string
  | NotAProbability float64
  | NotADuration string
  | NotABoolean string
  | NotAPort int

text \<open>\<open>config <key>: <problem>\<close>. Only the errors are state: the provider never changes.\<close>

type_synonym load_error = "string \<times> problem"
type_synonym 'a loading = "(load_error list, 'a) state"

definition loader_fail :: "string \<Rightarrow> problem \<Rightarrow> unit loading" where
  "loader_fail key err = State (\<lambda>errs. ((), errs @ [(key, err)]))"

definition loader_Err :: "load_error list \<Rightarrow> load_error list option" where
  "loader_Err errs = (if errs = [] then None else Some errs)"

definition loader_String :: "provider \<Rightarrow> string \<Rightarrow> string \<Rightarrow> string loading" where
  "loader_String src key def =
     State_Monad.return (case src key of Some v \<Rightarrow> v | None \<Rightarrow> def)"

definition loader_RequiredString :: "provider \<Rightarrow> string \<Rightarrow> string loading" where
  "loader_RequiredString src key =
     (case src key of
        None \<Rightarrow> do { loader_fail key Required; State_Monad.return [] }
      | Some v \<Rightarrow> State_Monad.return v)"

definition loader_RequiredSecret :: "provider \<Rightarrow> string \<Rightarrow> secret loading" where
  "loader_RequiredSecret src key = do { v \<leftarrow> loader_RequiredString src key; State_Monad.return (Secret v) }"

text \<open>A value that is there and malformed is an error and never silently the default.\<close>

definition loader_parsed :: "(string \<Rightarrow> 'a option) \<Rightarrow> (string \<Rightarrow> problem) \<Rightarrow> provider \<Rightarrow> string \<Rightarrow> 'a \<Rightarrow> 'a loading" where
  "loader_parsed parse wrong src key def =
     (case src key of
        None \<Rightarrow> State_Monad.return def
      | Some v \<Rightarrow> (case parse v of
          None \<Rightarrow> do { loader_fail key (wrong v); State_Monad.return def }
        | Some x \<Rightarrow> State_Monad.return x))"

definition loader_Int :: "provider \<Rightarrow> string \<Rightarrow> int \<Rightarrow> int loading" where
  "loader_Int = loader_parsed parse_int NotAnInteger"

definition loader_Float :: "provider \<Rightarrow> string \<Rightarrow> float64 \<Rightarrow> float64 loading" where
  "loader_Float = loader_parsed parse_float NotANumber"

definition loader_Duration :: "provider \<Rightarrow> string \<Rightarrow> duration \<Rightarrow> duration loading" where
  "loader_Duration = loader_parsed parse_duration NotADuration"

definition loader_Bool :: "provider \<Rightarrow> string \<Rightarrow> bool \<Rightarrow> bool loading" where
  "loader_Bool = loader_parsed parse_bool NotABoolean"

definition loader_Rate :: "provider \<Rightarrow> string \<Rightarrow> float64 \<Rightarrow> float64 loading" where
  "loader_Rate src key def = do {
     f \<leftarrow> loader_Float src key def;
     (if f < Fin 0 \<or> Fin 1 < f
      then do { loader_fail key (NotAProbability f); State_Monad.return def }
      else State_Monad.return f)
   }"

definition loader_Port :: "provider \<Rightarrow> string \<Rightarrow> int \<Rightarrow> int loading" where
  "loader_Port src key def = do {
     p \<leftarrow> loader_Int src key def;
     (if p < 1 \<or> p > 65535
      then do { loader_fail key (NotAPort p); State_Monad.return def }
      else State_Monad.return p)
   }"

section \<open>What a getter does\<close>

text \<open>
  A getter is described by its result and by the problems it adds, both functions of the provider alone:
  it never looks at the errors before it.
\<close>

definition getter :: "'a loading \<Rightarrow> 'a \<Rightarrow> load_error list \<Rightarrow> bool" where
  "getter m x new \<longleftrightarrow> (\<forall>errs. run_state m errs = (x, errs @ new))"

named_theorems getters

lemma getter_return [getters]: "getter (State_Monad.return x) x []"
  by (simp add: getter_def)

lemma getter_fail [getters]: "getter (loader_fail key err) () [(key, err)]"
  by (simp add: getter_def loader_fail_def)

lemma getter_bind: "getter m x a \<Longrightarrow> getter (f x) y b \<Longrightarrow> getter (State_Monad.bind m f) y (a @ b)"
  by (simp add: getter_def)

lemma getter_run: "getter m x new \<Longrightarrow> run_state m [] = (x, new)"
  by (simp add: getter_def)

definition parsed_value :: "(string \<Rightarrow> 'a option) \<Rightarrow> provider \<Rightarrow> string \<Rightarrow> 'a \<Rightarrow> 'a" where
  "parsed_value parse src key def =
     (case src key of None \<Rightarrow> def | Some v \<Rightarrow> (case parse v of None \<Rightarrow> def | Some x \<Rightarrow> x))"

definition parsed_problems :: "(string \<Rightarrow> 'a option) \<Rightarrow> (string \<Rightarrow> problem) \<Rightarrow> provider \<Rightarrow> string \<Rightarrow> load_error list" where
  "parsed_problems parse wrong src key =
     (case src key of None \<Rightarrow> [] | Some v \<Rightarrow> if parse v = None then [(key, wrong v)] else [])"

definition rate_ok :: "float64 \<Rightarrow> bool" where
  "rate_ok f \<longleftrightarrow> \<not> f < Fin 0 \<and> \<not> Fin 1 < f"

definition port_ok :: "int \<Rightarrow> bool" where
  "port_ok p \<longleftrightarrow> 1 \<le> p \<and> p \<le> 65535"

definition rate_value :: "provider \<Rightarrow> string \<Rightarrow> float64 \<Rightarrow> float64" where
  "rate_value src key def = (let f = parsed_value parse_float src key def in if rate_ok f then f else def)"

definition rate_problems :: "provider \<Rightarrow> string \<Rightarrow> float64 \<Rightarrow> load_error list" where
  "rate_problems src key def =
     parsed_problems parse_float NotANumber src key
     @ (let f = parsed_value parse_float src key def in if rate_ok f then [] else [(key, NotAProbability f)])"

definition port_value :: "provider \<Rightarrow> string \<Rightarrow> int \<Rightarrow> int" where
  "port_value src key def = (let p = parsed_value parse_int src key def in if port_ok p then p else def)"

definition port_problems :: "provider \<Rightarrow> string \<Rightarrow> int \<Rightarrow> load_error list" where
  "port_problems src key def =
     parsed_problems parse_int NotAnInteger src key
     @ (let p = parsed_value parse_int src key def in if port_ok p then [] else [(key, NotAPort p)])"

definition required_problems :: "provider \<Rightarrow> string \<Rightarrow> load_error list" where
  "required_problems src key = (if src key = None then [(key, Required)] else [])"

definition text_value :: "provider \<Rightarrow> string \<Rightarrow> string \<Rightarrow> string" where
  "text_value src key def = (case src key of Some v \<Rightarrow> v | None \<Rightarrow> def)"

lemma getter_parsed:
  "getter (loader_parsed parse wrong src key def) (parsed_value parse src key def)
     (parsed_problems parse wrong src key)"
  by (simp add: getter_def loader_parsed_def parsed_value_def parsed_problems_def loader_fail_def
      split: option.split)

lemma getter_Int [getters]:
  "getter (loader_Int src key def) (parsed_value parse_int src key def) (parsed_problems parse_int NotAnInteger src key)"
  unfolding loader_Int_def by (rule getter_parsed)

lemma getter_Duration [getters]:
  "getter (loader_Duration src key def) (parsed_value parse_duration src key def)
     (parsed_problems parse_duration NotADuration src key)"
  unfolding loader_Duration_def by (rule getter_parsed)

lemma getter_Bool [getters]:
  "getter (loader_Bool src key def) (parsed_value parse_bool src key def) (parsed_problems parse_bool NotABoolean src key)"
  unfolding loader_Bool_def by (rule getter_parsed)

lemma getter_String [getters]: "getter (loader_String src key def) (text_value src key def) []"
  by (simp add: getter_def loader_String_def text_value_def)

lemma getter_RequiredSecret [getters]:
  "getter (loader_RequiredSecret src key) (Secret (text_value src key [])) (required_problems src key)"
  by (simp add: getter_def loader_RequiredSecret_def loader_RequiredString_def loader_fail_def
      text_value_def required_problems_def split: option.split)

lemma getter_Rate [getters]: "getter (loader_Rate src key def) (rate_value src key def) (rate_problems src key def)"
  using getter_parsed [of parse_float NotANumber src key def]
  by (auto simp: getter_def loader_Rate_def loader_Float_def loader_fail_def rate_value_def rate_problems_def
      rate_ok_def Let_def)

lemma getter_Port [getters]: "getter (loader_Port src key def) (port_value src key def) (port_problems src key def)"
  using getter_parsed [of parse_int NotAnInteger src key def]
  by (auto simp: getter_def loader_Port_def loader_Int_def loader_fail_def port_value_def port_problems_def
      port_ok_def Let_def)

end
