(* ===== verification/Vendor.thy ===== *)
theory Vendor
  imports Httpx
begin

text \<open>
  \<open>internal/cqappmiddleware/vendor.go\<close>: one call to the vendor, and the classification of whatever
  comes back into the taxonomy of \<open>httpx\<close> together with the two policy markers, transient and
  request fault. The contract every quote source shares is the locale \<open>quote_source\<close>.
\<close>

section \<open>Types and markers\<close>

definition maxVendorBody :: nat where "maxVendorBody = 2 ^ 20"
definition apiKeyHeader :: string where "apiKeyHeader = ''api-key''"

record Quote =
  QuoteID :: string
  CommissionRate :: Rate
  TotalCommission :: Amount

definition zero_Quote :: Quote where
  "zero_Quote = \<lparr>QuoteID = [], CommissionRate = zero_Rate, TotalCommission = zero_Amount\<rparr>"

record vendorQuote =
  vq_QuoteID :: string
  vq_CommissionRate :: string
  vq_TotalCommission :: string

record VendorClient =
  vc_baseURL :: string
  vc_apiKey :: string
  vc_timeout :: duration

text \<open>\<open>QuoteSource\<close>: the interface the handler depends on.\<close>

type_synonym QuoteSource = "Quote source"

definition transient :: "httpx_error \<Rightarrow> go_error" where
  "transient e = WrapError ''%w: %w'' [SentinelError ErrTransient, HttpxError e]"

definition circuitOpen :: "duration \<Rightarrow> go_error" where
  "circuitOpen retry_after = HttpxError (CircuitOpen retry_after)"

definition requestFault :: "httpx_error \<Rightarrow> go_error" where
  "requestFault e = WrapError ''%w: %w'' [SentinelError ErrRequestFault, HttpxError e]"

section \<open>The request\<close>

text \<open>
  \<open>json.Marshal\<close> of the three-entry map, whose keys it sorts. It cannot fail here: the raw amount is
  always a JSON number.
\<close>

definition vendor_request_body :: "QuoteRequest \<Rightarrow> string" where
  "vendor_request_body req =
     json_object [(''loanAmount'', Amount_String (req_Amount req)),
                  (''loanTermInMonths'', itoa (req_Months req)),
                  (''riskBand'', json_string (req_RiskBand req))]"

definition vendor_headers :: "VendorClient \<Rightarrow> ctx \<Rightarrow> (string \<times> string) list" where
  "vendor_headers cl c =
     [(''Content-Type'', ''application/json''), (apiKeyHeader, vc_apiKey cl)]
     @ (if ctx_correlation c \<noteq> [] then [(CorrelationHeader, ctx_correlation c)] else [])"

section \<open>The response\<close>

definition transportError :: "ctx \<Rightarrow> instant \<Rightarrow> go_error \<Rightarrow> go_error" where
  "transportError c now err =
     (if errors_is DeadlineExceeded err \<or> ctx_err c now = Some DeadlineExceeded
      then transient (UpstreamTimeout (Some err))
      else if errors_is Canceled err then HttpxError (UpstreamTimeout (Some err))
      else transient (UpstreamUnavailable (Some err)))"

definition retryAfter :: "wire_response \<Rightarrow> duration" where
  "retryAfter resp =
     (let v = ws_retry_after resp
      in if v = [] then 0
         else (case parse_int v of
             None \<Rightarrow> 0
           | Some secs \<Rightarrow> if secs < 0 then 0 else wrap64 (secs * second)))"

definition vendor_fields :: "string list" where
  "vendor_fields = [''quoteId'', ''commissionRate'', ''totalCommission'']"

text \<open>\<open>json.Unmarshal\<close> into \<open>vendorQuote\<close>: unknown keys are ignored, null leaves the zero value.\<close>

definition decode_vendorQuote :: "string \<Rightarrow> vendorQuote option" where
  "decode_vendorQuote body =
     (case unmarshal body of
        None \<Rightarrow> None
      | Some (JOther _) \<Rightarrow> None
      | Some JNull \<Rightarrow> Some \<lparr>vq_QuoteID = [], vq_CommissionRate = [], vq_TotalCommission = []\<rparr>
      | Some (JObject ms) \<Rightarrow>
          map_option (\<lambda>qid. \<lparr>vq_QuoteID = qid,
              vq_CommissionRate = raw_field vendor_fields ''commissionRate'' ms,
              vq_TotalCommission = raw_field vendor_fields ''totalCommission'' ms\<rparr>)
            (string_field vendor_fields ''quoteId'' ms))"

definition contract_error :: "string \<Rightarrow> go_error + 'a" where
  "contract_error m = Inl (HttpxError (UpstreamContract (Some (PlainError m))))"

definition decode_quote :: "wire_response \<Rightarrow> go_error + Quote" where
  "decode_quote resp =
     (case ws_body resp of
        Inl err \<Rightarrow>
          Inl (HttpxError (UpstreamContract (Some (WrapError ''read vendor response: %w'' [err]))))
      | Inr body \<Rightarrow>
          (case decode_vendorQuote (take maxVendorBody body) of
             None \<Rightarrow> contract_error ''vendor response is not valid JSON''
           | Some vq \<Rightarrow>
               if vq_QuoteID vq = [] then contract_error ''vendor response has no quoteId''
               else (case numberText (vq_CommissionRate vq) of (rateText, ok) \<Rightarrow>
                 if \<not> ok then contract_error ''vendor commissionRate is not a number''
                 else (case ParseRate rateText of
                     Inl _ \<Rightarrow> contract_error ''vendor commissionRate''
                   | Inr rate \<Rightarrow>
                       (case numberText (vq_TotalCommission vq) of (totalText, ok') \<Rightarrow>
                         if \<not> ok' then contract_error ''vendor totalCommission is not a number''
                         else (case ParseAmount totalText of
                             Inl _ \<Rightarrow> contract_error ''vendor totalCommission''
                           | Inr tot \<Rightarrow>
                               Inr \<lparr>QuoteID = vq_QuoteID vq, CommissionRate = rate,
                                    TotalCommission = tot\<rparr>))))))"

definition translate :: "wire_response \<Rightarrow> go_error + Quote" where
  "translate resp =
     (let code = ws_status resp in
      if code = 201 then decode_quote resp
      else if code = 429 then
        Inl (transient (with_RetryAfter (retryAfter resp)
              (UpstreamUnavailable (Some (PlainError ''vendor rate limited us'')))))
      else if code = 502 \<or> code = 503 \<or> code = 504 then
        Inl (transient (UpstreamUnavailable (Some (PlainError (''vendor returned '' @ itoa code)))))
      else if code = 401 \<or> code = 403 then
        Inl (HttpxError (UpstreamUnavailable
              (Some (PlainError (''vendor rejected api-key with '' @ itoa code)))))
      else if code = 400 then
        Inl (requestFault (UpstreamContract
              (Some (PlainError ''vendor rejected a request we validated''))))
      else Inl (HttpxError (UpstreamUnavailable (Some (PlainError (''vendor returned '' @ itoa code))))))"

definition VendorClient_Quote :: "env \<Rightarrow> VendorClient \<Rightarrow> QuoteSource" where
  "VendorClient_Quote e cl c req w =
     (let body = vendor_request_body req in
      case env_join_path e (vc_baseURL cl) ''/v1/quotes'' of
        None \<Rightarrow> (Inl (HttpxError (Internal (Some (PlainError ''build vendor url'')))), w)
      | Some endpoint \<Rightarrow>
          if \<not> env_request_ok e endpoint then
            (Inl (HttpxError (Internal (Some (PlainError ''build vendor request'')))), w)
          else
            (case http_do e (vc_timeout cl) c
                \<lparr>wr_url = endpoint, wr_headers = vendor_headers cl c, wr_body = body\<rparr> w of
               (NoResponse err, w') \<Rightarrow> (Inl (transportError c (w_clock w') err), w')
             | (Response resp, w') \<Rightarrow> (translate resp, w')))"

section \<open>Lemmas\<close>

lemma errors_is_transient [simp]:
  "errors_is s (transient e) \<longleftrightarrow> s = ErrTransient \<or> errors_is s (HttpxError e)"
  by (auto simp: transient_def)

lemma errors_is_requestFault [simp]:
  "errors_is s (requestFault e) \<longleftrightarrow> s = ErrRequestFault \<or> errors_is s (HttpxError e)"
  by (auto simp: requestFault_def)

lemma errors_as_marked [simp]:
  "errors_as (transient e) = Some e" "errors_as (requestFault e) = Some e"
  by (simp_all add: transient_def requestFault_def)

lemma errors_is_class [simp]:
  "errors_is s (HttpxError (UpstreamUnavailable (Some x))) \<longleftrightarrow> errors_is s x"
  "errors_is s (HttpxError (UpstreamContract (Some x))) \<longleftrightarrow> errors_is s x"
  "errors_is s (HttpxError (UpstreamTimeout (Some x))) \<longleftrightarrow> errors_is s x"
  "errors_is s (HttpxError (Internal (Some x))) \<longleftrightarrow> errors_is s x"
  "errors_is s (HttpxError (with_RetryAfter d e)) \<longleftrightarrow> errors_is s (HttpxError e)"
  by (simp_all add: error_class_defs errors_is_HttpxError)

text \<open>
  The errors the transport hands up do not carry our markers: they come from \<open>net/http\<close>, which has
  never heard of them.
\<close>

definition unmarked :: "go_error \<Rightarrow> bool" where
  "unmarked err \<longleftrightarrow> \<not> errors_is ErrTransient err \<and> \<not> errors_is ErrRequestFault err"

definition transport_unmarked :: "env \<Rightarrow> bool" where
  "transport_unmarked e \<longleftrightarrow>
     (\<forall>w t c. case fst (env_do e w t c) of
        NoResponse err \<Rightarrow> unmarked err
      | Response resp \<Rightarrow> (case ws_body resp of Inl err \<Rightarrow> unmarked err | Inr _ \<Rightarrow> True))"

lemma decode_quote_unmarked:
  "decode_quote resp = Inl err \<Longrightarrow> (\<And>x. ws_body resp = Inl x \<Longrightarrow> unmarked x)
    \<Longrightarrow> unmarked err \<and> map_option Code (errors_as err) = Some CodeUpstreamContract"
  by (auto simp: decode_quote_def contract_error_def unmarked_def UpstreamContract_def
      split: sum.splits option.splits prod.splits if_splits)

section \<open>The contract of a quote source\<close>

text \<open>
  A call may put up to \<open>cost\<close> requests on the wire, never takes one back, and never turns the clock
  back. The client satisfies it with cost 1; wrapping a source in retries or in a breaker gives a
  source again.
\<close>

locale quote_source =
  fixes quote :: QuoteSource and cost :: nat
  assumes sent: "\<exists>new. w_sent (snd (quote c req w)) = w_sent w @ new \<and> length new \<le> cost"
    and clock: "w_clock w \<le> w_clock (snd (quote c req w))"
begin

lemma sent_length: "length (w_sent (snd (quote c req w))) \<le> length (w_sent w) + cost"
  using sent [of c req w] by auto

end

definition vendor_request :: "env \<Rightarrow> VendorClient \<Rightarrow> ctx \<Rightarrow> QuoteRequest \<Rightarrow> wire_request" where
  "vendor_request e cl c req =
     \<lparr>wr_url = the (env_join_path e (vc_baseURL cl) ''/v1/quotes''), wr_headers = vendor_headers cl c,
      wr_body = vendor_request_body req\<rparr>"

definition url_ok :: "env \<Rightarrow> VendorClient \<Rightarrow> bool" where
  "url_ok e cl \<longleftrightarrow>
     (case env_join_path e (vc_baseURL cl) ''/v1/quotes'' of None \<Rightarrow> False | Some u \<Rightarrow> env_request_ok e u)"

definition classify :: "ctx \<Rightarrow> instant \<Rightarrow> reply \<Rightarrow> go_error + Quote" where
  "classify c now rp =
     (case rp of NoResponse err \<Rightarrow> Inl (transportError c now err) | Response resp \<Rightarrow> translate resp)"

text \<open>A call is one exchange with the vendor and the classification of what came back.\<close>

lemma VendorClient_call:
  assumes "url_ok e cl"
  shows "VendorClient_Quote e cl c req w =
    (case http_do e (vc_timeout cl) c (vendor_request e cl c req) w of
       (rp, w') \<Rightarrow> (classify c (w_clock w') rp, w'))"
  using assms
  by (auto simp: url_ok_def VendorClient_Quote_def vendor_request_def classify_def
      split: option.splits prod.split reply.split)

lemma VendorClient_no_call:
  assumes "\<not> url_ok e cl"
  shows "\<exists>m. VendorClient_Quote e cl c req w = (Inl (HttpxError (Internal (Some (PlainError m)))), w)"
  using assms by (auto simp: url_ok_def VendorClient_Quote_def split: option.splits)

lemma VendorClient_world:
  "snd (VendorClient_Quote e cl c req w) =
     (if url_ok e cl then snd (http_do e (vc_timeout cl) c (vendor_request e cl c req) w) else w)"
proof (cases "url_ok e cl")
  case True
  then show ?thesis by (simp add: VendorClient_call split: prod.split)
next
  case False
  then show ?thesis using VendorClient_no_call [OF False, of c req w] by auto
qed

lemma VendorClient_sent:
  "w_sent (snd (VendorClient_Quote e cl c req w)) =
     w_sent w @ (if url_ok e cl then [vendor_request e cl c req] else [])"
  by (simp add: VendorClient_world)

lemma VendorClient_clock: "w_clock w \<le> w_clock (snd (VendorClient_Quote e cl c req w))"
  by (simp add: VendorClient_world http_do_clock)

interpretation vendor: quote_source "VendorClient_Quote e cl" 1 for e cl
  by unfold_locales (simp_all add: VendorClient_sent VendorClient_clock)

section \<open>Properties\<close>

lemma decode_quote_Inr:
  "decode_quote resp = Inr q \<longleftrightarrow>
     (\<exists>body vq rate tot. ws_body resp = Inr body
        \<and> decode_vendorQuote (take maxVendorBody body) = Some vq \<and> vq_QuoteID vq \<noteq> []
        \<and> snd (numberText (vq_CommissionRate vq)) \<and> snd (numberText (vq_TotalCommission vq))
        \<and> ParseRate (fst (numberText (vq_CommissionRate vq))) = Inr rate
        \<and> ParseAmount (fst (numberText (vq_TotalCommission vq))) = Inr tot
        \<and> q = \<lparr>QuoteID = vq_QuoteID vq, CommissionRate = rate, TotalCommission = tot\<rparr>)"
proof (cases "ws_body resp")
  case (Inl x)
  then show ?thesis by (simp add: decode_quote_def)
next
  case (Inr body)
  show ?thesis
  proof (cases "decode_vendorQuote (take maxVendorBody body)")
    case None
    then show ?thesis by (simp add: decode_quote_def Inr contract_error_def)
  next
    case (Some vq)
    then show ?thesis
      by (cases "ParseRate (fst (numberText (vq_CommissionRate vq)))";
          cases "ParseAmount (fst (numberText (vq_TotalCommission vq)))")
         (auto simp: decode_quote_def Inr contract_error_def prod.case_eq_if)
  qed
qed

lemma translate_error_cases:
  assumes "translate resp = Inl err" and "\<And>x. ws_body resp = Inl x \<Longrightarrow> unmarked x"
  shows "(errors_is ErrTransient err \<longleftrightarrow> ws_status resp \<in> {429, 502, 503, 504})
    \<and> (errors_is ErrRequestFault err \<longleftrightarrow> ws_status resp = 400)
    \<and> (\<exists>h. errors_as err = Some h \<and> Status h = 502
        \<and> Code h = (if ws_status resp \<in> {201, 400} then CodeUpstreamContract else CodeUpstreamUnavailable)
        \<and> RetryAfter h = (if ws_status resp = 429 then retryAfter resp else 0))"
proof (cases "ws_status resp = 201")
  case True
  with assms(1) have "decode_quote resp = Inl err" by (simp add: translate_def)
  with decode_quote_unmarked [OF this assms(2)] obtain h where "unmarked err" "errors_as err = Some h"
    and "Code h = CodeUpstreamContract" by auto
  moreover have "Status h = 502 \<and> RetryAfter h = 0"
    using \<open>decode_quote resp = Inl err\<close> \<open>errors_as err = Some h\<close>
    by (auto simp: decode_quote_def contract_error_def UpstreamContract_def
        split: sum.splits option.splits prod.splits if_splits)
  ultimately show ?thesis using True by (simp add: unmarked_def)
next
  case False
  then show ?thesis using assms(1)
    by (auto simp: translate_def Let_def UpstreamUnavailable_def UpstreamContract_def split: if_splits)
qed

text \<open>
  C14: the policy table of the vendor call. Whatever comes back, the failure is an error of our own
  taxonomy with a 5xx status (a vendor 400, 401 or 403 is never passed on as the caller's fault); it
  is marked transient exactly for 429, 502, 503, 504, a timeout and a failed transport, so a 500 never
  is; it is marked a request fault exactly for a vendor 400; only 429 carries a \<open>Retry-After\<close>.
\<close>

theorem vendor_classification:
  assumes "classify c now rp = Inl err"
    and "\<And>x. rp = NoResponse x \<Longrightarrow> unmarked x"
    and "\<And>resp x. rp = Response resp \<Longrightarrow> ws_body resp = Inl x \<Longrightarrow> unmarked x"
  shows "(errors_is ErrTransient err \<longleftrightarrow>
      (case rp of
         Response resp \<Rightarrow> ws_status resp \<in> {429, 502, 503, 504}
       | NoResponse x \<Rightarrow> \<not> errors_is Canceled x \<or> errors_is DeadlineExceeded x
           \<or> ctx_err c now = Some DeadlineExceeded))
    \<and> (errors_is ErrRequestFault err \<longleftrightarrow>
      (\<exists>resp. rp = Response resp \<and> ws_status resp = 400))
    \<and> (\<exists>h. errors_as err = Some h \<and> Status h \<in> {502, 504}
        \<and> (RetryAfter h \<noteq> 0 \<longrightarrow> (\<exists>resp. rp = Response resp \<and> ws_status resp = 429
              \<and> RetryAfter h = retryAfter resp)))"
proof (cases rp)
  case (Response resp)
  then show ?thesis
    using translate_error_cases [of resp err] assms(1) assms(3) [OF Response]
    by (auto simp: classify_def split: if_splits)
next
  case (NoResponse x)
  then show ?thesis
    using assms(1) assms(2) [OF NoResponse]
    by (auto simp: classify_def transportError_def unmarked_def UpstreamUnavailable_def UpstreamTimeout_def
        errors_is_HttpxError split: if_splits)
qed

theorem vendor_classification_witness:
  "let resp = \<lparr>ws_status = 429, ws_retry_after = ''7'', ws_body = Inr []\<rparr>;
       err = transient (with_RetryAfter (7 * second)
         (UpstreamUnavailable (Some (PlainError ''vendor rate limited us''))))
   in classify background 0 (Response resp) = Inl err \<and> errors_is ErrTransient err
      \<and> \<not> errors_is ErrRequestFault err"
proof -
  let ?resp = "\<lparr>ws_status = 429, ws_retry_after = ''7'', ws_body = Inr []\<rparr>"
  let ?err = "transient (with_RetryAfter (7 * second)
         (UpstreamUnavailable (Some (PlainError ''vendor rate limited us''))))"
  have c: "classify background 0 (Response ?resp) = Inl ?err" by code_simp
  show ?thesis using vendor_classification [OF c] c by (simp add: Let_def)
qed

text \<open>Our own reading of a figure: an unquoted plain decimal of at most 32 bytes, taken exactly.\<close>

definition figure :: "string \<Rightarrow> bool \<Rightarrow> string \<Rightarrow> string \<Rightarrow> bool" where
  "figure raw neg whole digs \<longleftrightarrow> decimal_syntax neg whole digs (trim_space raw) \<and> length (trim_space raw) \<le> 32"

lemma numberText_figure:
  "figure raw neg whole digs \<Longrightarrow> numberText raw = (trim_space raw, True)"
  using decimal_syntax_hd by (fastforce simp: figure_def numberText_def Let_def)

lemma number_rate_iff:
  "snd (numberText raw) \<and> ParseRate (fst (numberText raw)) = Inr rate \<longleftrightarrow>
     (\<exists>neg whole digs. figure raw neg whole digs \<and> rate = \<lparr>rate_r = Some (decimal_value neg whole digs)\<rparr>)"
  (is "?lhs \<longleftrightarrow> ?rhs")
proof
  assume ?lhs
  then have "ParseRate (trim_space raw) = Inr rate" using numberText_True by (metis prod.collapse)
  then obtain r k where "parseDecimal (trim_space raw) = Inr (r, k)" "rate = \<lparr>rate_r = Some r\<rparr>"
    by (auto simp: ParseRate_def split: sum.splits prod.splits)
  then show ?rhs using parseDecimal_sound [of "trim_space raw" r k] by (auto simp: figure_def maxTextLen_def)
next
  assume ?rhs
  then obtain neg whole digs where f: "figure raw neg whole digs"
    and r: "rate = \<lparr>rate_r = Some (decimal_value neg whole digs)\<rparr>" by blast
  from f have "parseDecimal (trim_space raw) = Inr (decimal_value neg whole digs, int (length digs))"
    by (intro parseDecimal_accepts) (simp_all add: figure_def maxTextLen_def)
  then show ?lhs by (simp add: numberText_figure [OF f] ParseRate_def r)
qed

lemma number_amount_iff:
  "snd (numberText raw) \<and> ParseAmount (fst (numberText raw)) = Inr a \<longleftrightarrow>
     (\<exists>neg whole digs. figure raw neg whole digs
        \<and> a = \<lparr>amount_r = Some (decimal_value neg whole digs), amount_scale = int (length digs)\<rparr>)"
  (is "?lhs \<longleftrightarrow> ?rhs")
proof
  assume ?lhs
  then have "ParseAmount (trim_space raw) = Inr a" using numberText_True by (metis prod.collapse)
  then obtain r k where "parseDecimal (trim_space raw) = Inr (r, k)" "a = \<lparr>amount_r = Some r, amount_scale = k\<rparr>"
    by (auto simp: ParseAmount_def split: sum.splits prod.splits)
  then show ?rhs using parseDecimal_sound [of "trim_space raw" r k] by (auto simp: figure_def maxTextLen_def)
next
  assume ?rhs
  then obtain neg whole digs where f: "figure raw neg whole digs"
    and a: "a = \<lparr>amount_r = Some (decimal_value neg whole digs), amount_scale = int (length digs)\<rparr>" by blast
  from f have "parseDecimal (trim_space raw) = Inr (decimal_value neg whole digs, int (length digs))"
    by (intro parseDecimal_accepts) (simp_all add: figure_def maxTextLen_def)
  then show ?lhs by (simp add: numberText_figure [OF f] ParseAmount_def a)
qed

lemma decode_vendorQuote_id:
  "decode_vendorQuote body = Some vq \<and> vq_QuoteID vq \<noteq> [] \<longleftrightarrow>
     (\<exists>ms. unmarshal body = Some (JObject ms) \<and> string_field vendor_fields ''quoteId'' ms = Some (vq_QuoteID vq)
        \<and> vq_QuoteID vq \<noteq> []
        \<and> vq_CommissionRate vq = raw_field vendor_fields ''commissionRate'' ms
        \<and> vq_TotalCommission vq = raw_field vendor_fields ''totalCommission'' ms)"
  by (auto simp: decode_vendorQuote_def split: option.splits json_doc.splits)

text \<open>
  C34: a success is exactly a 201 whose body, cut at 1 MiB, is one JSON object with a non-empty string under
  \<open>quoteId\<close> and an unquoted plain decimal of at most 32 bytes under each of \<open>commissionRate\<close> and
  \<open>totalCommission\<close>. The quote has that id, its rate is exactly the number written under \<open>commissionRate\<close>,
  its total exactly the number under \<open>totalCommission\<close> with the decimals it was written with: the figures
  are not exchanged, recomputed or rounded. (The last member wins when a key is repeated, and keys match
  as \<open>encoding/json\<close> matches them.)
\<close>

theorem vendor_quote_iff:
  "translate resp = Inr q \<longleftrightarrow>
     (\<exists>body ms neg whole digs neg' whole' digs'. ws_status resp = 201 \<and> ws_body resp = Inr body
        \<and> unmarshal (take (2 ^ 20) body) = Some (JObject ms)
        \<and> string_field [''quoteId'', ''commissionRate'', ''totalCommission''] ''quoteId'' ms = Some (QuoteID q) \<and> QuoteID q \<noteq> []
        \<and> figure (raw_field [''quoteId'', ''commissionRate'', ''totalCommission''] ''commissionRate'' ms) neg whole digs
        \<and> CommissionRate q = \<lparr>rate_r = Some (decimal_value neg whole digs)\<rparr>
        \<and> figure (raw_field [''quoteId'', ''commissionRate'', ''totalCommission''] ''totalCommission'' ms) neg' whole' digs'
        \<and> TotalCommission q = \<lparr>amount_r = Some (decimal_value neg' whole' digs'), amount_scale = int (length digs')\<rparr>)"
  (is "_ \<longleftrightarrow> ?rhs")
proof -
  have "translate resp = Inr q \<longleftrightarrow> ws_status resp = 201 \<and> decode_quote resp = Inr q"
    by (auto simp: translate_def Let_def split: if_splits)
  also have "\<dots> \<longleftrightarrow> (\<exists>body vq. ws_status resp = 201 \<and> ws_body resp = Inr body
        \<and> (decode_vendorQuote (take maxVendorBody body) = Some vq \<and> vq_QuoteID vq \<noteq> []) \<and> QuoteID q = vq_QuoteID vq
        \<and> (snd (numberText (vq_CommissionRate vq)) \<and> ParseRate (fst (numberText (vq_CommissionRate vq))) = Inr (CommissionRate q))
        \<and> (snd (numberText (vq_TotalCommission vq)) \<and> ParseAmount (fst (numberText (vq_TotalCommission vq))) = Inr (TotalCommission q)))"
    unfolding decode_quote_Inr by (cases q) auto
  also have "\<dots> \<longleftrightarrow> ?rhs"
  proof
    assume ?rhs
    then obtain body ms neg whole digs neg' whole' digs' where
      b: "ws_status resp = 201" "ws_body resp = Inr body" "unmarshal (take maxVendorBody body) = Some (JObject ms)"
        "string_field vendor_fields ''quoteId'' ms = Some (QuoteID q)" "QuoteID q \<noteq> []" and
      f: "figure (raw_field vendor_fields ''commissionRate'' ms) neg whole digs"
        "CommissionRate q = \<lparr>rate_r = Some (decimal_value neg whole digs)\<rparr>"
        "figure (raw_field vendor_fields ''totalCommission'' ms) neg' whole' digs'"
        "TotalCommission q = \<lparr>amount_r = Some (decimal_value neg' whole' digs'), amount_scale = int (length digs')\<rparr>"
      unfolding maxVendorBody_def vendor_fields_def by blast
    let ?vq = "\<lparr>vq_QuoteID = QuoteID q, vq_CommissionRate = raw_field vendor_fields ''commissionRate'' ms,
      vq_TotalCommission = raw_field vendor_fields ''totalCommission'' ms\<rparr>"
    have "decode_vendorQuote (take maxVendorBody body) = Some ?vq \<and> vq_QuoteID ?vq \<noteq> []"
      unfolding decode_vendorQuote_id using b by simp
    moreover have "snd (numberText (vq_CommissionRate ?vq)) \<and> ParseRate (fst (numberText (vq_CommissionRate ?vq))) = Inr (CommissionRate q)"
      unfolding number_rate_iff using f(1,2) by auto
    moreover have "snd (numberText (vq_TotalCommission ?vq))
        \<and> ParseAmount (fst (numberText (vq_TotalCommission ?vq))) = Inr (TotalCommission q)"
      unfolding number_amount_iff using f(3,4) by auto
    moreover have "QuoteID q = vq_QuoteID ?vq" by simp
    ultimately show "\<exists>body vq. ws_status resp = 201 \<and> ws_body resp = Inr body
        \<and> (decode_vendorQuote (take maxVendorBody body) = Some vq \<and> vq_QuoteID vq \<noteq> []) \<and> QuoteID q = vq_QuoteID vq
        \<and> (snd (numberText (vq_CommissionRate vq)) \<and> ParseRate (fst (numberText (vq_CommissionRate vq))) = Inr (CommissionRate q))
        \<and> (snd (numberText (vq_TotalCommission vq)) \<and> ParseAmount (fst (numberText (vq_TotalCommission vq))) = Inr (TotalCommission q))"
      using b(1,2) by blast
  qed (unfold decode_vendorQuote_id number_rate_iff number_amount_iff maxVendorBody_def vendor_fields_def, metis)
  finally show ?thesis .
qed

text \<open>The members may come in any order, with others between them.\<close>

definition example_priced :: wire_response where
  "example_priced = \<lparr>ws_status = 201, ws_retry_after = [], ws_body = Inr (quoted
     ''{`totalCommission`:1250.50,`quoteId`:`q-1`,`currency`:`AUD`,`commissionRate`: 0.025 }'')\<rparr>"

theorem vendor_quote_iff_witness:
  "\<exists>q. translate example_priced = Inr q \<and> QuoteID q = ''q-1'' \<and> CommissionRate q = \<lparr>rate_r = Some (25 / 1000)\<rparr>
     \<and> TotalCommission q = \<lparr>amount_r = Some (125050 / 100), amount_scale = 2\<rparr>"
proof -
  let ?q = "\<lparr>QuoteID = ''q-1'', CommissionRate = \<lparr>rate_r = Some (decimal_value False ''0'' ''025'')\<rparr>,
     TotalCommission = \<lparr>amount_r = Some (decimal_value False ''1250'' ''50''), amount_scale = 2\<rparr>\<rparr>"
  let ?body = "quoted ''{`totalCommission`:1250.50,`quoteId`:`q-1`,`currency`:`AUD`,`commissionRate`: 0.025 }''"
  let ?ms = "[(''totalCommission'', ''1250.50''), (''quoteId'', quoted ''`q-1`''), (''currency'', quoted ''`AUD`''),
     (''commissionRate'', ''0.025'')]"
  let ?fields = "[''quoteId'', ''commissionRate'', ''totalCommission'']"
  have "length ?body \<le> 2 ^ 20" by (simp add: quoted_def)
  then have "take (2 ^ 20) ?body = ?body" by (rule take_all)
  moreover have "unmarshal ?body = Some (JObject ?ms)" by code_simp
  moreover have "string_field ?fields ''quoteId'' ?ms = Some ''q-1''" by code_simp
  moreover have "raw_field ?fields ''commissionRate'' ?ms = ''0.025''" "raw_field ?fields ''totalCommission'' ?ms = ''1250.50''"
    by code_simp+
  moreover have "trim_space ''0.025'' = ''0.025''" "trim_space ''1250.50'' = ''1250.50''" by code_simp+
  moreover have "decimal_syntax False ''0'' ''025'' ''0.025''" "decimal_syntax False ''1250'' ''50'' ''1250.50''"
    by (auto simp: decimal_syntax_def, code_simp+)
  ultimately have "translate example_priced = Inr ?q"
    unfolding vendor_quote_iff [of example_priced ?q]
    by (intro exI [of _ ?body] exI [of _ ?ms] exI [of _ False] exI [of _ "''0''"] exI [of _ "''025''"]
        exI [of _ "''1250''"] exI [of _ "''50''"]) (simp add: example_priced_def figure_def)
  moreover have "decimal_value False ''0'' ''025'' = 25 / 1000" "decimal_value False ''1250'' ''50'' = 125050 / 100" by code_simp+
  ultimately show ?thesis by simp
qed

end
