(* ===== verification/Retry.thy ===== *)
theory Retry
  imports Vendor
begin

text \<open>
  \<open>internal/cqappmiddleware/retry.go\<close>: the retrier. The loop is a function of the attempt number;
  its specification is a chain of calls, and the lemmas relate the two, bound the requests put on the
  wire and show that a retry never starts without budget.
\<close>

section \<open>The retrier\<close>

record RetryConfig =
  Attempts :: int
  Base :: duration
  Cap :: duration

definition minAttemptBudget :: duration where "minAttemptBudget = 100 * millisecond"

text \<open>The random source is asked only for a positive window: \<open>rand.Int64N\<close> panics on any other.\<close>

definition backoff :: "env \<Rightarrow> RetryConfig \<Rightarrow> int \<Rightarrow> go_error \<Rightarrow> world \<Rightarrow> duration \<times> world" where
  "backoff e cfg attempt err w =
     (let shifted = shl64 (Base cfg) (nat (attempt - 1));
          window = (if shifted > Cap cfg then Cap cfg else shifted);
          (delay, w') = (if window > 0 then draw_jitter e window w else (0, w))
      in case errors_as err of
           Some h \<Rightarrow> (if RetryAfter h > delay then RetryAfter h else delay, w')
         | None \<Rightarrow> (delay, w'))"

definition worthWaiting :: "ctx \<Rightarrow> duration \<Rightarrow> instant \<Rightarrow> bool" where
  "worthWaiting c delay now =
     (case ctx_deadline c of
        None \<Rightarrow> True
      | Some deadline \<Rightarrow> time_sub deadline now > wrap64 (delay + minAttemptBudget))"

definition sleepCtx :: "ctx \<Rightarrow> duration \<Rightarrow> world \<Rightarrow> sentinel option \<times> world" where
  "sleepCtx c d w = (if d \<le> 0 then (None, w) else wait_ctx c d w)"

text \<open>
  The loop from \<open>attempt\<close> on; \<open>lastErr\<close> is \<open>nil\<close> before the first call, so that a loop that never
  runs returns the zero quote and no error.
\<close>

definition give_up :: "go_error option \<Rightarrow> go_error + Quote" where
  "give_up lastErr = (case lastErr of None \<Rightarrow> Inr zero_Quote | Some err \<Rightarrow> Inl err)"

function retry_loop ::
  "env \<Rightarrow> QuoteSource \<Rightarrow> RetryConfig \<Rightarrow> ctx \<Rightarrow> QuoteRequest \<Rightarrow> int \<Rightarrow> go_error option \<Rightarrow> world
    \<Rightarrow> (go_error + Quote) \<times> world" where
  "retry_loop e nxt cfg c req attempt lastErr w =
     (if attempt > Attempts cfg then (give_up lastErr, w)
      else (case nxt c req w of
          (Inr quote, w1) \<Rightarrow> (Inr quote, w1)
        | (Inl err, w1) \<Rightarrow>
            if \<not> errors_is ErrTransient err then (Inl err, w1)
            else if attempt = Attempts cfg then (give_up (Some err), w1)
            else (case backoff e cfg attempt err w1 of (delay, w2) \<Rightarrow>
              if \<not> worthWaiting c delay (w_clock w2) then (give_up (Some err), w2)
              else (case sleepCtx c delay w2 of
                  (Some _, w3) \<Rightarrow> (give_up (Some err), w3)
                | (None, w3) \<Rightarrow> retry_loop e nxt cfg c req (attempt + 1) (Some err) w3))))"
  by pat_completeness auto
termination
  by (relation "measure (\<lambda>(e, nxt, cfg, c, req, attempt, lastErr, w). nat (Attempts cfg + 1 - attempt))")
     auto

declare retry_loop.simps [simp del]

definition Retrier_Quote :: "env \<Rightarrow> QuoteSource \<Rightarrow> RetryConfig \<Rightarrow> QuoteSource" where
  "Retrier_Quote e nxt cfg c req w = retry_loop e nxt cfg c req 1 None w"

section \<open>Backoff and waiting\<close>

lemma backoff_frame [simp]:
  "w_sent (snd (backoff e cfg k err w)) = w_sent w"
  "w_clock (snd (backoff e cfg k err w)) = w_clock w"
  by (auto simp: backoff_def Let_def split: option.split prod.split)
     (metis draw_jitter_frame snd_conv)+

lemma sleepCtx_sent [simp]: "w_sent (snd (sleepCtx c d w)) = w_sent w"
  by (simp add: sleepCtx_def)

lemma sleepCtx_clock: "w_clock w \<le> w_clock (snd (sleepCtx c d w))"
  by (simp add: sleepCtx_def wait_ctx_clock)

lemma sleepCtx_ok: "fst (sleepCtx c d w) = None \<Longrightarrow> w_clock (snd (sleepCtx c d w)) = w_clock w + max d 0"
  by (auto simp: sleepCtx_def wait_ctx_ok)

lemma sleepCtx_before_deadline:
  assumes "fst (sleepCtx c d w) = None" "ctx_deadline c = Some t" "0 < d"
  shows "w_clock w + d \<le> t"
proof (rule ccontr)
  assume "\<not> w_clock w + d \<le> t"
  then obtain u where u: "ctx_done_before c (w_clock w + d) = Some u"
    using assms(2) by (cases "ctx_cancel c") (fastforce simp: ctx_done_before_def)+
  have "ctx_err c (max (w_clock w) u) \<noteq> None" by (rule ctx_done_before_err [OF u]) simp
  then show False using assms(1,3) u by (simp add: sleepCtx_def wait_ctx_def Let_def)
qed

lemma sleepCtx_unbounded:
  "ctx_deadline c = None \<Longrightarrow> ctx_cancel c = None \<Longrightarrow> fst (sleepCtx c d w) = None"
  by (simp add: sleepCtx_def wait_ctx_def ctx_done_before_def)

definition jitter_window :: "RetryConfig \<Rightarrow> int \<Rightarrow> int64" where
  "jitter_window cfg attempt = min (shl64 (Base cfg) (nat (attempt - 1))) (Cap cfg)"

lemma backoff_delay:
  "fst (backoff e cfg attempt err w) =
     (let own = (if jitter_window cfg attempt > 0
                 then env_jitter e (w_draws w) (jitter_window cfg attempt) else 0)
      in case errors_as err of Some h \<Rightarrow> max own (RetryAfter h) | None \<Rightarrow> own)"
  by (auto simp: backoff_def jitter_window_def Let_def draw_jitter_def min_def max_def split: option.split)

lemma backoff_nonneg: "jitter_in_range e \<Longrightarrow> 0 \<le> fst (backoff e cfg attempt err w)"
  by (auto simp: backoff_delay Let_def jitter_in_range_def le_max_iff_disj split: option.split)

lemma worth_waiting_budget:
  assumes worth: "worthWaiting c d (w_clock w)" and slept: "fst (sleepCtx c d w) = None"
    and t: "ctx_deadline c = Some t" "t < w_clock w + 2 ^ 62" and d: "0 \<le> d"
  shows "minAttemptBudget < t - w_clock (snd (sleepCtx c d w))"
proof -
  have "d \<le> 2 ^ 62"
    using sleepCtx_before_deadline [OF slept t(1)] t(2) d by (cases "0 < d") auto
  then have "is_int64 (d + minAttemptBudget)"
    using d by (simp add: is_int64_def minAttemptBudget_def)
  then have "d + minAttemptBudget < t - w_clock w"
    using worth t d by (auto simp: worthWaiting_def time_sub_def minAttemptBudget_def)
  then show ?thesis using sleepCtx_ok [OF slept] d by simp
qed

section \<open>The specification: a chain of calls\<close>

text \<open>
  \<open>chain nxt c req w calls w'\<close>: starting at \<open>w\<close>, the source is called once for each entry of
  \<open>calls\<close>, which holds the world the call starts in and its outcome. Between calls time may pass and
  random draws may be taken, but nothing is put on the wire.
\<close>

definition idle :: "world \<Rightarrow> world \<Rightarrow> bool" where
  "idle w w' \<longleftrightarrow> w_sent w' = w_sent w \<and> w_clock w \<le> w_clock w'"

type_synonym call = "world \<times> (go_error + Quote)"

inductive chain :: "QuoteSource \<Rightarrow> ctx \<Rightarrow> QuoteRequest \<Rightarrow> world \<Rightarrow> call list \<Rightarrow> world \<Rightarrow> bool"
  for nxt c req where
  stop: "idle w w' \<Longrightarrow> chain nxt c req w [] w'"
| call: "idle w w0 \<Longrightarrow> nxt c req w0 = (r, w1) \<Longrightarrow> chain nxt c req w1 calls w'
    \<Longrightarrow> chain nxt c req w ((w0, r) # calls) w'"

inductive_simps chain_Nil [simp]: "chain nxt c req w [] w'"
inductive_cases chain_ConsE: "chain nxt c req w (k # calls) w'"

lemma idle_refl [simp, intro]: "idle w w"
  by (simp add: idle_def)

lemma idle_trans: "idle u v \<Longrightarrow> idle v w \<Longrightarrow> idle u w"
  by (auto simp: idle_def)

lemma chain_idle: "idle u w \<Longrightarrow> chain nxt c req w calls w' \<Longrightarrow> chain nxt c req u calls w'"
  by (erule chain.cases) (auto intro: chain.intros idle_trans)

definition transient_failure :: "go_error + Quote \<Rightarrow> bool" where
  "transient_failure r \<longleftrightarrow> (\<exists>err. r = Inl err \<and> errors_is ErrTransient err)"

text \<open>A chain that keeps the retry rule: everything but the last outcome is a transient failure.\<close>

definition obeys_retry_rule :: "RetryConfig \<Rightarrow> call list \<Rightarrow> bool" where
  "obeys_retry_rule cfg calls \<longleftrightarrow>
     calls \<noteq> [] \<and> int (length calls) \<le> Attempts cfg
     \<and> (\<forall>k \<in> set (butlast calls). transient_failure (snd k))"

definition has_budget :: "ctx \<Rightarrow> call \<Rightarrow> bool" where
  "has_budget c k \<longleftrightarrow>
     (case ctx_deadline c of None \<Rightarrow> True | Some t \<Rightarrow> minAttemptBudget < t - w_clock (fst k))"

definition deadline_near :: "ctx \<Rightarrow> world \<Rightarrow> bool" where
  "deadline_near c w \<longleftrightarrow>
     (case ctx_deadline c of None \<Rightarrow> True | Some t \<Rightarrow> t < w_clock w + 2 ^ 62)"

text \<open>What the loop does from an attempt on.\<close>

definition loop_spec ::
  "env \<Rightarrow> QuoteSource \<Rightarrow> RetryConfig \<Rightarrow> ctx \<Rightarrow> QuoteRequest \<Rightarrow> int \<Rightarrow> world
    \<Rightarrow> (go_error + Quote) \<times> world \<Rightarrow> call list \<Rightarrow> bool" where
  "loop_spec e nxt cfg c req attempt w out calls \<longleftrightarrow>
     chain nxt c req w calls (snd out) \<and> calls \<noteq> [] \<and> int (length calls) \<le> Attempts cfg + 1 - attempt
     \<and> (\<forall>k \<in> set (butlast calls). transient_failure (snd k)) \<and> fst out = snd (last calls)
     \<and> (fst (hd calls) = w)
     \<and> (jitter_in_range e \<and> deadline_near c w \<longrightarrow> (\<forall>k \<in> set (tl calls). has_budget c k))
     \<and> (ctx_deadline c = None \<and> ctx_cancel c = None \<and> transient_failure (fst out)
          \<longrightarrow> int (length calls) = Attempts cfg + 1 - attempt)"

lemma loop_specD:
  assumes "loop_spec e nxt cfg c req attempt w out calls"
  shows "chain nxt c req w calls (snd out)" "calls \<noteq> []" "int (length calls) \<le> Attempts cfg + 1 - attempt"
    "fst out = snd (last calls)"
  using assms by (simp_all add: loop_spec_def)

section \<open>The loop meets its specification\<close>

lemma deadline_near_later: "deadline_near c w \<Longrightarrow> w_clock w \<le> w_clock w' \<Longrightarrow> deadline_near c w'"
  by (auto simp: deadline_near_def split: option.splits)

text \<open>The three ways a step ends: an outcome that stands, giving up, or another attempt.\<close>

lemma loop_spec_one:
  assumes "nxt c req w = (r, w1)" "attempt \<le> Attempts cfg" "idle w1 w'"
    and "ctx_deadline c = None \<and> ctx_cancel c = None \<and> transient_failure r \<Longrightarrow> attempt = Attempts cfg"
  shows "loop_spec e nxt cfg c req attempt w (r, w') [(w, r)]"
  using assms by (auto simp: loop_spec_def intro: chain.intros)

lemma loop_spec_more:
  assumes "nxt c req w = (r, w1)" "transient_failure r" "attempt < Attempts cfg" "idle w1 w3"
    and more: "loop_spec e nxt cfg c req (attempt + 1) w3 out calls"
    and near: "deadline_near c w \<Longrightarrow> deadline_near c w3"
    and budget: "jitter_in_range e \<Longrightarrow> deadline_near c w \<Longrightarrow> has_budget c (w3, snd (hd calls))"
  shows "loop_spec e nxt cfg c req attempt w out ((w, r) # calls)"
proof -
  have "chain nxt c req w1 calls (snd out)"
    using more \<open>idle w1 w3\<close> chain_idle by (auto simp: loop_spec_def)
  then have "chain nxt c req w ((w, r) # calls) (snd out)"
    using assms(1) by (auto intro: chain.call)
  moreover have "jitter_in_range e \<and> deadline_near c w \<longrightarrow> (\<forall>k \<in> set calls. has_budget c k)"
    using more near budget by (cases calls) (auto simp: loop_spec_def)
  ultimately show ?thesis
    using more assms(2,3) by (auto simp: loop_spec_def)
qed

context quote_source
begin

lemma retry_loop_spec:
  "attempt \<le> Attempts cfg
    \<Longrightarrow> \<exists>calls. loop_spec e quote cfg c req attempt w (retry_loop e quote cfg c req attempt lastErr w) calls"
proof (induction "nat (Attempts cfg - attempt)" arbitrary: attempt lastErr w rule: less_induct)
  case less
  obtain r w1 where call: "quote c req w = (r, w1)" by fastforce
  have mono: "w_clock w \<le> w_clock w1" using clock [of w c req] call by simp
  let ?loop = "retry_loop e quote cfg c req attempt lastErr w"
  show ?case
  proof (cases "\<exists>err. r = Inl err \<and> errors_is ErrTransient err \<and> attempt \<noteq> Attempts cfg")
    case False
    then have "?loop = (r, w1)"
      using less.prems call by (cases r) (auto simp: retry_loop.simps [of e] give_up_def)
    moreover have "loop_spec e quote cfg c req attempt w (r, w1) [(w, r)]"
      using call less.prems False by (intro loop_spec_one) (auto simp: transient_failure_def)
    ultimately show ?thesis by auto
  next
    case True
    then obtain err where r: "r = Inl err" and tr: "errors_is ErrTransient err"
      and lt: "attempt < Attempts cfg" using less.prems by auto
    obtain delay w2 where bk: "backoff e cfg attempt err w1 = (delay, w2)" by fastforce
    obtain stop w3 where sleep: "sleepCtx c delay w2 = (stop, w3)" by fastforce
    have w2: "idle w1 w2" using backoff_frame [of e cfg attempt err w1] bk by (simp add: idle_def)
    have w3: "idle w1 w3"
      using w2 sleepCtx_sent [of c delay w2] sleepCtx_clock [of w2 c delay] sleep
      by (auto simp: idle_def)
    let ?again = "retry_loop e quote cfg c req (attempt + 1) (Some err) w3"
    have loop: "?loop = (if \<not> worthWaiting c delay (w_clock w2) then (r, w2)
        else case stop of Some _ \<Rightarrow> (r, w3) | None \<Rightarrow> ?again)"
      using less.prems lt tr by (simp add: retry_loop.simps [of e _ _ _ _ attempt] call r bk sleep give_up_def split: option.split)
    show ?thesis
    proof (cases "worthWaiting c delay (w_clock w2) \<and> stop = None")
      case False
      have "loop_spec e quote cfg c req attempt w (r, w') [(w, r)]" if "idle w1 w'" for w'
        using call less.prems that False sleepCtx_unbounded [of c delay w2] sleep
        by (intro loop_spec_one) (auto simp: worthWaiting_def)
      then show ?thesis using False w2 w3 by (auto simp: loop split: option.splits)
    next
      case go: True
      obtain calls where calls: "loop_spec e quote cfg c req (attempt + 1) w3 ?again calls"
        using less.hyps [of "attempt + 1"] lt by fastforce
      have "has_budget c (w3, snd (hd calls))" if "jitter_in_range e" "deadline_near c w"
      proof (cases "ctx_deadline c")
        case None
        then show ?thesis by (simp add: has_budget_def)
      next
        case (Some t)
        have "w_clock w \<le> w_clock w2" using mono w2 by (simp add: idle_def)
        then have "t < w_clock w2 + 2 ^ 62" using that(2) Some by (simp add: deadline_near_def)
        then show ?thesis
          using worth_waiting_budget [of c delay w2 t] go sleep Some that(1) bk
            backoff_nonneg [of e cfg attempt err w1] by (simp add: has_budget_def)
      qed
      then have "loop_spec e quote cfg c req attempt w ?again ((w, r) # calls)"
        using call tr r lt w3 calls mono deadline_near_later [of c w w3]
        by (intro loop_spec_more [of quote c req w r w1 attempt cfg w3])
           (auto simp: transient_failure_def idle_def)
      then show ?thesis using go by (auto simp: loop)
    qed
  qed
qed

lemma chain_sent:
  "chain quote c req w calls w'
    \<Longrightarrow> \<exists>new. w_sent w' = w_sent w @ new \<and> length new \<le> length calls * cost"
proof (induction w calls w' rule: chain.induct)
  case (stop w w')
  then show ?case by (simp add: idle_def)
next
  case (call w w0 r w1 calls w')
  then obtain new where "w_sent w' = w_sent w1 @ new" "length new \<le> length calls * cost" by blast
  moreover obtain new1 where "w_sent w1 = w_sent w0 @ new1" "length new1 \<le> cost"
    using sent [of c req w0] call.hyps(2) by auto
  ultimately show ?case
    using call.hyps(1) by (intro exI [of _ "new1 @ new"]) (simp add: idle_def)
qed

lemma chain_clock: "chain quote c req w calls w' \<Longrightarrow> w_clock w \<le> w_clock w'"
proof (induction w calls w' rule: chain.induct)
  case (stop w w')
  then show ?case by (simp add: idle_def)
next
  case (call w w0 r w1 calls w')
  then show ?case using clock [of w0 c req] by (simp add: idle_def)
qed

lemma Retrier_no_attempts:
  "Attempts cfg < 1 \<Longrightarrow> Retrier_Quote e quote cfg c req w = (Inr zero_Quote, w)"
  by (simp add: Retrier_Quote_def retry_loop.simps [of e] give_up_def)

lemma Retrier_spec:
  assumes "1 \<le> Attempts cfg"
  shows "\<exists>calls. loop_spec e quote cfg c req 1 w (Retrier_Quote e quote cfg c req w) calls"
  unfolding Retrier_Quote_def by (rule retry_loop_spec [OF assms])

lemma Retrier_sent:
  "\<exists>new. w_sent (snd (Retrier_Quote e quote cfg c req w)) = w_sent w @ new
     \<and> length new \<le> nat (Attempts cfg) * cost"
proof (cases "1 \<le> Attempts cfg")
  case True
  then obtain calls where "chain quote c req w calls (snd (Retrier_Quote e quote cfg c req w))"
    and len: "int (length calls) \<le> Attempts cfg"
    using Retrier_spec [of cfg e c req w] by (auto simp: loop_spec_def)
  moreover have "length calls * cost \<le> nat (Attempts cfg) * cost"
    using len by (intro mult_le_mono1) simp
  ultimately show ?thesis using chain_sent by (meson order_trans)
next
  case False
  then show ?thesis using Retrier_no_attempts [of cfg e c req w] by simp
qed

lemma Retrier_clock: "w_clock w \<le> w_clock (snd (Retrier_Quote e quote cfg c req w))"
proof (cases "1 \<le> Attempts cfg")
  case True
  then show ?thesis using Retrier_spec [of cfg e c req w] chain_clock by (auto simp: loop_spec_def)
next
  case False
  then show ?thesis using Retrier_no_attempts [of cfg e c req w] by simp
qed

end

text \<open>A retried source is a source again, with the cost multiplied by the number of attempts.\<close>

locale retried_source = quote_source +
  fixes e :: env and cfg :: RetryConfig

sublocale retried_source \<subseteq> retried: quote_source "Retrier_Quote e quote cfg" "nat (Attempts cfg) * cost"
  by unfold_locales (simp_all add: Retrier_sent Retrier_clock)

interpretation vendor_retried: retried_source "VendorClient_Quote e cl" 1 e' cfg for e cl e' cfg
  by unfold_locales

section \<open>Properties\<close>

lemma vendor_chain_sent:
  "chain (VendorClient_Quote e cl) c req w calls w' \<Longrightarrow> url_ok e cl
    \<Longrightarrow> w_sent w' = w_sent w @ replicate (length calls) (vendor_request e cl c req)"
proof (induction w calls w' rule: chain.induct)
  case (stop w w')
  then show ?case by (simp add: idle_def)
next
  case (call w w0 r w1 calls w')
  then have "w_sent w1 = w_sent w0 @ [vendor_request e cl c req]"
    using VendorClient_sent [of e cl c req w0] by simp
  with call show ?case by (simp add: idle_def)
qed

text \<open>
  C6: the retry rule. With at least one attempt configured, a retried quote is a chain of calls to the
  vendor, one identical request on the wire for each, no more of them than \<open>Attempts\<close>; every outcome
  but the last is a transient failure, and the last outcome is what the caller gets. So a failure that
  is not transient (a 500, say) is never repeated, and a success ends the chain. Without a deadline or a
  cancellation, a transient failure is only returned when all attempts are used up.
\<close>

theorem Retrier_retry_rule:
  assumes "1 \<le> Attempts cfg" and "url_ok e cl"
    and "Retrier_Quote e (VendorClient_Quote e cl) cfg c req w = (r, w')"
  shows "\<exists>calls. chain (VendorClient_Quote e cl) c req w calls w'
    \<and> obeys_retry_rule cfg calls \<and> r = snd (last calls)
    \<and> w_sent w' = w_sent w @ replicate (length calls) (vendor_request e cl c req)
    \<and> (ctx_deadline c = None \<and> ctx_cancel c = None \<and> transient_failure r
        \<longrightarrow> int (length calls) = Attempts cfg)"
proof -
  obtain calls where "loop_spec e (VendorClient_Quote e cl) cfg c req 1 w (r, w') calls"
    using vendor.Retrier_spec [OF assms(1), of e e cl c req w] assms(3) by auto
  then show ?thesis
    using vendor_chain_sent [OF _ assms(2)]
    by (intro exI [of _ calls]) (auto simp: loop_spec_def obeys_retry_rule_def)
qed

definition example_client :: VendorClient where
  "example_client = \<lparr>vc_baseURL = ''http://v'', vc_apiKey = ''k'', vc_timeout = 2 * second\<rparr>"

definition example_request :: QuoteRequest where
  "example_request =
     \<lparr>req_Amount = \<lparr>amount_r = Some 250000, amount_scale = 2\<rparr>, req_Months = 240, req_RiskBand = ''B''\<rparr>"

definition example_retry :: RetryConfig where
  "example_retry = \<lparr>Attempts = 3, Base = 150 * millisecond, Cap = second\<rparr>"

definition status_reply :: "int \<Rightarrow> reply" where
  "status_reply st = Response \<lparr>ws_status = st, ws_retry_after = [], ws_body = Inr []\<rparr>"

text \<open>A 503 is retried; the 500 that follows is not, and two requests are on the wire.\<close>

theorem Retrier_retry_rule_witness:
  "let e = scripted_env [status_reply 503, status_reply 500];
       out = Retrier_Quote e (VendorClient_Quote e example_client) example_retry background
               example_request start_world
   in \<not> transient_failure (fst out) \<and> length (w_sent (snd out)) = 2
     \<and> (\<exists>calls. length calls = 2 \<and> obeys_retry_rule example_retry calls \<and> fst out = snd (last calls))"
proof -
  let ?e = "scripted_env [status_reply 503, status_reply 500]"
  let ?out = "Retrier_Quote ?e (VendorClient_Quote ?e example_client) example_retry background
                example_request start_world"
  have two: "length (w_sent (snd ?out)) = 2 \<and> w_sent start_world = []" by code_simp
  have "fst ?out = Inl (HttpxError (UpstreamUnavailable (Some (PlainError ''vendor returned 500''))))"
    by code_simp
  then have final: "\<not> transient_failure (fst ?out)" by (simp add: transient_failure_def)
  have "1 \<le> Attempts example_retry" and "url_ok ?e example_client" by code_simp+
  from Retrier_retry_rule [OF this prod.collapse [symmetric]] obtain calls
    where "obeys_retry_rule example_retry calls" "fst ?out = snd (last calls)"
      and "w_sent (snd ?out) = w_sent start_world @
            replicate (length calls) (vendor_request ?e example_client background example_request)"
    by blast
  then show ?thesis using two final by (auto simp: Let_def)
qed

text \<open>
  C26: the budget. Provided the random source keeps its range and the deadline is not a century away,
  every call after the first starts with more than \<open>minAttemptBudget\<close> (100 ms) left before the
  deadline, whatever delay the backoff or the vendor's \<open>Retry-After\<close> asked for: no retry is made that
  cannot finish.
\<close>

theorem Retrier_budget:
  assumes "1 \<le> Attempts cfg" and "jitter_in_range e"
    and "ctx_deadline c = Some t" and "t < w_clock w + 2 ^ 62"
    and "Retrier_Quote e (VendorClient_Quote e cl) cfg c req w = (r, w')"
  shows "\<exists>calls. chain (VendorClient_Quote e cl) c req w calls w'
    \<and> obeys_retry_rule cfg calls \<and> r = snd (last calls)
    \<and> (\<forall>k \<in> set (tl calls). w_clock (fst k) + 100 * millisecond < t)"
proof -
  obtain calls where spec: "loop_spec e (VendorClient_Quote e cl) cfg c req 1 w (r, w') calls"
    using vendor.Retrier_spec [OF assms(1), of e e cl c req w] assms(5) by auto
  have "\<forall>k \<in> set (tl calls). has_budget c k"
    using spec assms(2-4) by (simp add: loop_spec_def deadline_near_def)
  then have "\<forall>k \<in> set (tl calls). w_clock (fst k) + 100 * millisecond < t"
    using assms(3) by (force simp: has_budget_def minAttemptBudget_def)
  then show ?thesis using spec by (auto simp: loop_spec_def obeys_retry_rule_def)
qed

definition deadline_ctx :: "instant \<Rightarrow> ctx" where
  "deadline_ctx t = background\<lparr>ctx_deadline := Some t\<rparr>"

text \<open>A deadline two seconds away.\<close>

theorem Retrier_budget_witness:
  "let e = scripted_env [status_reply 503, status_reply 503];
       c = deadline_ctx (2 * second);
       out = Retrier_Quote e (VendorClient_Quote e example_client) example_retry c
               example_request start_world
   in \<exists>calls. obeys_retry_rule example_retry calls
        \<and> (\<forall>k \<in> set (tl calls). w_clock (fst k) + 100 * millisecond < 2 * second)"
proof -
  let ?e = "scripted_env [status_reply 503, status_reply 503]"
  let ?c = "deadline_ctx (2 * second)"
  have "1 \<le> Attempts example_retry" "ctx_deadline ?c = Some (2 * second)"
    "2 * second < w_clock start_world + 2 ^ 62" by code_simp+
  from Retrier_budget [OF this(1) scripted_jitter this(2,3) prod.collapse [symmetric],
      of "[status_reply 503, status_reply 503]" example_client example_request]
  show ?thesis by (simp only: Let_def) blast
qed

text \<open>
  C37: the backoff. While the doubled base fits an \<open>int64\<close>, the wait before the next attempt is not
  negative and is below both the doubled base and the cap, unless the vendor asked for longer, in which
  case it is exactly what the vendor asked for. Once 64 doublings have passed there is no wait at all.
\<close>

theorem backoff_bounds:
  assumes "jitter_in_range e" and "1 \<le> attempt" and "0 < Base cfg" and "0 < Cap cfg"
  shows "let delay = fst (backoff e cfg attempt err w);
             asked = (case errors_as err of Some h \<Rightarrow> RetryAfter h | None \<Rightarrow> 0)
    in 0 \<le> delay \<and> asked \<le> delay
      \<and> (delay < Cap cfg \<or> delay = asked)
      \<and> (is_int64 (Base cfg * 2 ^ nat (attempt - 1))
           \<longrightarrow> delay < Base cfg * 2 ^ nat (attempt - 1) \<or> delay = asked)
      \<and> (65 \<le> attempt \<longrightarrow> delay = max 0 asked)"
proof -
  define own where "own = (if jitter_window cfg attempt > 0
      then env_jitter e (w_draws w) (jitter_window cfg attempt) else 0)"
  have own: "0 \<le> own" "own = 0 \<or> own < jitter_window cfg attempt"
    using assms(1) by (auto simp: own_def jitter_in_range_def)
  have delay: "fst (backoff e cfg attempt err w) =
      (case errors_as err of Some h \<Rightarrow> max own (RetryAfter h) | None \<Rightarrow> own)"
    by (simp only: backoff_delay own_def Let_def)
  have "own < Cap cfg" using own assms(4) by (auto simp: jitter_window_def)
  moreover have "is_int64 (Base cfg * 2 ^ nat (attempt - 1)) \<Longrightarrow> own < Base cfg * 2 ^ nat (attempt - 1)"
    using own assms(3) by (auto simp: jitter_window_def shl64_small)
  moreover have "65 \<le> attempt \<Longrightarrow> own = 0"
    by (simp add: own_def jitter_window_def shl64_all_out)
  ultimately show ?thesis using own(1) by (cases "errors_as err") (auto simp: delay Let_def max_def)
qed

text \<open>The default base of 150 ms overflows at the 37th attempt already: no window, no draw, no wait.\<close>

theorem backoff_bounds_witness:
  "fst (backoff (scripted_env []) example_retry 2 (SentinelError ErrTransient) start_world) = 299999999
   \<and> fst (backoff (scripted_env []) example_retry 36 (SentinelError ErrTransient) start_world) = 999999999
   \<and> fst (backoff (scripted_env []) example_retry 37 (SentinelError ErrTransient) start_world) = 0
   \<and> fst (backoff (scripted_env []) example_retry 65 (SentinelError ErrTransient) start_world) = 0"
proof -
  have "0 < Base example_retry" "0 < Cap example_retry" by code_simp+
  from backoff_bounds [OF scripted_jitter [of "[]"] _ this, of 65 "SentinelError ErrTransient" start_world]
  have "fst (backoff (scripted_env []) example_retry 65 (SentinelError ErrTransient) start_world) = 0"
    by (simp add: Let_def)
  moreover have "fst (backoff (scripted_env []) example_retry 2 (SentinelError ErrTransient) start_world) = 299999999"
    "fst (backoff (scripted_env []) example_retry 36 (SentinelError ErrTransient) start_world) = 999999999"
    "fst (backoff (scripted_env []) example_retry 37 (SentinelError ErrTransient) start_world) = 0"
    by code_simp+
  ultimately show ?thesis by blast
qed

end
