(* ===== verification/Breaker.thy ===== *)
theory Breaker
  imports Retry GoFloat "HOL-Library.Sublist"
begin

text \<open>
  \<open>internal/cqappmiddleware/breaker.go\<close>: the circuit breaker. Its state and the operations under the
  lock are functions; concurrent calls are a step relation whose steps are \<open>reject\<close> (a call begins)
  and \<open>record\<close> (a call ends), since nothing else touches the state. The lemmas give the invariant of
  every reachable state, the trip rule over the window, recovery, and what an open circuit costs.
\<close>

section \<open>Types\<close>

record BreakerConfig =
  Window :: int
  MinSamples :: int
  Threshold :: float64
  OpenFor :: duration
  Probes :: int

datatype breakerState = closed | open_state | halfOpen

definition breakerState_String :: "breakerState \<Rightarrow> string" where
  "breakerState_String s =
     (case s of open_state \<Rightarrow> ''open'' | halfOpen \<Rightarrow> ''half-open'' | closed \<Rightarrow> ''closed'')"

text \<open>An outcome is true for a failure; the most recent is last. \<open>openedAt\<close> is only read when open.\<close>

record Breaker =
  brk_state :: breakerState
  outcomes :: "bool list"
  openedAt :: instant
  successes :: int
  inFlight :: int

definition NewBreaker :: Breaker where
  "NewBreaker = \<lparr>brk_state = closed, outcomes = [], openedAt = 0, successes = 0, inFlight = 0\<rparr>"

section \<open>Operations under the lock\<close>

definition enter :: "breakerState \<Rightarrow> instant \<Rightarrow> Breaker \<Rightarrow> Breaker" where
  "enter s now b =
     (let b1 = b\<lparr>brk_state := s, successes := 0\<rparr>
      in case s of
           open_state \<Rightarrow> b1\<lparr>openedAt := now, outcomes := []\<rparr>
         | closed \<Rightarrow> b1\<lparr>outcomes := []\<rparr>
         | halfOpen \<Rightarrow> b1)"

text \<open>The result is the wait to report when the call is short-circuited.\<close>

definition admit :: "BreakerConfig \<Rightarrow> Breaker \<Rightarrow> duration option \<times> Breaker" where
  "admit cfg b =
     (if brk_state b = halfOpen \<and> inFlight b \<ge> Probes cfg then (Some (OpenFor cfg), b)
      else (None, b\<lparr>inFlight := inFlight b + 1\<rparr>))"

definition reject :: "BreakerConfig \<Rightarrow> instant \<Rightarrow> Breaker \<Rightarrow> duration option \<times> Breaker" where
  "reject cfg now b =
     (if brk_state b = open_state then
        (let elapsed = time_sub now (openedAt b)
         in if elapsed < OpenFor cfg then (Some (wrap64 (OpenFor cfg - elapsed)), b)
            else admit cfg (enter halfOpen now b))
      else admit cfg b)"

definition failure_count :: "bool list \<Rightarrow> nat" where
  "failure_count os = length (filter (\<lambda>failed. failed) os)"

definition shouldTrip :: "BreakerConfig \<Rightarrow> bool list \<Rightarrow> bool" where
  "shouldTrip cfg os =
     (if int (length os) < MinSamples cfg then False
      else Threshold cfg \<le> float_div (float_of_int (int (failure_count os))) (float_of_int (int (length os))))"

text \<open>
  The slice \<open>outcomes[len-Window:]\<close>, taken only when \<open>len > Window\<close>: with a negative window its low
  bound exceeds its high bound, which panics.
\<close>

definition slide :: "BreakerConfig \<Rightarrow> bool list \<Rightarrow> bool list option" where
  "slide cfg os =
     (if int (length os) > Window cfg then
        (if Window cfg < 0 then None else Some (drop (length os - nat (Window cfg)) os))
      else Some os)"

text \<open>The flag is whether the call panicked.\<close>

definition record_outcome ::
  "BreakerConfig \<Rightarrow> go_error option \<Rightarrow> instant \<Rightarrow> Breaker \<Rightarrow> Breaker \<times> bool" where
  "record_outcome cfg err now b0 =
     (let b = b0\<lparr>inFlight := inFlight b0 - 1\<rparr>;
          request_fault = (case err of None \<Rightarrow> False | Some x \<Rightarrow> errors_is ErrRequestFault x);
          failed = (err \<noteq> None)
      in if request_fault then (b, False)
         else (case brk_state b of
             halfOpen \<Rightarrow>
               if failed then (enter open_state now b, False)
               else (let b1 = b\<lparr>successes := successes b + 1\<rparr>
                     in if successes b1 \<ge> Probes cfg then (enter closed now b1, False) else (b1, False))
           | closed \<Rightarrow>
               (let appended = outcomes b @ [failed] in
                case slide cfg appended of
                  None \<Rightarrow> (b\<lparr>outcomes := appended\<rparr>, True)
                | Some os \<Rightarrow>
                    (let b1 = b\<lparr>outcomes := os\<rparr>
                     in if shouldTrip cfg os then (enter open_state now b1, False) else (b1, False)))
           | open_state \<Rightarrow> (b, False)))"

definition State :: "Breaker \<Rightarrow> string" where
  "State b = breakerState_String (brk_state b)"

section \<open>A call\<close>

text \<open>\<open>Breaker.Quote\<close> run without interference; \<^const>\<open>None\<close> is a panic.\<close>

definition Breaker_Quote ::
  "QuoteSource \<Rightarrow> BreakerConfig \<Rightarrow> ctx \<Rightarrow> QuoteRequest \<Rightarrow> Breaker \<Rightarrow> world
    \<Rightarrow> (go_error + Quote) option \<times> Breaker \<times> world" where
  "Breaker_Quote nxt cfg c req b w =
     (case reject cfg (w_clock w) b of
        (Some retry_after, b1) \<Rightarrow> (Some (Inl (circuitOpen retry_after)), b1, w)
      | (None, b1) \<Rightarrow>
          (case nxt c req w of (r, w1) \<Rightarrow>
             (case record_outcome cfg (case r of Inl err \<Rightarrow> Some err | Inr _ \<Rightarrow> None) (w_clock w1) b1 of
                (b2, panicked) \<Rightarrow> (if panicked then None else Some r, b2, w1))))"

section \<open>Concurrent calls\<close>

text \<open>
  The breaker shared by concurrent calls: its state, the calls that were admitted and have not ended,
  and those that ended in a panic of the source, which skips \<open>record\<close>.
\<close>

record shared =
  brk :: Breaker
  running :: nat
  lost :: nat

datatype event =
    Begin instant
  | Finish instant "go_error option"
  | Crash

inductive step :: "BreakerConfig \<Rightarrow> event \<Rightarrow> shared \<Rightarrow> shared \<Rightarrow> bool" for cfg where
  turned_away: "reject cfg now (brk s) = (Some d, b) \<Longrightarrow> step cfg (Begin now) s (s\<lparr>brk := b\<rparr>)"
| admitted: "reject cfg now (brk s) = (None, b)
    \<Longrightarrow> step cfg (Begin now) s (s\<lparr>brk := b, running := Suc (running s)\<rparr>)"
| finished: "running s = Suc k \<Longrightarrow> record_outcome cfg err now (brk s) = (b, panicked)
    \<Longrightarrow> step cfg (Finish now err) s (s\<lparr>brk := b, running := k\<rparr>)"
| crashed: "running s = Suc k \<Longrightarrow> step cfg Crash s (s\<lparr>running := k, lost := Suc (lost s)\<rparr>)"

inductive_cases step_BeginE: "step cfg (Begin now) s s'"
inductive_cases step_FinishE: "step cfg (Finish now err) s s'"
inductive_cases step_CrashE: "step cfg Crash s s'"

definition idle_system :: shared where
  "idle_system = \<lparr>brk = NewBreaker, running = 0, lost = 0\<rparr>"

inductive reachable :: "BreakerConfig \<Rightarrow> shared \<Rightarrow> bool" for cfg where
  start: "reachable cfg idle_system"
| next_step: "reachable cfg s \<Longrightarrow> step cfg ev s s' \<Longrightarrow> reachable cfg s'"

section \<open>The invariant\<close>

definition breaker_inv :: "BreakerConfig \<Rightarrow> Breaker \<Rightarrow> bool" where
  "breaker_inv cfg b \<longleftrightarrow>
     (brk_state b \<noteq> closed \<longrightarrow> outcomes b = [])
     \<and> (brk_state b = closed \<longrightarrow> int (length (outcomes b)) \<le> Window cfg \<and> \<not> shouldTrip cfg (outcomes b))
     \<and> (brk_state b \<noteq> halfOpen \<longrightarrow> successes b = 0)
     \<and> (brk_state b = halfOpen \<longrightarrow> 0 \<le> successes b \<and> (0 < successes b \<longrightarrow> successes b < Probes cfg))"

lemma shouldTrip_Nil [simp]: "\<not> shouldTrip cfg []"
  by (simp add: shouldTrip_def failure_count_def float_of_int_def to_float_def)

lemma enter_simps [simp]:
  "brk_state (enter s now b) = s" "successes (enter s now b) = 0" "inFlight (enter s now b) = inFlight b"
  "outcomes (enter s now b) = (if s = halfOpen then outcomes b else [])"
  "openedAt (enter s now b) = (if s = open_state then now else openedAt b)"
  by (cases s; simp add: enter_def Let_def)+

lemma slide_eq: "0 \<le> Window cfg \<Longrightarrow> slide cfg os = Some (drop (length os - nat (Window cfg)) os)"
  by (auto simp: slide_def)

lemma NewBreaker_inv: "0 \<le> Window cfg \<Longrightarrow> breaker_inv cfg NewBreaker"
  by (simp add: breaker_inv_def NewBreaker_def)

lemma admit_inv: "breaker_inv cfg b \<Longrightarrow> breaker_inv cfg (snd (admit cfg b))"
  by (auto simp: admit_def breaker_inv_def)

lemma enter_inv: "0 \<le> Window cfg \<Longrightarrow> s \<noteq> halfOpen \<or> outcomes b = [] \<Longrightarrow> breaker_inv cfg (enter s now b)"
  by (cases s) (simp_all add: breaker_inv_def)

lemma reject_inv: "0 \<le> Window cfg \<Longrightarrow> breaker_inv cfg b \<Longrightarrow> breaker_inv cfg (snd (reject cfg now b))"
  unfolding reject_def Let_def
  by (auto intro!: admit_inv enter_inv) (simp add: breaker_inv_def)

lemma record_inv:
  assumes "0 \<le> Window cfg" "breaker_inv cfg b"
  shows "breaker_inv cfg (fst (record_outcome cfg err now b))"
proof (cases "brk_state b")
  case closed
  then show ?thesis
    using assms enter_inv [OF assms(1), of open_state]
    by (auto simp: record_outcome_def Let_def slide_eq breaker_inv_def)
next
  case open_state
  then show ?thesis using assms(2) by (auto simp: record_outcome_def Let_def breaker_inv_def)
next
  case halfOpen
  then show ?thesis
    using assms(2) enter_inv [OF assms(1)]
    by (auto simp: record_outcome_def Let_def breaker_inv_def)
qed

lemma reject_inFlight:
  "inFlight (snd (reject cfg now b)) = inFlight b + (if fst (reject cfg now b) = None then 1 else 0)"
  by (auto simp: reject_def admit_def Let_def)

lemma record_inFlight [simp]: "inFlight (fst (record_outcome cfg err now b)) = inFlight b - 1"
  by (auto simp: record_outcome_def Let_def split: breakerState.split option.split)

lemma record_no_panic: "0 \<le> Window cfg \<Longrightarrow> \<not> snd (record_outcome cfg err now b)"
  by (auto simp: record_outcome_def Let_def slide_eq split: breakerState.split option.split)

lemma reachable_inv:
  assumes "reachable cfg s" "0 \<le> Window cfg"
  shows "breaker_inv cfg (brk s) \<and> inFlight (brk s) = int (running s) + int (lost s)"
  using assms(1)
proof (induction rule: reachable.induct)
  case start
  then show ?case using NewBreaker_inv [OF assms(2)] by (simp add: idle_system_def NewBreaker_def)
next
  case (next_step s ev s')
  from next_step.hyps(2) show ?case
  proof (cases rule: step.cases)
    case (turned_away now d b)
    then show ?thesis
      using next_step.IH reject_inv [OF assms(2), of "brk s" now] reject_inFlight [of cfg now "brk s"] by simp
  next
    case (admitted now b)
    then show ?thesis
      using next_step.IH reject_inv [OF assms(2), of "brk s" now] reject_inFlight [of cfg now "brk s"] by simp
  next
    case (finished k err now b panicked)
    then show ?thesis
      using next_step.IH record_inv [OF assms(2), of "brk s" err now] record_inFlight [of cfg err now "brk s"]
      by simp
  next
    case (crashed k)
    then show ?thesis using next_step.IH by simp
  qed
qed

section \<open>The window\<close>

definition lastn :: "nat \<Rightarrow> 'a list \<Rightarrow> 'a list" where
  "lastn n xs = drop (length xs - n) xs"

lemma lastn_snoc: "lastn n (lastn n xs @ [x]) = lastn n (xs @ [x])"
  by (cases "n \<le> length xs") (auto simp: lastn_def Suc_diff_le)

lemma length_lastn [simp]: "length (lastn n xs) = min n (length xs)"
  by (simp add: lastn_def)

text \<open>What ends the calls of a busy period, and the part of it that counts.\<close>

type_synonym ending = "instant \<times> go_error option"

definition counts :: "go_error option \<Rightarrow> bool" where
  "counts err \<longleftrightarrow> (case err of None \<Rightarrow> True | Some x \<Rightarrow> \<not> errors_is ErrRequestFault x)"

definition health :: "ending list \<Rightarrow> bool list" where
  "health ends = map (\<lambda>(t, err). err \<noteq> None) (filter (\<lambda>(t, err). counts err) ends)"

definition record_all :: "BreakerConfig \<Rightarrow> ending list \<Rightarrow> Breaker \<Rightarrow> Breaker" where
  "record_all cfg ends b = foldl (\<lambda>b (t, err). fst (record_outcome cfg err t b)) b ends"

definition trips :: "BreakerConfig \<Rightarrow> bool list \<Rightarrow> bool" where
  "trips cfg os \<longleftrightarrow> shouldTrip cfg (lastn (nat (Window cfg)) os)"

lemma health_snoc: "health (ends @ [(t, err)]) = health ends @ (if counts err then [err \<noteq> None] else [])"
  by (simp add: health_def)

lemma record_all_snoc:
  "record_all cfg (ends @ [(t, err)]) b = fst (record_outcome cfg err t (record_all cfg ends b))"
  by (simp add: record_all_def)

lemma record_uncounted: "\<not> counts err \<Longrightarrow> record_outcome cfg err t b = (b\<lparr>inFlight := inFlight b - 1\<rparr>, False)"
  by (simp add: record_outcome_def counts_def Let_def split: option.splits)

lemma record_when_open:
  "brk_state b = open_state \<Longrightarrow> record_outcome cfg err t b = (b\<lparr>inFlight := inFlight b - 1\<rparr>, False)"
  by (simp add: record_outcome_def Let_def)

lemma record_when_closed:
  assumes "brk_state b = closed" "0 \<le> Window cfg" "counts err"
  shows "record_outcome cfg err t b =
    (let b1 = b\<lparr>inFlight := inFlight b - 1, outcomes := lastn (nat (Window cfg)) (outcomes b @ [err \<noteq> None])\<rparr>
     in if shouldTrip cfg (outcomes b1) then (enter open_state t b1, False) else (b1, False))"
  using assms by (cases err) (simp_all add: record_outcome_def counts_def slide_eq lastn_def Let_def)

lemma trips_Nil [simp]: "\<not> trips cfg []"
  by (simp add: trips_def lastn_def)

text \<open>The breaker is the specification "the last \<open>Window\<close> counted outcomes" made incremental.\<close>

lemma record_all_window:
  assumes "brk_state b = closed" "outcomes b = []" "0 \<le> Window cfg"
  shows "if \<exists>p. prefix p (health ends) \<and> trips cfg p
    then brk_state (record_all cfg ends b) = open_state \<and> outcomes (record_all cfg ends b) = []
    else brk_state (record_all cfg ends b) = closed
      \<and> outcomes (record_all cfg ends b) = lastn (nat (Window cfg)) (health ends)"
proof (induction ends rule: rev_induct)
  case Nil
  then show ?case using assms by (simp add: record_all_def health_def lastn_def)
next
  case (snoc k ends)
  obtain t err where k: "k = (t, err)" by (cases k)
  let ?b = "record_all cfg ends b"
  show ?case
  proof (cases "\<exists>p. prefix p (health ends) \<and> trips cfg p")
    case True
    then have "brk_state ?b = open_state \<and> outcomes ?b = []" using snoc.IH by auto
    moreover have "\<exists>p. prefix p (health (ends @ [k])) \<and> trips cfg p"
      using True prefix_prefix by (fastforce simp: k health_snoc)
    ultimately show ?thesis by (simp add: k record_all_snoc record_when_open)
  next
    case False
    then have b: "brk_state ?b = closed" "outcomes ?b = lastn (nat (Window cfg)) (health ends)"
      using snoc.IH by auto
    show ?thesis
    proof (cases "counts err")
      case True
      have "(\<exists>p. prefix p (health (ends @ [k])) \<and> trips cfg p) \<longleftrightarrow> trips cfg (health (ends @ [k]))"
        using False True by (auto simp: k health_snoc)
      then show ?thesis
        using b True assms(3) lastn_snoc [of "nat (Window cfg)" "health ends" "err \<noteq> None"]
        by (simp add: k record_all_snoc record_when_closed health_snoc trips_def Let_def)
    next
      case no: False
      then show ?thesis using b False by (simp add: k record_all_snoc record_uncounted health_snoc)
    qed
  qed
qed

lemma shouldTrip_half:
  assumes "Threshold cfg = Fin (1 / 2)" "length os < 2 ^ 53" "os \<noteq> []"
  shows "shouldTrip cfg os \<longleftrightarrow> MinSamples cfg \<le> int (length os) \<and> length os \<le> 2 * failure_count os"
proof -
  have "failure_count os \<le> length os" by (simp add: failure_count_def)
  then show ?thesis
    using half_quotient [OF assms(2), of "failure_count os"] assms(1,3)
    by (simp add: shouldTrip_def not_less)
qed

section \<open>Sequential traffic\<close>

text \<open>One request after another through the breaker: the outcomes, and the state they leave.\<close>

fun serve ::
  "QuoteSource \<Rightarrow> BreakerConfig \<Rightarrow> (ctx \<times> QuoteRequest) list \<Rightarrow> Breaker \<Rightarrow> world
    \<Rightarrow> (go_error + Quote) option list \<times> Breaker \<times> world" where
  "serve nxt cfg [] b w = ([], b, w)"
| "serve nxt cfg ((c, req) # rs) b w =
     (case Breaker_Quote nxt cfg c req b w of (r, b1, w1) \<Rightarrow>
        (case serve nxt cfg rs b1 w1 of (out, b2, w2) \<Rightarrow> (r # out, b2, w2)))"

definition ready_to_probe :: "BreakerConfig \<Rightarrow> instant \<Rightarrow> Breaker \<Rightarrow> bool" where
  "ready_to_probe cfg now b \<longleftrightarrow> brk_state b = halfOpen
     \<or> (brk_state b = open_state \<and> \<not> time_sub now (openedAt b) < OpenFor cfg)"

lemma reject_probe:
  assumes "ready_to_probe cfg now b" "breaker_inv cfg b"
  shows "reject cfg now b = admit cfg (if brk_state b = halfOpen then b else enter halfOpen now b)"
  using assms by (auto simp: ready_to_probe_def reject_def Let_def)

lemma probe_succeeds:
  assumes b: "ready_to_probe cfg (w_clock w) b" "breaker_inv cfg b" "inFlight b = 0" "1 \<le> Probes cfg"
    and q: "nxt c req w = (Inr q, w1)"
  shows "\<exists>b1. Breaker_Quote nxt cfg c req b w = (Some (Inr q), b1, w1) \<and> inFlight b1 = 0
    \<and> outcomes b1 = [] \<and> (if successes b + 1 < Probes cfg
        then brk_state b1 = halfOpen \<and> successes b1 = successes b + 1
        else brk_state b1 = closed \<and> successes b1 = 0)"
proof -
  let ?b0 = "if brk_state b = halfOpen then b else enter halfOpen (w_clock w) b"
  have b0: "brk_state ?b0 = halfOpen" "successes ?b0 = successes b" "inFlight ?b0 = 0" "outcomes ?b0 = []"
    using b by (auto simp: ready_to_probe_def breaker_inv_def)
  have "reject cfg (w_clock w) b = (None, ?b0\<lparr>inFlight := 1\<rparr>)"
    unfolding reject_probe [OF b(1,2)] using b0(3) b(4) by (simp add: admit_def)
  then show ?thesis
    using b0 b(4) q by (auto simp: Breaker_Quote_def record_outcome_def Let_def)
qed

lemma probe_fails:
  assumes b: "ready_to_probe cfg (w_clock w) b" "breaker_inv cfg b" "inFlight b = 0" "1 \<le> Probes cfg"
    and q: "nxt c req w = (Inl err, w1)" "\<not> errors_is ErrRequestFault err"
  shows "\<exists>b1. Breaker_Quote nxt cfg c req b w = (Some (Inl err), b1, w1) \<and> inFlight b1 = 0
    \<and> outcomes b1 = [] \<and> brk_state b1 = open_state \<and> openedAt b1 = w_clock w1"
proof -
  let ?b0 = "if brk_state b = halfOpen then b else enter halfOpen (w_clock w) b"
  have b0: "brk_state ?b0 = halfOpen" "inFlight ?b0 = 0"
    using b by (auto simp: ready_to_probe_def)
  have "reject cfg (w_clock w) b = (None, ?b0\<lparr>inFlight := 1\<rparr>)"
    unfolding reject_probe [OF b(1,2)] using b0 b(4) by (simp add: admit_def)
  then show ?thesis
    using b0 q by (auto simp: Breaker_Quote_def record_outcome_def Let_def)
qed

context quote_source
begin

lemma Breaker_sent:
  "\<exists>new. w_sent (snd (snd (Breaker_Quote quote cfg c req b w))) = w_sent w @ new \<and> length new \<le> cost"
  using sent [of c req w] by (auto simp: Breaker_Quote_def split: prod.split option.split)

lemma Breaker_clock: "w_clock w \<le> w_clock (snd (snd (Breaker_Quote quote cfg c req b w)))"
  using clock [of w c req] by (auto simp: Breaker_Quote_def split: prod.split option.split)

end

section \<open>Properties\<close>

definition default_breaker :: BreakerConfig where
  "default_breaker =
     \<lparr>Window = 20, MinSamples = 10, Threshold = Fin (1 / 2), OpenFor = 10 * second, Probes = 3\<rparr>"

text \<open>
  C8: in every state any interleaving of concurrent calls can reach, the breaker's invariant holds: the
  window is empty unless the circuit is closed, never longer than \<open>Window\<close>, never one that should have
  tripped; successes are only counted half-open and stay below \<open>Probes\<close>; and \<open>inFlight\<close> is exactly
  the admitted calls that have not ended plus those lost to a panic.
\<close>

theorem Breaker_invariant:
  assumes "reachable cfg s" and "0 \<le> Window cfg"
  shows "(brk_state (brk s) \<noteq> closed \<longrightarrow> outcomes (brk s) = [])
    \<and> int (length (outcomes (brk s))) \<le> Window cfg
    \<and> (brk_state (brk s) = closed \<longrightarrow> \<not> shouldTrip cfg (outcomes (brk s)))
    \<and> (brk_state (brk s) \<noteq> halfOpen \<longrightarrow> successes (brk s) = 0)
    \<and> (0 < successes (brk s) \<longrightarrow> successes (brk s) < Probes cfg)
    \<and> inFlight (brk s) = int (running s) + int (lost s)"
  using reachable_inv [OF assms] assms(2) by (cases "brk_state (brk s)") (auto simp: breaker_inv_def)

theorem Breaker_invariant_witness:
  "\<exists>s. reachable default_breaker s \<and> running s = 1 \<and> lost s = 1 \<and> inFlight (brk s) = 2"
proof -
  let ?s1 = "\<lparr>brk = NewBreaker\<lparr>inFlight := 1\<rparr>, running = 1, lost = 0\<rparr>"
  let ?s2 = "\<lparr>brk = NewBreaker\<lparr>inFlight := 1\<rparr>, running = 0, lost = 1\<rparr>"
  let ?s3 = "\<lparr>brk = NewBreaker\<lparr>inFlight := 2\<rparr>, running = 1, lost = 1\<rparr>"
  have r: "reject cfg now (NewBreaker\<lparr>inFlight := n\<rparr>) = (None, NewBreaker\<lparr>inFlight := n + 1\<rparr>)" for cfg now n
    by (simp add: reject_def admit_def NewBreaker_def)
  have z: "NewBreaker = NewBreaker\<lparr>inFlight := 0\<rparr>" by (simp add: NewBreaker_def)
  have "step default_breaker (Begin 0) idle_system ?s1"
    using admitted [of default_breaker 0 idle_system "NewBreaker\<lparr>inFlight := 1\<rparr>"] r [of default_breaker 0 0] z
    by (simp add: idle_system_def)
  moreover have "step default_breaker Crash ?s1 ?s2" using crashed [of ?s1 0] by simp
  moreover have "step default_breaker (Begin 1) ?s2 ?s3"
    using admitted [of default_breaker 1 ?s2 "NewBreaker\<lparr>inFlight := 2\<rparr>"] r [of default_breaker 1 1] by simp
  ultimately have s3: "reachable default_breaker ?s3"
    using start next_step by metis
  have "0 \<le> Window default_breaker" by (simp add: default_breaker_def)
  from Breaker_invariant [OF s3 this] s3 show ?thesis by (intro exI [of _ ?s3]) simp
qed

text \<open>
  C7: the trip rule, at the configured threshold of one half. However the calls of a busy period end, the
  circuit opens exactly if at some point the last \<open>Window\<close> outcomes that count were at least
  \<open>MinSamples\<close> and at least half of them failures; request faults do not count at all. While it stays
  closed the breaker holds precisely those last outcomes. The comparison in floating point is exact.
\<close>

theorem Breaker_trip_rule:
  assumes "brk_state b = closed" and "outcomes b = []"
    and "0 \<le> Window cfg" and "Window cfg < 2 ^ 53" and "Threshold cfg = Fin (1 / 2)"
  shows "if \<exists>p. prefix p (health ends) \<and>
        (let os = lastn (nat (Window cfg)) p
         in os \<noteq> [] \<and> MinSamples cfg \<le> int (length os) \<and> length os \<le> 2 * failure_count os)
    then brk_state (record_all cfg ends b) = open_state
    else brk_state (record_all cfg ends b) = closed
      \<and> outcomes (record_all cfg ends b) = lastn (nat (Window cfg)) (health ends)"
proof -
  have "trips cfg p \<longleftrightarrow> (let os = lastn (nat (Window cfg)) p
      in os \<noteq> [] \<and> MinSamples cfg \<le> int (length os) \<and> length os \<le> 2 * failure_count os)" for p
  proof (cases "lastn (nat (Window cfg)) p = []")
    case True
    then show ?thesis by (simp add: trips_def Let_def)
  next
    case False
    have "length (lastn (nat (Window cfg)) p) \<le> nat (Window cfg)" by simp
    also have "nat (Window cfg) < 2 ^ 53" using assms(3,4) by simp
    finally show ?thesis
      using False by (simp add: trips_def Let_def shouldTrip_half [OF assms(5)])
  qed
  then show ?thesis using record_all_window [OF assms(1-3), of ends] by (simp split: if_splits)
qed

definition failure_ending :: ending where
  "failure_ending = (0, Some (SentinelError ErrTransient))"

text \<open>Nine failures leave the circuit closed, the tenth opens it.\<close>

theorem Breaker_trip_rule_witness:
  "brk_state (record_all default_breaker (replicate 9 failure_ending) NewBreaker) = closed
   \<and> brk_state (record_all default_breaker (replicate 10 failure_ending) NewBreaker) = open_state"
proof -
  have d: "brk_state NewBreaker = closed" "outcomes NewBreaker = []" "0 \<le> Window default_breaker"
    "Window default_breaker < 2 ^ 53" "Threshold default_breaker = Fin (1 / 2)"
    by (simp_all add: NewBreaker_def default_breaker_def)
  have h: "health (replicate n failure_ending) = replicate n True" for n
    by (simp add: health_def failure_ending_def counts_def)
  have "length (lastn k p) < 10" if "prefix p (replicate 9 True)" for p :: "bool list" and k
    using prefix_length_le [OF that] by simp
  then have "\<not> (\<exists>p. prefix p (replicate 9 True) \<and> (let os = lastn (nat (Window default_breaker)) p
      in os \<noteq> [] \<and> MinSamples default_breaker \<le> int (length os) \<and> length os \<le> 2 * failure_count os))"
  proof -
    have "\<not> MinSamples default_breaker \<le> int n" if "n < 10" for n
      using that by (simp add: default_breaker_def)
    then show ?thesis using \<open>\<And>p k. prefix p (replicate 9 True) \<Longrightarrow> length (lastn k p) < 10\<close>
      by (meson)
  qed
  then have "brk_state (record_all default_breaker (replicate 9 failure_ending) NewBreaker) = closed"
    using Breaker_trip_rule [OF d, of "replicate 9 failure_ending"] unfolding h by presburger
  moreover have "brk_state (record_all default_breaker (replicate 10 failure_ending) NewBreaker) = open_state"
  proof -
    have "lastn (nat (Window default_breaker)) (replicate 10 True) = replicate 10 True"
      "failure_count (replicate 10 True) = 10" "MinSamples default_breaker = 10"
      by code_simp+
    then have "\<exists>p. prefix p (replicate 10 True) \<and> (let os = lastn (nat (Window default_breaker)) p
         in os \<noteq> [] \<and> MinSamples default_breaker \<le> int (length os) \<and> length os \<le> 2 * failure_count os)"
      by (intro exI [of _ "replicate 10 True"]) simp
    then show ?thesis
      using Breaker_trip_rule [OF d, of "replicate 10 failure_ending"] unfolding h by presburger
  qed
  ultimately show ?thesis ..
qed

text \<open>
  C24: an open circuit costs nothing. Until \<open>OpenFor\<close> has passed, a request is answered at once with the
  circuit-open error carrying exactly the time left, which is positive; the state of the breaker and of
  the world are untouched, so nothing reaches the vendor.
\<close>

theorem open_circuit_shields:
  assumes "brk_state b = open_state" and "openedAt b \<le> w_clock w"
    and "w_clock w - openedAt b < OpenFor cfg" and "is_int64 (OpenFor cfg)"
  shows "let left = OpenFor cfg - (w_clock w - openedAt b)
    in 0 < left \<and> Breaker_Quote nxt cfg c req b w = (Some (Inl (HttpxError (CircuitOpen left))), b, w)"
proof -
  have sub: "time_sub (w_clock w) (openedAt b) = w_clock w - openedAt b"
    using assms(2-4) by (simp add: time_sub_def is_int64_def)
  moreover have "is_int64 (OpenFor cfg - (w_clock w - openedAt b))"
    using assms(2-4) by (simp add: is_int64_def)
  ultimately show ?thesis
    using assms by (simp add: Breaker_Quote_def reject_def circuitOpen_def Let_def)
qed

definition tripped :: "instant \<Rightarrow> Breaker" where
  "tripped t = enter open_state t NewBreaker"

theorem open_circuit_shields_witness:
  "Breaker_Quote (\<lambda>c req w. (Inr zero_Quote, w)) default_breaker background example_request (tripped 0) (start_world\<lparr>w_clock := 4 * second\<rparr>) =
     (Some (Inl (HttpxError (CircuitOpen (6 * second)))), tripped 0, start_world\<lparr>w_clock := 4 * second\<rparr>)"
proof -
  have "brk_state (tripped 0) = open_state" "openedAt (tripped 0) = 0" "OpenFor default_breaker = 10 * second"
    by (simp_all add: tripped_def default_breaker_def)
  then show ?thesis
    using open_circuit_shields [of "tripped 0" "start_world\<lparr>w_clock := 4 * second\<rparr>" default_breaker
        "\<lambda>c req w. (Inr zero_Quote, w)" background example_request]
    by (simp add: is_int64_def)
qed

lemma serve_probes:
  assumes ok: "\<And>c req w. \<exists>q w1. nxt c req w = (Inr q, w1)" and "1 \<le> Probes cfg" "0 \<le> Window cfg"
  shows "ready_to_probe cfg (w_clock w) b \<Longrightarrow> breaker_inv cfg b \<Longrightarrow> inFlight b = 0
    \<Longrightarrow> rs \<noteq> [] \<Longrightarrow> successes b + int (length rs) = Probes cfg
    \<Longrightarrow> \<exists>qs b2 w2. serve nxt cfg rs b w = (map (\<lambda>q. Some (Inr q)) qs, b2, w2) \<and> length qs = length rs
      \<and> brk_state b2 = closed \<and> outcomes b2 = [] \<and> inFlight b2 = 0"
proof (induction rs arbitrary: b w)
  case Nil
  then show ?case by simp
next
  case (Cons r rs)
  obtain c req where r: "r = (c, req)" by (cases r)
  obtain q w1 where q: "nxt c req w = (Inr q, w1)" using ok by blast
  obtain b1 where b1: "Breaker_Quote nxt cfg c req b w = (Some (Inr q), b1, w1)" "inFlight b1 = 0"
    "outcomes b1 = []" "if successes b + 1 < Probes cfg
        then brk_state b1 = halfOpen \<and> successes b1 = successes b + 1
        else brk_state b1 = closed \<and> successes b1 = 0"
    using probe_succeeds [OF Cons.prems(1-3) assms(2), of nxt c req q w1] q by blast
  show ?case
  proof (cases "rs = []")
    case True
    then show ?thesis using b1 Cons.prems(5) by (intro exI [of _ "[q]"] exI [of _ b1] exI [of _ w1]) (simp add: r)
  next
    case False
    then have more: "brk_state b1 = halfOpen" "successes b1 = successes b + 1"
      using b1(4) Cons.prems(5) by (cases rs; simp)+
    have "breaker_inv cfg b1"
      using more b1(3) Cons.prems(2,5) False
      by (cases rs) (auto simp: breaker_inv_def)
    from Cons.IH [of w1 b1, OF _ this b1(2) False] more Cons.prems(5)
    obtain qs b2 w2 where "serve nxt cfg rs b1 w1 = (map (\<lambda>q. Some (Inr q)) qs, b2, w2)"
      "length qs = length rs" "brk_state b2 = closed" "outcomes b2 = []" "inFlight b2 = 0"
      by (auto simp: ready_to_probe_def)
    then show ?thesis
      using b1(1) by (intro exI [of _ "q # qs"] exI [of _ b2] exI [of _ w2]) (simp add: r)
  qed
qed

text \<open>
  C25: recovery. Once \<open>OpenFor\<close> has passed and no call is in flight, the next \<open>Probes\<close> requests are let
  through one after another; if the vendor answers them all, they are served and the circuit is closed,
  with an empty window, so that failures from before the outage cannot trip it again.
\<close>

theorem Breaker_recovers:
  assumes "brk_state b = open_state" and "breaker_inv cfg b" and "inFlight b = 0"
    and "\<not> time_sub (w_clock w) (openedAt b) < OpenFor cfg"
    and "0 \<le> Window cfg" and "1 \<le> Probes cfg" and "int (length rs) = Probes cfg"
    and "\<And>c req w. \<exists>q w1. nxt c req w = (Inr q, w1)"
  shows "\<exists>qs b2 w2. serve nxt cfg rs b w = (map (\<lambda>q. Some (Inr q)) qs, b2, w2)
    \<and> length qs = length rs \<and> State b2 = ''closed'' \<and> outcomes b2 = [] \<and> inFlight b2 = 0"
proof -
  have "ready_to_probe cfg (w_clock w) b" using assms(1,4) by (simp add: ready_to_probe_def)
  moreover have "successes b = 0" using assms(1,2) by (simp add: breaker_inv_def)
  ultimately show ?thesis
    using serve_probes [OF assms(8,6,5), of w b rs] assms(2,3,6,7)
    by (fastforce simp: State_def breakerState_String_def)
qed

theorem Breaker_recovers_witness:
  "\<exists>qs b2 w2. serve (\<lambda>c req w. (Inr zero_Quote, w)) default_breaker
       (replicate 3 (background, example_request)) (tripped 0) (start_world\<lparr>w_clock := 10 * second\<rparr>)
     = (map (\<lambda>q. Some (Inr q)) qs, b2, w2) \<and> length qs = 3 \<and> State b2 = ''closed''"
proof -
  have "brk_state (tripped 0) = open_state" "breaker_inv default_breaker (tripped 0)" "inFlight (tripped 0) = 0"
    "\<not> time_sub (10 * second) (openedAt (tripped 0)) < OpenFor default_breaker"
    "0 \<le> Window default_breaker" "1 \<le> Probes default_breaker" "Probes default_breaker = 3"
    by (simp_all add: tripped_def default_breaker_def breaker_inv_def time_sub_def NewBreaker_def)
  then show ?thesis
    using Breaker_recovers [of "tripped 0" default_breaker "start_world\<lparr>w_clock := 10 * second\<rparr>"
        "replicate 3 (background, example_request)" "\<lambda>c req w. (Inr zero_Quote, w)"]
    by fastforce
qed

definition stuck :: "BreakerConfig \<Rightarrow> shared \<Rightarrow> bool" where
  "stuck cfg s \<longleftrightarrow> brk_state (brk s) \<noteq> closed \<and> running s = 0 \<and> Probes cfg \<le> inFlight (brk s)"

lemma reject_stuck:
  assumes "brk_state b \<noteq> closed" "Probes cfg \<le> inFlight b"
  shows "fst (reject cfg now b) \<noteq> None \<and> brk_state (snd (reject cfg now b)) \<noteq> closed
    \<and> inFlight (snd (reject cfg now b)) = inFlight b"
  using assms by (cases "brk_state b") (auto simp: reject_def admit_def Let_def)

lemma step_stuck: "step cfg ev s s' \<Longrightarrow> stuck cfg s \<Longrightarrow> stuck cfg s' \<and> (\<exists>now. ev = Begin now)"
proof (induction rule: step.induct)
  case (turned_away now s d b)
  then show ?case using reject_stuck [of "brk s" cfg now] by (simp add: stuck_def)
next
  case (admitted now s b)
  then show ?case using reject_stuck [of "brk s" cfg now] by (simp add: stuck_def)
qed (simp_all add: stuck_def)

inductive run :: "BreakerConfig \<Rightarrow> event list \<Rightarrow> shared \<Rightarrow> shared \<Rightarrow> bool" for cfg where
  no_event: "run cfg [] s s"
| one_more: "step cfg ev s s1 \<Longrightarrow> run cfg evs s1 s2 \<Longrightarrow> run cfg (ev # evs) s s2"

text \<open>
  C38: a circuit that cannot recover. If the circuit is not closed, no call is running and \<open>inFlight\<close> has
  reached \<open>Probes\<close> (because \<open>Probes\<close> is configured as 0 or less, which startup accepts, or because
  that many calls were lost to panics), then whatever happens next no call is ever admitted again.
\<close>

theorem Breaker_stuck_forever:
  assumes "run cfg evs s s'" and "stuck cfg s"
  shows "stuck cfg s' \<and> list_all (\<lambda>ev. \<exists>now. ev = Begin now) evs
    \<and> (\<forall>now. fst (reject cfg now (brk s')) \<noteq> None)"
  using assms
proof (induction rule: run.induct)
  case (no_event s)
  then show ?case using reject_stuck by (simp add: stuck_def)
next
  case (one_more ev s s1 evs s2)
  then show ?case using step_stuck [of cfg ev s s1] by simp
qed

text \<open>With \<open>Probes = 0\<close>: one failure in a window of one opens the circuit, for good.\<close>

definition no_probes :: BreakerConfig where
  "no_probes = \<lparr>Window = 1, MinSamples = 1, Threshold = Fin (1 / 2), OpenFor = second, Probes = 0\<rparr>"

theorem Breaker_stuck_forever_witness:
  "\<exists>s. reachable no_probes s \<and> stuck no_probes s \<and> (\<forall>now. fst (reject no_probes now (brk s)) \<noteq> None)"
proof -
  let ?s1 = "\<lparr>brk = NewBreaker\<lparr>inFlight := 1\<rparr>, running = 1, lost = 0\<rparr>"
  let ?b2 = "enter open_state 5 (NewBreaker\<lparr>inFlight := 0, outcomes := [True]\<rparr>)"
  let ?s2 = "\<lparr>brk = ?b2, running = 0, lost = 0\<rparr>"
  have "reject no_probes 0 NewBreaker = (None, NewBreaker\<lparr>inFlight := 1\<rparr>)"
    by (simp add: reject_def admit_def NewBreaker_def)
  then have "step no_probes (Begin 0) idle_system ?s1"
    using admitted [of no_probes 0 idle_system] by (simp add: idle_system_def)
  moreover have "shouldTrip no_probes [True]"
    by (simp add: shouldTrip_half no_probes_def failure_count_def)
  then have "record_outcome no_probes (Some (PlainError [])) 5 (NewBreaker\<lparr>inFlight := 1\<rparr>) = (?b2, False)"
    by (simp add: record_when_closed NewBreaker_def no_probes_def counts_def lastn_def)
  then have "step no_probes (Finish 5 (Some (PlainError []))) ?s1 ?s2"
    using finished [of ?s1 0] by simp
  ultimately have s2: "reachable no_probes ?s2" using start next_step by metis
  have "stuck no_probes ?s2" by (simp add: stuck_def no_probes_def NewBreaker_def)
  with Breaker_stuck_forever [OF run.no_event this] s2 show ?thesis by blast
qed

text \<open>
  A breaker that can never trip is accepted too: with a window of no outcomes, or with a threshold
  that is not a number, the circuit is closed in every reachable state, whatever fails.
\<close>

theorem Breaker_never_trips:
  assumes "reachable cfg s" and "Window cfg = 0 \<or> (Threshold cfg = NaN \<and> 0 \<le> Window cfg)"
  shows "brk_state (brk s) = closed"
  using assms(1)
proof (induction rule: reachable.induct)
  case start
  then show ?case by (simp add: idle_system_def NewBreaker_def)
next
  case (next_step s ev s')
  have trip: "\<not> shouldTrip cfg os" if "slide cfg ys = Some os" for ys os
    using assms(2) that by (cases "Window cfg = 0") (auto simp: slide_eq, simp add: shouldTrip_def split: if_splits)
  have rec: "brk_state (fst (record_outcome cfg err t (brk s))) = closed" for err t
    using next_step.IH trip by (auto simp: record_outcome_def Let_def split: option.split)
  have rej: "brk_state (snd (reject cfg t (brk s))) = closed" for t
    using next_step.IH by (simp add: reject_def admit_def)
  from next_step.hyps(2) next_step.IH show ?case
    by (cases rule: step.cases) (use rec rej in \<open>metis fst_conv snd_conv shared.select_convs(1) shared.surjective shared.update_convs(1,2,3)\<close>)+
qed

definition no_window :: BreakerConfig where
  "no_window = \<lparr>Window = 0, MinSamples = 0, Threshold = Fin 0, OpenFor = second, Probes = 3\<rparr>"

theorem Breaker_never_trips_witness:
  "\<exists>s. reachable no_window s \<and> inFlight (brk s) = 1 \<and> brk_state (brk s) = closed"
proof -
  let ?s = "\<lparr>brk = NewBreaker\<lparr>inFlight := 1\<rparr>, running = 1, lost = 0\<rparr>"
  have "reject no_window 0 NewBreaker = (None, NewBreaker\<lparr>inFlight := 1\<rparr>)"
    by (simp add: reject_def admit_def NewBreaker_def)
  then have "step no_window (Begin 0) idle_system ?s"
    using admitted [of no_window 0 idle_system] by (simp add: idle_system_def)
  then have r: "reachable no_window ?s" using start next_step by metis
  have "Window no_window = 0 \<or> (Threshold no_window = NaN \<and> 0 \<le> Window no_window)"
    by (simp add: no_window_def)
  from Breaker_never_trips [OF r this] r show ?thesis by (intro exI [of _ ?s]) simp
qed

end
