(* ===== verification/Middleware.thy ===== *)
theory Middleware
  imports Authtoken Staffdir Breaker
begin

text \<open>
  \<open>internal/cqappmiddleware\<close>, the parts that face the caller: \<open>auth.go\<close>, \<open>entitle.go\<close>, \<open>handler.go\<close>.
  The state of the service is the world and the breaker; a request runs through the chain of
  \<open>NewRouter\<close> as in the code. The properties are about the whole chain: who gets through, what reaches
  the vendor for them, and what every other request is answered.
\<close>

section \<open>State and configuration\<close>

record server =
  sv_world :: world
  sv_brk :: Breaker

definition server_clock :: "server \<Rightarrow> instant" where
  "server_clock s = w_clock (sv_world s)"

record Config =
  cfg_Port :: int
  LogLevel :: string
  OTLPEndpoint :: string
  VendorBaseURL :: string
  VendorAPIKey :: string
  SigningKey :: string
  VendorTimeout :: duration
  RequestBudget :: duration
  ClockSkew :: duration
  cfg_Retry :: RetryConfig
  cfg_Breaker :: BreakerConfig
  StaffFile :: string

text \<open>Waiting for the body of a request.\<close>

definition receive_body :: "request \<Rightarrow> server \<Rightarrow> server" where
  "receive_body r s = s\<lparr>sv_world := (sv_world s)\<lparr>w_clock := server_clock s + int (rq_body_time r)\<rparr>\<rparr>"

text \<open>A quote source as the handler sees it: \<^const>\<open>None\<close> is a panic.\<close>

type_synonym 's quoter = "ctx \<Rightarrow> QuoteRequest \<Rightarrow> 's \<Rightarrow> (go_error + Quote) option \<times> 's"

section \<open>Authentication\<close>

definition WithCaller :: "Caller \<Rightarrow> ctx \<Rightarrow> ctx" where
  "WithCaller caller c = c\<lparr>ctx_caller := Some caller\<rparr>"

definition CallerFrom :: "ctx \<Rightarrow> Caller option" where
  "CallerFrom c = ctx_caller c"

definition errNoBearer :: go_error where
  "errNoBearer = PlainError ''missing or malformed Authorization header''"

definition bearerToken :: "request \<Rightarrow> go_error + string" where
  "bearerToken r =
     (case cut CHR '' '' (header_get ''Authorization'' r) of (scheme, token, found) \<Rightarrow>
        if \<not> found \<or> \<not> equal_fold_ascii scheme ''Bearer'' \<or> trim_space token = [] then Inl errNoBearer
        else Inr (trim_space token))"

definition reject_with :: "ctx \<Rightarrow> httpx_error \<Rightarrow> 's \<Rightarrow> response option \<times> 's" where
  "reject_with c e s = respond (WriteError (ctx_correlation c) (HttpxError e)) s"

text \<open>The verifier's answer depends on the clock, hence on the state.\<close>

definition Authenticate :: "('s \<Rightarrow> string \<Rightarrow> go_error + Caller) \<Rightarrow> 's middleware" where
  "Authenticate verify next c r s =
     (case bearerToken r of
        Inl err \<Rightarrow> reject_with c (Unauthenticated (Some err)) s
      | Inr raw \<Rightarrow>
          (case verify s raw of
             Inl err \<Rightarrow> reject_with c (Unauthenticated (Some err)) s
           | Inr caller \<Rightarrow> next (WithCaller caller c) r s))"

section \<open>Entitlement\<close>

definition Allows ::
  "(ctx \<Rightarrow> string \<Rightarrow> go_error + string list) \<Rightarrow> ctx \<Rightarrow> string \<Rightarrow> string \<Rightarrow> go_error + bool" where
  "Allows granted c subject scope =
     (case granted c subject of Inl err \<Rightarrow> Inl err | Inr scopes \<Rightarrow> Inr (contains scopes scope))"

definition Authorise :: "(ctx \<Rightarrow> string \<Rightarrow> go_error + string list) \<Rightarrow> string \<Rightarrow> 's middleware" where
  "Authorise granted scope next c r s =
     (case CallerFrom c of
        None \<Rightarrow> reject_with c (Internal (Some (PlainError ''authorise ran without authenticate''))) s
      | Some caller \<Rightarrow>
          if \<not> contains (Requested caller) scope
          then reject_with c (Forbidden (Some (PlainError ''scope not requested''))) s
          else (case Allows granted c (Subject caller) scope of
              Inl err \<Rightarrow> reject_with c (Internal (Some err)) s
            | Inr False \<Rightarrow> reject_with c (Forbidden (Some (PlainError ''scope not granted''))) s
            | Inr True \<Rightarrow> next c r s))"

section \<open>The quote handler\<close>

definition maxRequestBody :: nat where "maxRequestBody = 65536"

definition encode_quote :: "Quote \<Rightarrow> string" where
  "encode_quote q =
     json_object [(''quoteId'', json_string (QuoteID q)),
                  (''commissionRate'', Rate_MarshalJSON (CommissionRate q)),
                  (''totalCommission'', Amount_MarshalJSON (TotalCommission q))]"

definition Handler_Quote :: "server quoter \<Rightarrow> server handler" where
  "Handler_Quote vendor c r s =
     (let s1 = receive_body r s in
      case read_body maxRequestBody r of
        Inl err \<Rightarrow> reject_with c (Malformed (Some err)) s1
      | Inr body \<Rightarrow>
          (case Validate body of
             None \<Rightarrow> (None, s1)
           | Some (req, fieldErrors) \<Rightarrow>
               if fieldErrors \<noteq> [] then reject_with c (Validation fieldErrors) s1
               else (case vendor c req s1 of
                   (None, s') \<Rightarrow> (None, s')
                 | (Some (Inl err), s') \<Rightarrow> respond (WriteError (ctx_correlation c) err) s'
                 | (Some (Inr quote), s') \<Rightarrow> respond (WriteJSON 200 (encode_quote quote)) s')))"

section \<open>The router\<close>

definition NewVendorClient :: "string \<Rightarrow> string \<Rightarrow> duration \<Rightarrow> VendorClient" where
  "NewVendorClient base key timeout = \<lparr>vc_baseURL = base, vc_apiKey = key, vc_timeout = timeout\<rparr>"

definition vendor_client :: "Config \<Rightarrow> VendorClient" where
  "vendor_client cfg = NewVendorClient (VendorBaseURL cfg) (VendorAPIKey cfg) (VendorTimeout cfg)"

text \<open>\<open>breaker(retrier(client))\<close> on the state of the service.\<close>

definition resilient :: "env \<Rightarrow> Config \<Rightarrow> server quoter" where
  "resilient e cfg c req s =
     (case Breaker_Quote (Retrier_Quote e (VendorClient_Quote e (vendor_client cfg)) (cfg_Retry cfg))
         (cfg_Breaker cfg) c req (sv_brk s) (sv_world s) of
       (out, b, w) \<Rightarrow> (out, s\<lparr>sv_brk := b, sv_world := w\<rparr>))"

definition quote_chain ::
  "jwt \<Rightarrow> Config \<Rightarrow> (ctx \<Rightarrow> string \<Rightarrow> go_error + string list) \<Rightarrow> server quoter \<Rightarrow> server handler" where
  "quote_chain j cfg granted vendor =
     Chain (Handler_Quote vendor)
       [Authenticate (\<lambda>s raw. Verify j (NewVerifier (SigningKey cfg) (ClockSkew cfg)) (server_clock s) raw),
        Authorise granted ScopeQuoteGenerate]"

definition middleware_mux ::
  "jwt \<Rightarrow> Config \<Rightarrow> (ctx \<Rightarrow> string \<Rightarrow> go_error + string list) \<Rightarrow> server quoter \<Rightarrow> server handler" where
  "middleware_mux j cfg granted vendor =
     Mux [\<lparr>rt_method = ''GET'', rt_path = ''/healthz'', rt_handler = Health\<rparr>,
          \<lparr>rt_method = ''POST'', rt_path = ''/v1/quotes'', rt_handler = quote_chain j cfg granted vendor\<rparr>]"

text \<open>
  Tracing and the request log wrap the chain in the code too; that the log changes neither the response nor
  the state is shown in \<open>Accesslog\<close>.
\<close>

definition NewRouterWith ::
  "jwt \<Rightarrow> draws \<Rightarrow> Config \<Rightarrow> (ctx \<Rightarrow> string \<Rightarrow> go_error + string list) \<Rightarrow> server quoter \<Rightarrow> server handler" where
  "NewRouterWith j d cfg granted vendor =
     Chain (middleware_mux j cfg granted vendor)
       [Correlation d, Recoverer, Timeout server_clock (RequestBudget cfg)]"

definition NewRouter ::
  "env \<Rightarrow> jwt \<Rightarrow> draws \<Rightarrow> Config \<Rightarrow> (ctx \<Rightarrow> string \<Rightarrow> go_error + string list) \<Rightarrow> server handler" where
  "NewRouter e j d cfg granted = NewRouterWith j d cfg granted (resilient e cfg)"

section \<open>Lemmas\<close>

text \<open>What the gate lets through: the caller and the validated request.\<close>

definition verified ::
  "jwt \<Rightarrow> Config \<Rightarrow> request \<Rightarrow> server \<Rightarrow> Caller \<Rightarrow> bool" where
  "verified j cfg r s caller \<longleftrightarrow>
     (\<exists>raw. bearerToken r = Inr raw
        \<and> Verify j (NewVerifier (SigningKey cfg) (ClockSkew cfg)) (server_clock s) raw = Inr caller)"

definition entitled :: "(ctx \<Rightarrow> string \<Rightarrow> go_error + string list) \<Rightarrow> ctx \<Rightarrow> Caller \<Rightarrow> bool" where
  "entitled granted c caller \<longleftrightarrow>
     ScopeQuoteGenerate \<in> set (Requested caller)
     \<and> (\<exists>scopes. granted c (Subject caller) = Inr scopes \<and> ScopeQuoteGenerate \<in> set scopes)"

definition acceptable :: "request \<Rightarrow> QuoteRequest \<Rightarrow> bool" where
  "acceptable r req \<longleftrightarrow> (\<exists>body. read_body maxRequestBody r = Inr body \<and> Validate body = Some (req, []))"

lemma bearer_cases:
  "fst (Authenticate verify next c r s) = Some resp \<Longrightarrow>
    resp_status resp \<noteq> 401 \<Longrightarrow> \<exists>raw caller. bearerToken r = Inr raw \<and> verify s raw = Inr caller"
  by (auto simp: Authenticate_def reject_with_def respond_def WriteError_def WriteJSON_def Let_def
      Unauthenticated_def split: sum.splits)

lemma quote_chain_eq:
  "quote_chain j cfg granted vendor c r s =
    Authenticate (\<lambda>s raw. Verify j (NewVerifier (SigningKey cfg) (ClockSkew cfg)) (server_clock s) raw)
      (Authorise granted ScopeQuoteGenerate (Handler_Quote vendor)) c r s"
  by (simp add: quote_chain_def)

lemma reject_with_simps [simp]:
  "snd (reject_with c e s) = s" "fst (reject_with c e s) = Some (WriteError (ctx_correlation c) (HttpxError e))"
  by (simp_all add: reject_with_def respond_def)

lemma WithCaller_simps [simp]:
  "CallerFrom (WithCaller caller c) = Some caller"
  "ctx_correlation (WithCaller caller c) = ctx_correlation c"
  "reject_with (WithCaller caller c) e s = reject_with c e s"
  by (simp_all add: CallerFrom_def WithCaller_def reject_with_def)

lemma receive_body_simps [simp]:
  "sv_brk (receive_body r s) = sv_brk s" "w_sent (sv_world (receive_body r s)) = w_sent (sv_world s)"
  "server_clock (receive_body r s) = server_clock s + int (rq_body_time r)"
  by (simp_all add: receive_body_def server_clock_def)

lemma receive_at_once: "rq_body_time r = 0 \<Longrightarrow> receive_body r s = s"
  by (simp add: receive_body_def server_clock_def)

text \<open>The request is served: every gate is open.\<close>

lemma quote_chain_through:
  assumes "verified j cfg r s caller" "entitled granted (WithCaller caller c) caller" "acceptable r req"
  shows "quote_chain j cfg granted vendor c r s =
    (case vendor (WithCaller caller c) req (receive_body r s) of
       (None, s') \<Rightarrow> (None, s')
     | (Some (Inl err), s') \<Rightarrow> respond (WriteError (ctx_correlation c) err) s'
     | (Some (Inr quote), s') \<Rightarrow> respond (WriteJSON 200 (encode_quote quote)) s')"
  using assms
  by (auto simp: quote_chain_eq verified_def entitled_def acceptable_def Authenticate_def Authorise_def
      Allows_def Handler_Quote_def split: prod.split option.split sum.split)

text \<open>
  Otherwise a gate is shut and the response is the gate's. The body is waited for only behind the first two;
  that moves the clock and leaves the rest of the state untouched.
\<close>

definition past_gates ::
  "jwt \<Rightarrow> Config \<Rightarrow> (ctx \<Rightarrow> string \<Rightarrow> go_error + string list) \<Rightarrow> ctx \<Rightarrow> request \<Rightarrow> server \<Rightarrow> bool" where
  "past_gates j cfg granted c r s \<longleftrightarrow>
     (\<exists>caller. verified j cfg r s caller \<and> entitled granted (WithCaller caller c) caller)"

definition refused_state ::
  "jwt \<Rightarrow> Config \<Rightarrow> (ctx \<Rightarrow> string \<Rightarrow> go_error + string list) \<Rightarrow> ctx \<Rightarrow> request \<Rightarrow> server \<Rightarrow> server" where
  "refused_state j cfg granted c r s = (if past_gates j cfg granted c r s then receive_body r s else s)"

definition refusal ::
  "jwt \<Rightarrow> Config \<Rightarrow> (ctx \<Rightarrow> string \<Rightarrow> go_error + string list) \<Rightarrow> ctx \<Rightarrow> request \<Rightarrow> server \<Rightarrow> httpx_error" where
  "refusal j cfg granted c r s =
     (case bearerToken r of
        Inl err \<Rightarrow> Unauthenticated (Some err)
      | Inr raw \<Rightarrow>
          (case Verify j (NewVerifier (SigningKey cfg) (ClockSkew cfg)) (server_clock s) raw of
             Inl err \<Rightarrow> Unauthenticated (Some err)
           | Inr caller \<Rightarrow>
               if ScopeQuoteGenerate \<notin> set (Requested caller)
               then Forbidden (Some (PlainError ''scope not requested''))
               else (case granted (WithCaller caller c) (Subject caller) of
                   Inl err \<Rightarrow> Internal (Some err)
                 | Inr scopes \<Rightarrow>
                     if ScopeQuoteGenerate \<notin> set scopes
                     then Forbidden (Some (PlainError ''scope not granted''))
                     else (case read_body maxRequestBody r of
                         Inl err \<Rightarrow> Malformed (Some err)
                       | Inr body \<Rightarrow> Validation (snd (the (Validate body)))))))"

lemma Validate_total: "\<exists>req errs. Validate body = Some (req, errs)"
  by (simp add: Validate_eq split_paired_Ex [symmetric] del: split_paired_Ex)

lemma quote_chain_shut:
  assumes "\<not> (\<exists>caller req. verified j cfg r s caller \<and> entitled granted (WithCaller caller c) caller
      \<and> acceptable r req)"
  shows "quote_chain j cfg granted vendor c r s = reject_with c (refusal j cfg granted c r s) (refused_state j cfg granted c r s)"
proof (cases "bearerToken r")
  case (Inl err)
  then show ?thesis
    by (simp add: quote_chain_eq Authenticate_def refusal_def refused_state_def past_gates_def verified_def)
next
  case (Inr raw)
  show ?thesis
  proof (cases "Verify j (NewVerifier (SigningKey cfg) (ClockSkew cfg)) (server_clock s) raw")
    case (Inl err)
    then show ?thesis
      using Inr by (simp add: quote_chain_eq Authenticate_def refusal_def refused_state_def past_gates_def verified_def)
  next
    case v: (Inr caller)
    then have shut: "\<not> (entitled granted (WithCaller caller c) caller \<and> acceptable r req)" for req
      using assms Inr by (auto simp: verified_def)
    have auth: "quote_chain j cfg granted vendor c r s =
        Authorise granted ScopeQuoteGenerate (Handler_Quote vendor) (WithCaller caller c) r s"
      using Inr v by (simp add: quote_chain_eq Authenticate_def)
    have gates: "past_gates j cfg granted c r s \<longleftrightarrow> entitled granted (WithCaller caller c) caller"
      using Inr v by (auto simp: past_gates_def verified_def)
    show ?thesis
    proof (cases "entitled granted (WithCaller caller c) caller")
      case False
      then show ?thesis
        using Inr v unfolding auth
        by (auto simp: gates Authorise_def refusal_def refused_state_def entitled_def Allows_def split: sum.split)
    next
      case True
      then have "Authorise granted ScopeQuoteGenerate (Handler_Quote vendor) (WithCaller caller c) r s
          = Handler_Quote vendor (WithCaller caller c) r s"
        by (auto simp: Authorise_def entitled_def Allows_def)
      moreover have "Handler_Quote vendor (WithCaller caller c) r s
          = reject_with c (refusal j cfg granted c r s) (receive_body r s)"
      proof (cases "read_body maxRequestBody r")
        case (Inl err)
        then show ?thesis using True Inr v by (auto simp: Handler_Quote_def refusal_def entitled_def)
      next
        case body: (Inr body)
        obtain req errs where val: "Validate body = Some (req, errs)" using Validate_total by blast
        have "errs \<noteq> []" using shut [of req] True body val by (auto simp: acceptable_def)
        then show ?thesis
          using True Inr v body val by (auto simp: Handler_Quote_def refusal_def entitled_def)
      qed
      ultimately show ?thesis using auth True gates by (simp add: refused_state_def)
    qed
  qed
qed

section \<open>What a served request does\<close>

lemma vendor_chain_requests:
  "chain (VendorClient_Quote e cl) c req w calls w'
    \<Longrightarrow> \<exists>n \<le> length calls. w_sent w' = w_sent w @ replicate n (vendor_request e cl c req)"
proof (induction w calls w' rule: chain.induct)
  case (stop w w')
  then show ?case by (simp add: idle_def)
next
  case (call w w0 r w1 calls w')
  then obtain n where n: "n \<le> length calls" "w_sent w' = w_sent w1 @ replicate n (vendor_request e cl c req)"
    by blast
  have "w_sent w1 = w_sent w @ (if url_ok e cl then [vendor_request e cl c req] else [])"
    using VendorClient_sent [of e cl c req w0] call.hyps by (simp add: idle_def)
  with n show ?case
    by (cases "url_ok e cl") (auto intro: exI [of _ "Suc n"] exI [of _ n])
qed

lemma retried_requests:
  "\<exists>n \<le> nat (Attempts rc). w_sent (snd (Retrier_Quote e (VendorClient_Quote e cl) rc c req w))
     = w_sent w @ replicate n (vendor_request e cl c req)"
proof (cases "1 \<le> Attempts rc")
  case True
  then obtain calls where "chain (VendorClient_Quote e cl) c req w calls
      (snd (Retrier_Quote e (VendorClient_Quote e cl) rc c req w))" "int (length calls) \<le> Attempts rc"
    using vendor.Retrier_spec [OF True, of e e cl c req w] by (auto simp: loop_spec_def)
  then show ?thesis using vendor_chain_requests by (metis le_nat_iff order_trans of_nat_0_le_iff)
next
  case False
  then show ?thesis using vendor.Retrier_no_attempts [of rc e e cl c req w] by simp
qed

lemma resilient_requests:
  "\<exists>n \<le> nat (Attempts (cfg_Retry cfg)). w_sent (sv_world (snd (resilient e cfg c req s)))
     = w_sent (sv_world s) @ replicate n (vendor_request e (vendor_client cfg) c req)"
  using retried_requests [of "cfg_Retry cfg" e "vendor_client cfg" c req "sv_world s"]
  by (auto simp: resilient_def Breaker_Quote_def split: prod.split option.split)

text \<open>
  What an error that the Middleware answers with can say: one of the classes, without its cause and wait.
\<close>

definition public_part :: "httpx_error \<Rightarrow> string \<times> int \<times> string" where
  "public_part h = (Code h, Status h, Message h)"

definition upstream_classes :: "httpx_error list" where
  "upstream_classes =
     [UpstreamUnavailable None, UpstreamContract None, UpstreamTimeout None, CircuitOpen 0, Internal None]"

definition refusal_classes :: "httpx_error list" where
  "refusal_classes = [Unauthenticated None, Forbidden None, Validation [], Malformed None, Internal None]"

lemmas public_defs = public_part_def upstream_classes_def refusal_classes_def error_class_defs

text \<open>What can come out of the vendor stack.\<close>

definition upstream_error :: "go_error \<Rightarrow> bool" where
  "upstream_error err \<longleftrightarrow> (\<exists>h. errors_as err = Some h \<and> Details h = []
     \<and> public_part h \<in> public_part ` set upstream_classes)"

lemma upstream_error_status: "public_part h \<in> public_part ` set upstream_classes \<Longrightarrow> Status h \<in> {500, 502, 503, 504}"
  by (auto simp: public_defs)

lemma decode_quote_status: "decode_quote resp = Inl err \<Longrightarrow> upstream_error err"
  by (auto simp: decode_quote_def contract_error_def upstream_error_def public_defs
      split: sum.splits option.splits prod.splits if_splits)

lemma translate_status: "translate resp = Inl err \<Longrightarrow> upstream_error err"
  using decode_quote_status
  by (auto simp: translate_def Let_def upstream_error_def public_defs split: if_splits)

lemma classify_status: "classify c now rp = Inl err \<Longrightarrow> upstream_error err"
  using translate_status
  by (auto simp: classify_def transportError_def upstream_error_def public_defs split: reply.splits if_splits)

lemma VendorClient_status: "VendorClient_Quote e cl c req w = (Inl err, w') \<Longrightarrow> upstream_error err"
proof (cases "url_ok e cl")
  case True
  then show "VendorClient_Quote e cl c req w = (Inl err, w') \<Longrightarrow> ?thesis"
    using classify_status by (auto simp: VendorClient_call split: prod.splits)
next
  case False
  then show "VendorClient_Quote e cl c req w = (Inl err, w') \<Longrightarrow> ?thesis"
    using VendorClient_no_call [OF False, of c req w] by (auto simp: upstream_error_def public_defs)
qed

lemma chain_outcomes:
  "chain nxt c req w calls w' \<Longrightarrow> k \<in> set calls \<Longrightarrow> \<exists>w1. nxt c req (fst k) = (snd k, w1)"
  by (induction w calls w' rule: chain.induct) auto

lemma retried_status:
  "fst (Retrier_Quote e (VendorClient_Quote e cl) rc c req w) = Inl err \<Longrightarrow> upstream_error err"
proof (cases "1 \<le> Attempts rc")
  case True
  assume err: "fst (Retrier_Quote e (VendorClient_Quote e cl) rc c req w) = Inl err"
  obtain calls where spec: "loop_spec e (VendorClient_Quote e cl) rc c req 1 w
      (Retrier_Quote e (VendorClient_Quote e cl) rc c req w) calls"
    using vendor.Retrier_spec [OF True] by blast
  note c = loop_specD(1) [OF spec] and last = loop_specD(2,4) [OF spec]
  from chain_outcomes [OF c last_in_set [OF last(1)]] last(2) err show ?thesis
    using VendorClient_status by metis
next
  case False
  then show "fst (Retrier_Quote e (VendorClient_Quote e cl) rc c req w) = Inl err \<Longrightarrow> ?thesis"
    using vendor.Retrier_no_attempts [of rc e e cl c req w] by simp
qed

lemma upstream_error_circuitOpen: "upstream_error (circuitOpen d)"
  by (simp add: circuitOpen_def upstream_error_def public_defs)

lemma resilient_status:
  assumes "fst (resilient e cfg c req s) = Some (Inl err)"
  shows "upstream_error err"
proof -
  let ?nxt = "Retrier_Quote e (VendorClient_Quote e (vendor_client cfg)) (cfg_Retry cfg)"
  obtain out b w where q: "?nxt c req (sv_world s) = (out, w)" by fastforce
  have "upstream_error err" if "out = Inl err" using retried_status [of e] q that by (metis fst_conv)
  then show ?thesis
    using assms
    by (auto simp: resilient_def Breaker_Quote_def q upstream_error_circuitOpen
        split: prod.splits option.splits if_splits)
qed

lemma resilient_no_panic:
  "0 \<le> Window (cfg_Breaker cfg) \<Longrightarrow> fst (resilient e cfg c req s) \<noteq> None"
  using record_no_panic [of "cfg_Breaker cfg"]
  by (auto simp: resilient_def Breaker_Quote_def split: prod.splits option.splits if_splits) (metis snd_conv)+

section \<open>The routed request\<close>

definition inner_ctx :: "draws \<Rightarrow> Config \<Rightarrow> ctx \<Rightarrow> request \<Rightarrow> server \<Rightarrow> ctx" where
  "inner_ctx d cfg c r s =
     with_timeout (RequestBudget cfg) (server_clock s) (c\<lparr>ctx_correlation := correlation_id d r\<rparr>)"

definition finish :: "draws \<Rightarrow> request \<Rightarrow> response option \<times> server \<Rightarrow> response option \<times> server" where
  "finish d r out =
     (Some (preset_header CorrelationHeader (correlation_id d r)
        (case fst out of None \<Rightarrow> WriteError (correlation_id d r) (HttpxError (Internal None)) | Some resp \<Rightarrow> resp)),
      snd out)"

lemma router_eq:
  "NewRouterWith j d cfg granted vendor c r s =
     finish d r (middleware_mux j cfg granted vendor (inner_ctx d cfg c r s) r s)"
  by (auto simp: NewRouterWith_def Correlation_def Recoverer_def Timeout_def respond_def finish_def
      inner_ctx_def with_timeout_def Let_def split: prod.split option.split)

definition quote_post :: "request \<Rightarrow> bool" where
  "quote_post r \<longleftrightarrow> rq_method r = ''POST'' \<and> rq_path r = ''/v1/quotes''"

lemma mux_quotes:
  "quote_post r \<Longrightarrow> middleware_mux j cfg granted vendor c r s = quote_chain j cfg granted vendor c r s"
  by (simp add: middleware_mux_def Mux_def quote_post_def method_matches_def)

lemma mux_other:
  "\<not> quote_post r \<Longrightarrow> \<exists>resp. middleware_mux j cfg granted vendor c r s = (Some resp, s)"
  by (auto simp: middleware_mux_def Mux_def quote_post_def method_matches_def Health_def respond_def)

lemma inner_ctx_simps [simp]:
  "ctx_correlation (inner_ctx d cfg c r s) = correlation_id d r"
  by (simp add: inner_ctx_def with_timeout_def)

lemma Granted_any_ctx: "Granted dir c1 subject = Granted dir c2 subject"
  by (simp add: Granted_def)

lemma entitled_staff:
  "entitled (Granted dir) c caller \<longleftrightarrow>
     ScopeQuoteGenerate \<in> set (Requested caller) \<and> staff_holds dir (Subject caller) ScopeQuoteGenerate"
proof -
  obtain scopes where s: "Granted dir c (Subject caller) = Inr scopes"
    "scope \<in> set scopes \<longleftrightarrow> staff_holds dir (Subject caller) scope" for scope
    using staff.answers [of dir c "Subject caller"] by blast
  show ?thesis by (simp add: entitled_def s)
qed

section \<open>Properties\<close>

lemma finish_simps [simp]:
  "snd (finish d r out) = snd out"
  "fst (finish d r (Some resp, s')) = Some (preset_header CorrelationHeader (correlation_id d r) resp)"
  by (simp_all add: finish_def)

lemma acceptable_valid: "acceptable r req \<Longrightarrow> valid_request req"
  using Validate_valid by (auto simp: acceptable_def)

lemma served_state:
  assumes "verified j cfg r s caller" "entitled (Granted dir) (WithCaller caller c) caller" "acceptable r req"
  shows "snd (quote_chain j cfg (Granted dir) vendor c r s) = snd (vendor (WithCaller caller c) req (receive_body r s))"
  unfolding quote_chain_through [OF assms]
  by (auto simp: respond_def split: prod.split option.split sum.split)

text \<open>
  C1: what reaches the vendor. Whatever request arrives, either nothing new is put on the wire, or it was
  a POST of a quote by a caller whose token verified, who asked for the scope and to whom the Middleware's
  own staff directory grants it, with a body that passes validation; then the vendor gets at most
  \<open>Attempts\<close> copies of one request, for exactly the validated figures, which are within the business
  bounds. A scope in the token alone never suffices.
\<close>

theorem only_entitled_valid_requests_reach_vendor:
  "w_sent (sv_world (snd (NewRouter e j d cfg (Granted dir) c r s))) = w_sent (sv_world s)
   \<or> (rq_method r = ''POST'' \<and> rq_path r = ''/v1/quotes''
      \<and> (\<exists>caller req c' n. verified j cfg r s caller
          \<and> ScopeQuoteGenerate \<in> set (Requested caller)
          \<and> staff_holds dir (Subject caller) ScopeQuoteGenerate
          \<and> acceptable r req \<and> valid_request req
          \<and> ctx_correlation c' = correlation_id d r \<and> n \<le> nat (Attempts (cfg_Retry cfg))
          \<and> w_sent (sv_world (snd (NewRouter e j d cfg (Granted dir) c r s))) =
              w_sent (sv_world s) @ replicate n (vendor_request e (vendor_client cfg) c' req)))"
proof (cases "quote_post r")
  case False
  then show ?thesis
    using mux_other [OF False, of j cfg "Granted dir" "resilient e cfg" "inner_ctx d cfg c r s" s]
    by (auto simp: NewRouter_def router_eq)
next
  case True
  let ?c = "inner_ctx d cfg c r s"
  let ?open = "\<lambda>caller req. verified j cfg r s caller \<and> entitled (Granted dir) (WithCaller caller ?c) caller
      \<and> acceptable r req"
  have eq: "snd (NewRouter e j d cfg (Granted dir) c r s)
      = snd (quote_chain j cfg (Granted dir) (resilient e cfg) ?c r s)"
    by (simp add: NewRouter_def router_eq mux_quotes [OF True])
  show ?thesis
  proof (cases "\<exists>caller req. ?open caller req")
    case False
    then show ?thesis unfolding eq by (subst quote_chain_shut) (auto simp: refused_state_def)
  next
    case open': True
    then obtain caller req where o: "verified j cfg r s caller"
      "entitled (Granted dir) (WithCaller caller ?c) caller" "acceptable r req" by blast
    obtain n where "n \<le> nat (Attempts (cfg_Retry cfg))"
      "w_sent (sv_world (snd (resilient e cfg (WithCaller caller ?c) req (receive_body r s))))
        = w_sent (sv_world s) @ replicate n (vendor_request e (vendor_client cfg) (WithCaller caller ?c) req)"
      using resilient_requests [of cfg e "WithCaller caller ?c" req "receive_body r s"] by auto
    moreover have "ctx_correlation (WithCaller caller ?c) = correlation_id d r" by simp
    ultimately show ?thesis
      using o acceptable_valid [OF o(3)] True unfolding eq served_state [OF o] quote_post_def entitled_staff
      by (intro disjI2) blast
  qed
qed

lemma refusal_401:
  "(\<nexists>caller. verified j cfg r s caller) \<Longrightarrow> Status (refusal j cfg granted c r s) = 401"
  by (auto simp: refusal_def verified_def Unauthenticated_def split: sum.split)

lemma refusal_verified:
  assumes "verified j cfg r s caller"
  shows "Status (refusal j cfg (Granted dir) c r s) = (if entitled (Granted dir) c' caller then 400 else 403)"
proof -
  obtain raw where raw: "bearerToken r = Inr raw"
    "Verify j (NewVerifier (SigningKey cfg) (ClockSkew cfg)) (server_clock s) raw = Inr caller"
    using assms by (auto simp: verified_def)
  obtain scopes where g: "Granted dir (WithCaller caller c) (Subject caller) = Inr scopes"
    "ScopeQuoteGenerate \<in> set scopes \<longleftrightarrow> staff_holds dir (Subject caller) ScopeQuoteGenerate"
    using staff.answers by blast
  have "Status (case read_body maxRequestBody r of Inl err \<Rightarrow> Malformed (Some err)
      | Inr body \<Rightarrow> Validation (snd (the (Validate body)))) = 400"
    by (simp add: Malformed_def Validation_def split: sum.split)
  then show ?thesis
    unfolding refusal_def raw sum.case g(1) entitled_staff g(2) [symmetric] by (simp add: Forbidden_def)
qed

text \<open>A response tells the client a quote or the public part of an error of the service, nothing else.\<close>

definition tells :: "string \<Rightarrow> httpx_error list \<Rightarrow> response \<Rightarrow> bool" where
  "tells cid classes resp \<longleftrightarrow>
     (\<exists>h. public_part h \<in> public_part ` set classes \<and> list_all known_detail (Details h) \<and> length (Details h) \<le> 3
        \<and> resp_status resp = Status h
        \<and> resp_body resp = encode_envelope (Code h) (Message h) (Details h) cid @ newline)"

lemma tells_WriteError:
  assumes "errors_as err = Some h" "public_part h \<in> public_part ` set classes"
    and "list_all known_detail (Details h)" "length (Details h) \<le> 3"
  shows "tells cid classes (WriteError cid err)"
  unfolding tells_def by (rule exI [of _ h]) (use assms in \<open>simp add: WriteError_def WriteJSON_def Let_def\<close>)

lemma tells_upstream: "upstream_error err \<Longrightarrow> tells cid upstream_classes (WriteError cid err)"
  unfolding upstream_error_def by (auto intro!: tells_WriteError)

lemma refusal_class: "public_part (refusal j cfg granted c r s) \<in> public_part ` set refusal_classes"
  by (simp add: refusal_def public_defs split: sum.split)

lemma refusal_details:
  "list_all known_detail (Details (refusal j cfg granted c r s)) \<and> length (Details (refusal j cfg granted c r s)) \<le> 3"
proof -
  have "list_all known_detail (snd (the (Validate body))) \<and> length (snd (the (Validate body))) \<le> 3" for body
    using Validate_total [of body] Validate_details by fastforce
  then show ?thesis
    by (simp add: refusal_def error_class_defs known_detail_def CodeMalformedBody_def split: sum.split)
qed

lemma tells_refusal: "tells cid refusal_classes (WriteError cid (HttpxError (refusal j cfg granted c r s)))"
  using refusal_class refusal_details by (intro tells_WriteError) auto

lemma tells_preset: "tells cid classes (preset_header k v resp) \<longleftrightarrow> tells cid classes resp"
  by (simp add: tells_def preset_header_def)

lemma tells_mono: "tells cid classes resp \<Longrightarrow> set classes \<subseteq> set more_classes \<Longrightarrow> tells cid more_classes resp"
  unfolding tells_def by blast

definition error_classes :: "httpx_error list" where
  "error_classes = refusal_classes @ upstream_classes"

lemma router_outcome:
  assumes "rq_method r = ''POST''" and "rq_path r = ''/v1/quotes''" and "0 \<le> Window (cfg_Breaker cfg)"
  shows "\<exists>resp s'. NewRouter e j d cfg (Granted dir) c r s = (Some resp, s')
    \<and> ((\<nexists>caller. verified j cfg r s caller) \<longrightarrow> resp_status resp = 401 \<and> s' = s)
    \<and> (\<forall>caller. verified j cfg r s caller \<longrightarrow>
        (if ScopeQuoteGenerate \<notin> set (Requested caller) \<or> \<not> staff_holds dir (Subject caller) ScopeQuoteGenerate
         then resp_status resp = 403 \<and> s' = s
         else if \<nexists>req. acceptable r req then resp_status resp = 400 \<and> s' = receive_body r s
         else resp_status resp \<in> {200, 500, 502, 503, 504}))
    \<and> (resp_status resp = 200 \<or> tells (correlation_id d r) error_classes resp)"
proof -
  have post: "quote_post r" using assms(1,2) by (simp add: quote_post_def)
  let ?c = "inner_ctx d cfg c r s"
  let ?q = "quote_chain j cfg (Granted dir) (resilient e cfg) ?c r s"
  have eq: "NewRouter e j d cfg (Granted dir) c r s = finish d r ?q"
    by (simp add: NewRouter_def router_eq mux_quotes [OF post])
  have same: "caller1 = caller2" if "verified j cfg r s caller1" "verified j cfg r s caller2" for caller1 caller2
    using that by (auto simp: verified_def)
  show ?thesis
  proof (cases "\<exists>caller req. verified j cfg r s caller \<and> entitled (Granted dir) (WithCaller caller ?c) caller
      \<and> acceptable r req")
    case False
    let ?e = "refusal j cfg (Granted dir) ?c r s"
    have "?q = (Some (WriteError (correlation_id d r) (HttpxError ?e)), refused_state j cfg (Granted dir) ?c r s)"
      by (subst quote_chain_shut [OF False]) (simp add: reject_with_def respond_def)
    moreover have "resp_status (WriteError (correlation_id d r) (HttpxError ?e)) = Status ?e"
      by (simp add: WriteError_HttpxError)
    moreover have "(\<nexists>caller. verified j cfg r s caller) \<Longrightarrow> Status ?e = 401" by (rule refusal_401)
    moreover have "Status ?e = (if entitled (Granted dir) ?c caller then 400 else 403)"
      if "verified j cfg r s caller" for caller
      by (rule refusal_verified [OF that])
    moreover have "\<nexists>req. acceptable r req" if "verified j cfg r s caller" "entitled (Granted dir) ?c caller" for caller
      using False that by (auto simp: entitled_staff)
    moreover have "tells (correlation_id d r) error_classes (WriteError (correlation_id d r) (HttpxError ?e))"
      by (rule tells_mono [OF tells_refusal]) (simp add: error_classes_def)
    moreover have "(\<nexists>caller. verified j cfg r s caller) \<Longrightarrow> refused_state j cfg (Granted dir) ?c r s = s"
      by (simp add: refused_state_def past_gates_def)
    moreover have "refused_state j cfg (Granted dir) ?c r s = (if entitled (Granted dir) ?c caller then receive_body r s else s)"
      if "verified j cfg r s caller" for caller
      using that same by (auto simp: refused_state_def past_gates_def entitled_staff)
    ultimately show ?thesis
      by (auto simp: eq finish_def entitled_staff tells_preset)
  next
    case True
    then obtain caller req where o: "verified j cfg r s caller"
      "entitled (Granted dir) (WithCaller caller ?c) caller" "acceptable r req" by blast
    obtain out s' where v: "resilient e cfg (WithCaller caller ?c) req (receive_body r s) = (out, s')" by fastforce
    have "out \<noteq> None" using resilient_no_panic [OF assms(3), of e "WithCaller caller ?c" req "receive_body r s"] v by simp
    then obtain res where res: "out = Some res" by blast
    have "\<exists>resp. fst ?q = Some resp \<and> resp_status resp \<in> {200, 500, 502, 503, 504}
        \<and> (resp_status resp = 200 \<or> tells (correlation_id d r) error_classes resp)"
    proof (cases res)
      case (Inl err)
      then have "upstream_error err"
        using resilient_status [of e cfg "WithCaller caller ?c" req "receive_body r s" err] v res by simp
      then have "tells (correlation_id d r) error_classes (WriteError (correlation_id d r) err)"
        using tells_mono [OF tells_upstream] by (simp add: error_classes_def)
      moreover have "resp_status (WriteError (correlation_id d r) err) \<in> {500, 502, 503, 504}"
        using \<open>upstream_error err\<close> upstream_error_status unfolding upstream_error_def
        by (metis WriteError_HttpxError)
      ultimately show ?thesis
        unfolding quote_chain_through [OF o] v res Inl by (auto simp: respond_def)
    next
      case (Inr quote)
      then show ?thesis
        unfolding quote_chain_through [OF o] v res by (simp add: respond_def WriteJSON_def)
    qed
    then show ?thesis
      using o same by (auto simp: eq finish_def entitled_staff tells_preset split: option.splits)
  qed
qed

text \<open>
  C2: what a quote request is answered. With a window that is not negative there is always an answer, and
  its status says exactly how far the request got: 401 if no caller could be verified, 403 if the caller
  did not ask for the scope or is not granted it, 400 if the body is unreadable or invalid, and otherwise
  200 or one of 500, 502, 503 and 504. In the first two cases the service's state, the breaker and
  the wire included, is untouched and the body is not read; in the third the body was waited for, and the
  time that took is all that changed.
\<close>

theorem quote_response_status:
  assumes "rq_method r = ''POST''" and "rq_path r = ''/v1/quotes''" and "0 \<le> Window (cfg_Breaker cfg)"
  shows "\<exists>resp s'. NewRouter e j d cfg (Granted dir) c r s = (Some resp, s')
    \<and> ((\<nexists>caller. verified j cfg r s caller) \<longrightarrow> resp_status resp = 401 \<and> s' = s)
    \<and> (\<forall>caller. verified j cfg r s caller \<longrightarrow>
        (if ScopeQuoteGenerate \<notin> set (Requested caller) \<or> \<not> staff_holds dir (Subject caller) ScopeQuoteGenerate
         then resp_status resp = 403 \<and> s' = s
         else if \<nexists>req. acceptable r req then resp_status resp = 400 \<and> s' = receive_body r s
         else resp_status resp \<in> {200, 500, 502, 503, 504}))"
  using router_outcome [OF assms] by blast

definition example_config :: Config where
  "example_config =
     \<lparr>cfg_Port = 8082, LogLevel = ''info'', OTLPEndpoint = [], VendorBaseURL = ''http://v'',
      VendorAPIKey = ''api-key-1'', SigningKey = ''key'', VendorTimeout = 2 * second,
      RequestBudget = 6 * second, ClockSkew = 5 * second, cfg_Retry = example_retry,
      cfg_Breaker = default_breaker, StaffFile = ''staff.csv''\<rparr>"

definition example_post :: request where
  "example_post =
     \<lparr>rq_method = ''POST'', rq_path = ''/v1/quotes'',
      rq_headers = [(''Authorization'', ''Bearer token'')], rq_cookies = [],
      rq_body = quoted ''{`loanAmount`:1,`loanTermInMonths`:9999,`riskBand`:`Z`}'', rq_body_err = None,
      rq_body_time = 0\<rparr>"

definition example_dir :: Directory where
  "example_dir =
     (let s = \<lparr>ID = ''s-1'', Name = ''Ann'', Scopes = [ScopeQuoteGenerate]\<rparr>
      in \<lparr>byID = map_of [(''s-1'', s)], order = [s]\<rparr>)"

definition example_server :: server where
  "example_server = \<lparr>sv_world = start_world\<lparr>w_clock := 120 * second\<rparr>, sv_brk = NewBreaker\<rparr>"

text \<open>A verified and entitled caller with an invalid body gets 400; without a token it is 401.\<close>

theorem quote_response_status_witness:
  "(\<exists>resp. NewRouter (scripted_env []) example_jwt example_draws example_config (Granted example_dir) background
      example_post example_server = (Some resp, example_server) \<and> resp_status resp = 400)
   \<and> (\<exists>resp. NewRouter (scripted_env []) example_jwt example_draws example_config (Granted example_dir) background
      (example_post\<lparr>rq_headers := []\<rparr>) example_server = (Some resp, example_server) \<and> resp_status resp = 401)"
proof -
  let ?caller = "\<lparr>Subject = ''s-1'', TokenID = hex_encode example_bytes, Requested = [ScopeQuoteGenerate]\<rparr>"
  have w: "0 \<le> Window (cfg_Breaker example_config)" by code_simp
  have p: "rq_method example_post = ''POST''" "rq_path example_post = ''/v1/quotes''"
    by (simp_all add: example_post_def)
  have "bearerToken example_post = Inr ''token''" by code_simp
  moreover have "Verify example_jwt (NewVerifier (SigningKey example_config) (ClockSkew example_config))
      (server_clock example_server) ''token'' = Inr ?caller" by code_simp
  ultimately have v: "verified example_jwt example_config example_post example_server ?caller"
    by (auto simp: verified_def)
  have h: "staff_holds example_dir ''s-1'' ScopeQuoteGenerate"
    by (simp add: staff_holds_def Lookup_def example_dir_def Let_def)
  have b: "read_body maxRequestBody example_post = Inr example_invalid" by code_simp
  have "\<nexists>req. acceptable example_post req"
    by (simp add: acceptable_def b example_invalid_errors)
  then have one: "\<exists>resp. NewRouter (scripted_env []) example_jwt example_draws example_config (Granted example_dir) background
      example_post example_server = (Some resp, example_server) \<and> resp_status resp = 400"
    using quote_response_status [OF p w, of "scripted_env []" example_jwt example_draws example_dir background example_server] v h
      receive_at_once [of example_post example_server]
    by (fastforce simp: example_post_def)
  let ?bare = "example_post\<lparr>rq_headers := []\<rparr>"
  have pb: "rq_method ?bare = ''POST''" "rq_path ?bare = ''/v1/quotes''" using p by simp_all
  have "bearerToken ?bare = Inl errNoBearer" by code_simp
  then have "\<nexists>caller. verified example_jwt example_config ?bare example_server caller"
    by (simp add: verified_def)
  then show ?thesis
    using one quote_response_status [OF pb w, of "scripted_env []" example_jwt example_draws example_dir background example_server]
    by blast
qed

fun without_cause :: "httpx_error \<Rightarrow> httpx_error" where
  "without_cause (Error c st m ds ra k) = Error c st m ds ra None"

text \<open>
  C39: what an error response may say. The response is a function of the public part of the error alone
  (code, status, message, details and wait): its cause, however deep, and any text of an error that is
  not one of ours never reach the client.
\<close>

theorem WriteError_hides_cause:
  "WriteError cid err =
     (case errors_as err of
        Some h \<Rightarrow> WriteError cid (HttpxError (without_cause h))
      | None \<Rightarrow> WriteError cid (HttpxError (Internal None)))"
proof (cases "errors_as err")
  case None
  then show ?thesis by (simp add: WriteError_def Internal_def)
next
  case (Some h)
  then show ?thesis by (cases h) (simp add: WriteError_def)
qed

end
