(* ===== verification/VendorMock.thy ===== *)
theory VendorMock
  imports Wire Vendor GoFloat "HOL-Library.Word"
begin

unbundle bit_operations_syntax

text \<open>
  \<open>internal/cqapimock\<close>: the mocked vendor. Its rate card and pricing (\<open>quote.go\<close>), its own request
  checks (\<open>handler.go\<close>), the api-key gate (\<open>auth.go\<close>) and the traffic simulation (\<open>inject.go\<close>). The
  properties say what it charges, and that the Middleware and the vendor understand each other: every
  validated request is accepted, and the quote that is decoded is the exact price rounded once.
\<close>

section \<open>Pricing\<close>

definition baseRateA :: int64 where "baseRateA = 100"
definition baseRateB :: int64 where "baseRateB = 150"
definition baseRateC :: int64 where "baseRateC = 225"
definition termStep :: int64 where "termStep = 5"
definition termAdjustCap :: int64 where "termAdjustCap = 30"
definition monthsPerYear :: int64 where "monthsPerYear = 12"

definition baseRates :: "string \<Rightarrow> int64 option" where
  "baseRates = map_of [(''A'', baseRateA), (''B'', baseRateB), (''C'', baseRateC)]"

text \<open>\<open>CommissionRate\<close>; the second component is \<open>ok\<close>.\<close>

definition card_rate :: "string \<Rightarrow> int64 \<Rightarrow> Rate \<times> bool" where
  "card_rate band months =
     (case baseRates band of
        None \<Rightarrow> (zero_Rate, False)
      | Some base \<Rightarrow>
          (let adjustment0 = wrap64 (termStep * (months sdiv monthsPerYear));
               adjustment = (if adjustment0 > termAdjustCap then termAdjustCap else adjustment0)
           in (RateFromTenThousandths (wrap64 (base + adjustment)), True)))"

record cqapi_Quote =
  cq_QuoteID :: string
  cq_CommissionRate :: Rate
  cq_TotalCommission :: Amount

text \<open>The 16 random bytes with the version and variant bits set, or the error of the random source.\<close>

definition set_byte :: "nat \<Rightarrow> (nat \<Rightarrow> nat) \<Rightarrow> string \<Rightarrow> string" where
  "set_byte i f bs = bs[i := char_of (f (byte (bs ! i)))]"

definition newQuoteID :: "go_error + string \<Rightarrow> go_error + string" where
  "newQuoteID random =
     (case random of
        Inl err \<Rightarrow> Inl (WrapError ''generate quote id: %w'' [err])
      | Inr bs \<Rightarrow>
          (let b = set_byte 8 (\<lambda>x. (x AND 0x3f) OR 0x80) (set_byte 6 (\<lambda>x. (x AND 0x0f) OR 0x40) bs)
           in Inr (hex_encode (take 4 b) @ ''-'' @ hex_encode (take 2 (drop 4 b)) @ ''-''
                @ hex_encode (take 2 (drop 6 b)) @ ''-'' @ hex_encode (take 2 (drop 8 b)) @ ''-''
                @ hex_encode (take 6 (drop 10 b)))))"

text \<open>The first argument is the \<open>%q\<close> of \<open>fmt\<close>, the second what the random source gives.\<close>

definition Generate :: "(string \<Rightarrow> string) \<Rightarrow> go_error + string \<Rightarrow> Amount \<Rightarrow> int64 \<Rightarrow> string \<Rightarrow> go_error + cqapi_Quote" where
  "Generate q random amount months band =
     (case card_rate band months of (rate, ok) \<Rightarrow>
        if \<not> ok then Inl (PlainError (''unknown risk band '' @ q band))
        else (case newQuoteID random of
            Inl err \<Rightarrow> Inl err
          | Inr qid \<Rightarrow>
              Inr \<lparr>cq_QuoteID = qid, cq_CommissionRate = rate, cq_TotalCommission = Amount_Mul amount rate\<rparr>))"

section \<open>State and environment\<close>

text \<open>
  \<open>mk_draws\<close> and \<open>mk_ids\<close> count what was taken from the two random sources. \<open>me_quote\<close> is the \<open>%q\<close> of
  \<open>fmt\<close>; \<open>me_float\<close> and \<open>me_int\<close> are the seeded generator, \<open>me_bytes\<close> is \<open>crypto/rand\<close>.
\<close>

text \<open>The mock logs the rate it quoted as a \<open>float64\<close>; nothing is computed from it.\<close>

definition Rate_Float :: "Rate \<Rightarrow> float64" where "Rate_Float x = to_float (Rate_rat x)"

record mock =
  mk_clock :: instant
  mk_draws :: nat
  mk_ids :: nat

record mock_env =
  me_float :: "nat \<Rightarrow> rat"
  me_int :: "nat \<Rightarrow> int64 \<Rightarrow> int64"
  me_bytes :: "nat \<Rightarrow> go_error + string"
  me_quote :: "string \<Rightarrow> string"

record mock_Config =
  mc_Port :: int
  mc_LogLevel :: string
  mc_OTLPEndpoint :: string
  mc_APIKey :: string
  FailureRate :: float64
  SlowRate :: float64
  SlowDelay :: duration
  LatencyMin :: duration
  LatencyMax :: duration
  Seed :: int64

section \<open>The quote endpoint\<close>

record quoteRequest =
  qr_LoanAmount :: string
  qr_LoanTermInMonths :: string
  qr_RiskBand :: string

definition decode_quoteRequest :: "string \<Rightarrow> quoteRequest option" where
  "decode_quoteRequest body =
     (case decode_stream body of
        None \<Rightarrow> None
      | Some (JOther _, _) \<Rightarrow> None
      | Some (JNull, _) \<Rightarrow> Some \<lparr>qr_LoanAmount = [], qr_LoanTermInMonths = [], qr_RiskBand = []\<rparr>
      | Some (JObject ms, _) \<Rightarrow>
          if \<not> all_known request_fields ms then None
          else map_option (\<lambda>band. \<lparr>qr_LoanAmount = raw_field request_fields ''loanAmount'' ms,
                 qr_LoanTermInMonths = raw_field request_fields ''loanTermInMonths'' ms,
                 qr_RiskBand = band\<rparr>)
               (string_field request_fields ''riskBand'' ms))"

definition mock_numberText :: "string \<Rightarrow> string + string" where
  "mock_numberText raw =
     (let s = trim_space raw
      in if s = [] \<or> s = ''null'' then Inl ''is required''
         else if byte (hd s) = 34 then Inl ''must be a JSON number, not a string''
         else Inr s)"

definition bare_status :: "int \<Rightarrow> response" where
  "bare_status st = \<lparr>resp_status = st, resp_headers = [], resp_body = []\<rparr>"

definition mock_reject :: "string \<Rightarrow> response" where
  "mock_reject message = WriteJSON 400 (json_object [(''error'', json_string message)])"

definition encode_cqapi_Quote :: "cqapi_Quote \<Rightarrow> string" where
  "encode_cqapi_Quote q =
     json_object [(''quoteId'', json_string (cq_QuoteID q)),
                  (''commissionRate'', Rate_MarshalJSON (cq_CommissionRate q)),
                  (''totalCommission'', Amount_MarshalJSON (cq_TotalCommission q))]"

text \<open>The checks in order, up to the amount, the term and the band: a rejection or what to price.\<close>

definition check_quoteRequest :: "(string \<Rightarrow> string) \<Rightarrow> quoteRequest \<Rightarrow> string + Amount \<times> int64 \<times> string" where
  "check_quoteRequest q req =
     (case mock_numberText (qr_LoanAmount req) of
        Inl err \<Rightarrow> Inl (''loanAmount '' @ err)
      | Inr amountText \<Rightarrow> (case ParseAmount amountText of
        Inl _ \<Rightarrow> Inl ''loanAmount must be a decimal amount with at most 2 decimal places''
      | Inr amount \<Rightarrow>
        if DecimalPlaces amount > 2
        then Inl ''loanAmount must be a decimal amount with at most 2 decimal places''
        else if Amount_Sign amount \<le> 0 then Inl ''loanAmount must be greater than zero''
        else (case mock_numberText (qr_LoanTermInMonths req) of
        Inl err \<Rightarrow> Inl (''loanTermInMonths '' @ err)
      | Inr termText \<Rightarrow> (case parse_int termText of
        None \<Rightarrow> Inl ''loanTermInMonths must be a whole number of months''
      | Some months \<Rightarrow>
        if months \<le> 0 then Inl ''loanTermInMonths must be greater than zero''
        else if baseRates (qr_RiskBand req) = None
        then Inl (''riskBand must be one of A, B, C, got '' @ q (qr_RiskBand req))
        else Inr (amount, months, qr_RiskBand req)))))"

text \<open>Waiting for the body of a request.\<close>

definition mock_receive :: "request \<Rightarrow> mock \<Rightarrow> mock" where
  "mock_receive r s = s\<lparr>mk_clock := mk_clock s + int (rq_body_time r)\<rparr>"

definition mock_Quote :: "mock_env \<Rightarrow> mock handler" where
  "mock_Quote me c r s0 =
     (let s = mock_receive r s0 in
      case decode_quoteRequest (rq_body r) of
        None \<Rightarrow> respond (mock_reject ''request body must be a JSON object matching the quote schema'') s
      | Some req \<Rightarrow>
          (case check_quoteRequest (me_quote me) req of
             Inl message \<Rightarrow> respond (mock_reject message) s
           | Inr (amount, months, band) \<Rightarrow>
               (let s' = s\<lparr>mk_ids := Suc (mk_ids s)\<rparr>
                in case Generate (me_quote me) (me_bytes me (mk_ids s)) amount months band of
                     Inl err \<Rightarrow> respond (bare_status 500) s'
                   | Inr quote \<Rightarrow> respond (WriteJSON 201 (encode_cqapi_Quote quote)) s')))"

section \<open>The api-key gate and the simulation\<close>

text \<open>The comparison is constant time in the code; its outcome is equality.\<close>

definition RequireAPIKey :: "string \<Rightarrow> 's middleware" where
  "RequireAPIKey expected next c r s =
     (if header_get apiKeyHeader r \<noteq> expected then respond (bare_status 401) s else next c r s)"

record Injector =
  failureRate :: float64
  slowRate :: float64
  slowDelay :: duration
  latencyMin :: duration
  latencyMax :: duration

definition NewInjector :: "mock_Config \<Rightarrow> Injector" where
  "NewInjector cfg = \<lparr>failureRate = FailureRate cfg, slowRate = SlowRate cfg, slowDelay = SlowDelay cfg,
     latencyMin = LatencyMin cfg, latencyMax = LatencyMax cfg\<rparr>"

text \<open>Two draws for every request, a third one for the latency only when there is a spread to draw from.\<close>

definition draw :: "mock_env \<Rightarrow> Injector \<Rightarrow> mock \<Rightarrow> (bool \<times> bool \<times> duration) \<times> mock" where
  "draw me i s =
     (let k = mk_draws s;
          fail = (Fin (me_float me k) < failureRate i);
          slow = (Fin (me_float me (k + 1)) < slowRate i)
      in if slow then ((fail, slow, slowDelay i), s\<lparr>mk_draws := k + 2\<rparr>)
         else (let spread = wrap64 (latencyMax i - latencyMin i)
               in if spread \<le> 0 then ((fail, slow, latencyMin i), s\<lparr>mk_draws := k + 2\<rparr>)
                  else ((fail, slow, wrap64 (latencyMin i + me_int me (k + 2) spread)), s\<lparr>mk_draws := k + 3\<rparr>)))"

text \<open>The wait; false if the caller gave up first. Then nothing is written, which \<open>net/http\<close> sends as 200.\<close>

definition sleep_request :: "ctx \<Rightarrow> duration \<Rightarrow> mock \<Rightarrow> bool \<times> mock" where
  "sleep_request c d s =
     (if d \<le> 0 then (True, s)
      else (case ctx_done_before c (mk_clock s + d) of
          None \<Rightarrow> (True, s\<lparr>mk_clock := mk_clock s + d\<rparr>)
        | Some t \<Rightarrow> (False, s\<lparr>mk_clock := max (mk_clock s) t\<rparr>)))"

definition Injector_Middleware :: "mock_env \<Rightarrow> Injector \<Rightarrow> mock middleware" where
  "Injector_Middleware me i next c r s =
     (case draw me i s of ((fail, slow, latency), s1) \<Rightarrow>
        (case sleep_request c latency s1 of (woke, s2) \<Rightarrow>
           if \<not> woke then respond (bare_status 200) s2
           else if fail then respond (bare_status 503) s2
           else next c r s2))"

definition mock_mux :: "mock_env \<Rightarrow> mock_Config \<Rightarrow> mock handler" where
  "mock_mux me cfg =
     Mux [\<lparr>rt_method = ''GET'', rt_path = ''/healthz'', rt_handler = Health\<rparr>,
          \<lparr>rt_method = ''POST'', rt_path = ''/v1/quotes'', rt_handler =
             Chain (mock_Quote me)
               [RequireAPIKey (mc_APIKey cfg), Injector_Middleware me (NewInjector cfg)]\<rparr>]"

definition mock_NewRouter :: "mock_env \<Rightarrow> draws \<Rightarrow> mock_Config \<Rightarrow> mock handler" where
  "mock_NewRouter me d cfg = Chain (mock_mux me cfg) [Correlation d, Recoverer]"

section \<open>The rate card\<close>

definition base_of :: "string \<Rightarrow> int" where
  "base_of band = (if band = ''A'' then 100 else if band = ''B'' then 150 else 225)"

definition rate_units :: "string \<Rightarrow> int \<Rightarrow> int" where
  "rate_units band months = base_of band + min (5 * (months div 12)) 30"

lemma sdiv_pos: "0 \<le> (a :: int) \<Longrightarrow> 0 < b \<Longrightarrow> a sdiv b = a div b"
  by (simp add: signed_divide_int_def sgn_if)

lemma card_rate_units:
  assumes "is_int64 months" "0 \<le> months"
  shows "card_rate band months =
    (if band \<in> {''A'', ''B'', ''C''} then (RateFromTenThousandths (rate_units band months), True)
     else (zero_Rate, False))"
proof -
  have "5 * (months div 12) \<le> months" using assms(2) by presburger
  then have "is_int64 (5 * (months div 12))" using assms by (auto simp: is_int64_def)
  moreover have "is_int64 (base_of band + min (5 * (months div 12)) 30)"
    using assms(2) by (auto simp: is_int64_def base_of_def min_def)
  ultimately show ?thesis
    using assms(2)
    by (auto simp: card_rate_def baseRates_def baseRateA_def baseRateB_def baseRateC_def termStep_def
        monthsPerYear_def termAdjustCap_def sdiv_pos rate_units_def base_of_def min_def Let_def)
qed

lemma rate_units_bounds: "0 \<le> months \<Longrightarrow> 100 \<le> rate_units band months \<and> rate_units band months \<le> 255"
  by (auto simp: rate_units_def base_of_def)

section \<open>Printed figures read back\<close>

lemma trim_graphic:
  assumes "s \<noteq> []" "is_digit (hd s)" "is_digit (last s)"
  shows "trim_space s = s"
  using assms by (intro trim_space_id) (auto simp: is_digit_def)

lemma digit_text_hd: "s \<noteq> [] \<Longrightarrow> is_digit (hd s) \<Longrightarrow> s \<noteq> ''null'' \<and> byte (hd s) \<noteq> 34"
  by (auto simp: char_class_defs)

lemma decimal_text_ends:
  assumes "0 \<le> n" "0 < p"
  shows "decimal_text n p \<noteq> []" "is_digit (hd (decimal_text n p))" "is_digit (last (decimal_text n p))"
proof -
  let ?w = "dec_digits (nat n div 10 ^ p)"
  let ?fs = "zero_pad p (dec_digits (nat n mod 10 ^ p))"
  have "decimal_text n p = ?w @ CHR ''.'' # ?fs" using assms(1) by (simp add: decimal_text_def)
  moreover have "?w \<noteq> []" "is_digit (hd ?w)"
    using digits_only_dec_digits [of "nat n div 10 ^ p"] by (simp, cases ?w) auto
  moreover have fs: "?fs \<noteq> []" using assms(2) by (simp add: zero_pad_def)
  moreover have "digits_only ?fs" by (simp only: digits_only_zero_pad digits_only_dec_digits)
  then have "is_digit (last ?fs)"
    using last_in_set [OF fs] unfolding digits_only_def list_all_iff by blast
  ultimately show "decimal_text n p \<noteq> []" "is_digit (hd (decimal_text n p))" "is_digit (last (decimal_text n p))"
    by simp_all
qed

lemma itoa_ends:
  assumes "0 \<le> m"
  shows "itoa m \<noteq> []" "is_digit (hd (itoa m))" "is_digit (last (itoa m))"
proof -
  have "itoa m = dec_digits (nat m)" using assms by (simp add: itoa_def)
  moreover have "digits_only (dec_digits (nat m))" "dec_digits (nat m) \<noteq> []" by simp_all
  ultimately show "itoa m \<noteq> []" "is_digit (hd (itoa m))" "is_digit (last (itoa m))"
    by (simp_all add: digits_only_def list_all_iff)
qed

lemma mock_number:
  "s \<noteq> [] \<Longrightarrow> is_digit (hd s) \<Longrightarrow> is_digit (last s) \<Longrightarrow> mock_numberText s = Inr s"
  using digit_text_hd [of s] by (simp add: mock_numberText_def trim_graphic Let_def)

lemma vendor_number:
  "s \<noteq> [] \<Longrightarrow> is_digit (hd s) \<Longrightarrow> is_digit (last s) \<Longrightarrow> numberText s = (s, True)"
  using digit_text_hd [of s] by (simp add: numberText_def trim_graphic Let_def)

lemma parse_decimal_small:
  assumes "0 \<le> n" "n < 10 ^ 20" "p = 2 \<or> p = 4"
  shows "parseDecimal (decimal_text n p) = Inr (of_int n / 10 ^ p, int p)"
proof (rule parse_decimal_text)
  show "0 < p" using assms(3) by auto
  have "\<bar>n\<bar> < 10 ^ (p + 20)"
    using assms by (auto intro: order_less_le_trans)
  then have "length (decimal_text n p) \<le> 20 + p + 2" using length_decimal_text [of p n 20] assms(3) by auto
  then show "length (decimal_text n p) \<le> maxTextLen" using assms(3) by (auto simp: maxTextLen_def)
qed

text \<open>The fields of the two messages.\<close>

lemma request_members:
  "decode_quoteRequest (json_object [(''loanAmount'', a), (''loanTermInMonths'', m), (''riskBand'', json_string b)] @ t)
     = Some \<lparr>qr_LoanAmount = a, qr_LoanTermInMonths = m, qr_RiskBand = b\<rparr>"
  if "member_value a" "member_value m" "plain b"
proof -
  let ?ms = "[(''loanAmount'', a), (''loanTermInMonths'', m), (''riskBand'', json_string b)]"
  have "plain ''loanAmount''" "plain ''loanTermInMonths''" "plain ''riskBand''" by code_simp+
  then have "decode_stream (json_object ?ms @ t) = Some (JObject ?ms, t)"
    using that by (intro decode_json_object) (simp_all add: good_member_def member_value_string)
  then show ?thesis
    using that(3)
    by (simp add: decode_quoteRequest_def all_known_def field_of_def request_fields_def raw_field_def
        string_field_def field_values_def string_or_null_def unquote_json_string)
qed

lemma quote_members:
  "decode_vendorQuote (json_object [(''quoteId'', json_string i), (''commissionRate'', x), (''totalCommission'', y)] @ t)
     = Some \<lparr>vq_QuoteID = i, vq_CommissionRate = x, vq_TotalCommission = y\<rparr>"
  if "plain i" "member_value x" "member_value y" "skip_space t = []"
proof -
  let ?ms = "[(''quoteId'', json_string i), (''commissionRate'', x), (''totalCommission'', y)]"
  have "plain ''quoteId''" "plain ''commissionRate''" "plain ''totalCommission''" by code_simp+
  then have "unmarshal (json_object ?ms @ t) = Some (JObject ?ms)"
    using that by (intro unmarshal_json_object) (simp_all add: good_member_def member_value_string)
  then show ?thesis
    using that(1)
    by (simp add: decode_vendorQuote_def field_of_def vendor_fields_def raw_field_def
        string_field_def field_values_def string_or_null_def unquote_json_string)
qed

section \<open>The quote id\<close>

lemma plain_append [simp]: "plain (s @ t) \<longleftrightarrow> plain s \<and> plain t"
  by (simp add: plain_def)

lemma plain_hex_digit: "d < 16 \<Longrightarrow> plain_char (hex_digit d)"
  by (auto simp: hex_digit_def plain_char_def byte_char_of)

lemma plain_hex: "plain (hex_encode bs)"
proof -
  have "byte c div 16 < 16" for c using byte_less_256 [of c] by linarith
  then show ?thesis by (induction bs) (simp_all add: hex_encode_def plain_hex_digit)
qed

lemma newQuoteID_plain:
  assumes "length bs = 16"
  shows "\<exists>i. newQuoteID (Inr bs) = Inr i \<and> plain i \<and> length i = 36"
proof -
  have "plain_char CHR ''-''" by code_simp
  then show ?thesis using assms by (simp add: newQuoteID_def Let_def plain_hex set_byte_def)
qed

section \<open>Client and vendor\<close>

lemma plain_band: "b \<in> {''A'', ''B'', ''C''} \<Longrightarrow> plain b"
  by (auto simp: plain_char_def byte_def)

lemma valid_amount_text:
  assumes "valid_request req"
  obtains cents where "Amount_rat (req_Amount req) = of_int cents / 100" "100000 \<le> cents" "cents \<le> 500000000"
    "Amount_String (req_Amount req) = decimal_text cents 2"
proof -
  obtain cents where c: "Amount_rat (req_Amount req) = of_int cents / 100"
    using assms unfolding valid_request_def by blast
  have "(100000 :: rat) \<le> of_int cents" "(of_int cents :: rat) \<le> 500000000"
    using assms unfolding valid_request_def c by simp_all
  then have "100000 \<le> cents" "cents \<le> 500000000" by linarith+
  moreover have "Amount_String (req_Amount req) = decimal_text cents 2"
    by (simp add: Amount_String_def amountPlaces_def format_money_text c)
  ultimately show thesis using that c by blast
qed

text \<open>The vendor's own checks let every validated request pass, with the amount unchanged.\<close>

lemma vendor_checks_pass:
  assumes "valid_request req"
  shows "\<exists>q a. decode_quoteRequest (vendor_request_body req) = Some q
    \<and> check_quoteRequest f q = Inr (a, req_Months req, req_RiskBand req)
    \<and> Amount_rat a = Amount_rat (req_Amount req)"
proof -
  obtain cents where c: "Amount_rat (req_Amount req) = of_int cents / 100" "100000 \<le> cents" "cents \<le> 500000000"
    and tx: "Amount_String (req_Amount req) = decimal_text cents 2" using valid_amount_text [OF assms] .
  let ?a = "decimal_text cents 2" and ?m = "itoa (req_Months req)" and ?b = "req_RiskBand req"
  have m: "6 \<le> req_Months req" "req_Months req \<le> 360" and b: "?b \<in> {''A'', ''B'', ''C''}"
    using assms by (simp_all add: valid_request_def)
  have dec: "decode_quoteRequest (vendor_request_body req)
      = Some \<lparr>qr_LoanAmount = ?a, qr_LoanTermInMonths = ?m, qr_RiskBand = ?b\<rparr>"
    using request_members [of ?a ?m ?b "[]"] member_value_decimal [of cents 2] member_value_itoa [of "req_Months req"]
      c m plain_band [OF b] by (simp add: vendor_request_body_def tx)
  have "mock_numberText ?a = Inr ?a" "mock_numberText ?m = Inr ?m"
    using decimal_text_ends [of cents 2] itoa_ends [of "req_Months req"] mock_number c m by simp_all
  moreover have "parseDecimal ?a = Inr (of_int cents / 10 ^ 2, int 2)"
    using c by (intro parse_decimal_small) simp_all
  moreover have "parse_int ?m = Some (req_Months req)" using m by (intro parse_int_itoa) (simp add: is_int64_def)
  moreover have "baseRates ?b \<noteq> None" using b by (auto simp: baseRates_def)
  ultimately have "check_quoteRequest f \<lparr>qr_LoanAmount = ?a, qr_LoanTermInMonths = ?m, qr_RiskBand = ?b\<rparr>
      = Inr (\<lparr>amount_r = Some (of_int cents / 100), amount_scale = 2\<rparr>, req_Months req, ?b)"
    using c m by (auto simp: check_quoteRequest_def ParseAmount_def DecimalPlaces_def Amount_Sign_def Amount_rat_def)
  then show ?thesis using dec c(1) by (auto simp: Amount_rat_def)
qed

text \<open>What the vendor prints, the client decodes: the rate as it is, the commission rounded once.\<close>

lemma encoded_quote_length:
  "length (json_object [(''quoteId'', json_string i), (''commissionRate'', x), (''totalCommission'', y)])
     = length i + length x + length y + 51" if "plain i"
proof -
  have "plain ''quoteId''" "plain ''commissionRate''" "plain ''totalCommission''" by code_simp+
  then show ?thesis using that by (simp add: json_object_def json_string_def escape_plain)
qed

lemma length_newline [simp]: "length newline = 1"
  by (simp add: newline_def bytes_def)

lemma client_reads_quote:
  assumes i: "plain i" "length i = 36" and u: "0 \<le> u" "u < 10 ^ 20"
    and x: "0 \<le> x" "x < 10 ^ 17" and st: "ws_status resp = 201"
    and body: "ws_body resp = Inr (encode_cqapi_Quote
      \<lparr>cq_QuoteID = i, cq_CommissionRate = RateFromTenThousandths u, cq_TotalCommission = t\<rparr> @ newline)"
    and t: "Amount_rat t = x"
  shows "translate resp = Inr \<lparr>QuoteID = i, CommissionRate = RateFromTenThousandths u,
    TotalCommission = \<lparr>amount_r = Some (RoundHalfUp x 2), amount_scale = 2\<rparr>\<rparr>"
proof -
  let ?n = "\<lfloor>x * 100 + 1 / 2\<rfloor>"
  have n: "0 \<le> ?n" "?n < 10 ^ 20" using x by (simp_all add: floor_less_iff)
  let ?r = "decimal_text u 4" and ?y = "decimal_text ?n 2"
  let ?ms = "[(''quoteId'', json_string i), (''commissionRate'', ?r), (''totalCommission'', ?y)]"
  have enc: "encode_cqapi_Quote \<lparr>cq_QuoteID = i, cq_CommissionRate = RateFromTenThousandths u, cq_TotalCommission = t\<rparr>
      = json_object ?ms"
    using format_money_text [of 4 "Rate_rat (RateFromTenThousandths u)"] floor_half_of_int [of u]
    by (simp add: encode_cqapi_Quote_def Rate_MarshalJSON_def Rate_String_def Amount_MarshalJSON_def
        Amount_String_def ratePlaces_def amountPlaces_def format_money_text t Rate_rat_def
        RateFromTenThousandths_def)
  have "length ?r \<le> 26" "length ?y \<le> 24"
    using length_decimal_text [of 4 u 20] length_decimal_text [of 2 ?n 20] u n by simp_all
  then have short: "take maxVendorBody (json_object ?ms @ newline) = json_object ?ms @ newline"
    using i by (simp add: encoded_quote_length maxVendorBody_def)
  have "skip_space newline = []" by code_simp
  then have dec: "decode_vendorQuote (json_object ?ms @ newline)
      = Some \<lparr>vq_QuoteID = i, vq_CommissionRate = ?r, vq_TotalCommission = ?y\<rparr>"
    using u n i by (intro quote_members member_value_decimal) simp_all
  have "numberText ?r = (?r, True)" "numberText ?y = (?y, True)"
    using decimal_text_ends u n vendor_number by simp_all
  moreover have "parseDecimal ?r = Inr (of_int u / 10 ^ 4, int 4)" "parseDecimal ?y = Inr (of_int ?n / 10 ^ 2, int 2)"
    by (intro parse_decimal_small u n; simp)+
  moreover have "i \<noteq> []" using i(2) by auto
  moreover have "ws_body resp = Inr (json_object ?ms @ newline)" unfolding body enc ..
  ultimately show ?thesis
    by (simp add: translate_def st decode_quote_def short dec ParseRate_def ParseAmount_def
        RateFromTenThousandths_def RoundHalfUp_floor del: take_append)
qed

section \<open>Properties\<close>

text \<open>
  The rate card. For any term that is not negative the vendor knows exactly the bands A, B and C; the
  rate is the band's base plus five ten-thousandths per full year, the supplement capped at thirty. So it
  lies between 1 and 2.55 per cent, never falls as the term grows, and no longer changes from six years on.
\<close>

theorem rate_card:
  assumes "is_int64 months" "0 \<le> months"
  shows "snd (card_rate band months) = (band \<in> {''A'', ''B'', ''C''})
    \<and> (band \<in> {''A'', ''B'', ''C''} \<longrightarrow>
        Rate_rat (fst (card_rate band months)) = of_int (base_of band + min (5 * (months div 12)) 30) / 10000
        \<and> 1 / 100 \<le> Rate_rat (fst (card_rate band months))
        \<and> Rate_rat (fst (card_rate band months)) \<le> 255 / 10000
        \<and> (\<forall>later. is_int64 later \<and> months \<le> later
            \<longrightarrow> Rate_rat (fst (card_rate band months)) \<le> Rate_rat (fst (card_rate band later))
              \<and> (72 \<le> months \<longrightarrow> card_rate band later = card_rate band months)))"
proof -
  have rat: "Rate_rat (RateFromTenThousandths n) = of_int n / 10000" for n
    by (simp add: Rate_rat_def RateFromTenThousandths_def)
  have up: "rate_units band months \<le> rate_units band later" if "months \<le> later" for later
    using zdiv_mono1 [OF that, of 12] by (simp add: rate_units_def min_def)
  have flat: "rate_units band later = rate_units band months" if "months \<le> later" "72 \<le> months" for later
  proof -
    have "6 \<le> months div 12" "6 \<le> later div 12" using that by presburger+
    then show ?thesis by (simp add: rate_units_def)
  qed
  have known: "snd (card_rate band months) = (band \<in> {''A'', ''B'', ''C''})"
    using card_rate_units [OF assms, of band] by simp
  have card: "card_rate band later = (RateFromTenThousandths (rate_units band later), True)"
    if "band \<in> {''A'', ''B'', ''C''}" "is_int64 later" "months \<le> later" for later
    using card_rate_units [of later band] that assms(2) by simp
  show ?thesis
    unfolding rate_units_def [symmetric]
  proof (intro conjI impI allI known)
    assume b: "band \<in> {''A'', ''B'', ''C''}"
    note now = card [OF b assms(1) order_refl]
    show "Rate_rat (fst (card_rate band months)) = of_int (rate_units band months) / 10000"
      "1 / 100 \<le> Rate_rat (fst (card_rate band months))"
      "Rate_rat (fst (card_rate band months)) \<le> 255 / 10000"
      using rate_units_bounds [OF assms(2), of band] by (simp_all add: now rat)
    fix later assume l: "is_int64 later \<and> months \<le> later"
    then have later: "card_rate band later = (RateFromTenThousandths (rate_units band later), True)"
      using card [OF b] by blast
    show "Rate_rat (fst (card_rate band months)) \<le> Rate_rat (fst (card_rate band later))"
      using up l by (simp add: now later rat divide_right_mono)
    show "card_rate band later = card_rate band months" if "72 \<le> months"
      unfolding now later using flat [OF conjunct2 [OF l] that] by simp
  qed
qed

theorem rate_card_witness:
  "Rate_rat (fst (card_rate ''B'' 36)) = 165 / 10000 \<and> card_rate ''B'' 360 = card_rate ''B'' 72
   \<and> \<not> snd (card_rate ''D'' 36)"
proof -
  have i: "is_int64 36" "is_int64 72" "is_int64 360" by (simp_all add: is_int64_def)
  have "Rate_rat (fst (card_rate ''B'' 36)) = of_int (base_of ''B'' + min (5 * (36 div 12)) 30) / 10000"
    using rate_card [OF i(1), of "''B''"] by simp
  moreover have "card_rate ''B'' 360 = card_rate ''B'' 72"
    using rate_card [OF i(2), of "''B''"] i(3) by auto
  moreover have "\<not> snd (card_rate ''D'' 36)" using rate_card [OF i(1), of "''D''"] by simp
  ultimately show ?thesis by (simp add: base_of_def)
qed

text \<open>
  The Middleware's request as the vendor's server receives it (header values without surrounding white
  space, the body along with them), and the answer as the client reads it.
\<close>

definition as_request :: "wire_request \<Rightarrow> request" where
  "as_request rq =
     \<lparr>rq_method = ''POST'', rq_path = ''/v1/quotes'',
      rq_headers = map (\<lambda>(k, v). (k, trim_space v)) (wr_headers rq), rq_cookies = [],
      rq_body = wr_body rq, rq_body_err = None, rq_body_time = 0\<rparr>"

definition as_reply :: "response \<Rightarrow> wire_response" where
  "as_reply resp =
     \<lparr>ws_status = resp_status resp,
      ws_retry_after = (case map_of (resp_headers resp) ''Retry-After'' of None \<Rightarrow> [] | Some v \<Rightarrow> v),
      ws_body = Inr (resp_body resp)\<rparr>"

text \<open>The simulation lets a request through: no failure was drawn and the wait ran to its end.\<close>

definition let_through :: "mock_env \<Rightarrow> mock_Config \<Rightarrow> ctx \<Rightarrow> mock \<Rightarrow> mock option" where
  "let_through me cfg c s =
     (case draw me (NewInjector cfg) s of ((fail, slow, latency), s1) \<Rightarrow>
        (case sleep_request c latency s1 of (woke, s2) \<Rightarrow> if woke \<and> \<not> fail then Some s2 else None))"

definition keyed :: "mock_Config \<Rightarrow> request \<Rightarrow> bool" where
  "keyed cfg r \<longleftrightarrow> header_get apiKeyHeader r = mc_APIKey cfg"

lemma quote_route:
  assumes "rq_method r = ''POST''" "rq_path r = ''/v1/quotes''"
  shows "mock_mux me cfg c r s =
    (if \<not> keyed cfg r then respond (bare_status 401) s
     else Injector_Middleware me (NewInjector cfg) (mock_Quote me) c r s)"
  using assms by (simp add: mock_mux_def Mux_def method_matches_def RequireAPIKey_def keyed_def)

lemma Injector_through:
  "let_through me cfg c s = Some s2 \<Longrightarrow> Injector_Middleware me (NewInjector cfg) next c r s = next c r s2"
  by (auto simp: let_through_def Injector_Middleware_def split: prod.splits if_splits)

lemma sent_key:
  "trim_space (vc_apiKey cl) = vc_apiKey cl \<Longrightarrow> mc_APIKey cfg = vc_apiKey cl
    \<Longrightarrow> keyed cfg (as_request (vendor_request e cl c req))"
  by (simp add: keyed_def header_get_def as_request_def vendor_request_def vendor_headers_def apiKeyHeader_def)

text \<open>
  C15: Middleware and vendor understand each other. Whatever request passed validation, the vendor, when it
  shares the api-key and its simulation lets the request through, answers 201, and the client decodes a
  quote with a non-empty id, the rate of the card exactly, and the commission amount times rate rounded
  half up to the cent, once, out of exact arithmetic. No figure passes through a float on the way.
\<close>

theorem vendor_understands_middleware:
  assumes "valid_request req" and "mc_APIKey cfg = vc_apiKey cl" "trim_space (vc_apiKey cl) = vc_apiKey cl"
    and through: "let_through me cfg c' s = Some s2" and "me_bytes me (mk_ids s2) = Inr bs" "length bs = 16"
  shows "\<exists>resp q. mock_mux me cfg c' (as_request (vendor_request e cl c req)) s
        = (Some resp, s2\<lparr>mk_ids := Suc (mk_ids s2)\<rparr>)
    \<and> resp_status resp = 201 \<and> translate (as_reply resp) = Inr q
    \<and> QuoteID q \<noteq> [] \<and> CommissionRate q = fst (card_rate (req_RiskBand req) (req_Months req))
    \<and> Amount_rat (TotalCommission q)
        = RoundHalfUp (Amount_rat (req_Amount req) * Rate_rat (CommissionRate q)) 2"
proof -
  let ?r = "as_request (vendor_request e cl c req)"
  let ?u = "rate_units (req_RiskBand req) (req_Months req)"
  obtain i where i: "newQuoteID (Inr bs) = Inr i" "plain i" "length i = 36"
    using newQuoteID_plain [OF assms(6)] by blast
  obtain q a where q: "decode_quoteRequest (vendor_request_body req) = Some q"
    and a: "check_quoteRequest (me_quote me) q = Inr (a, req_Months req, req_RiskBand req)"
    and ar: "Amount_rat a = Amount_rat (req_Amount req)" using vendor_checks_pass [OF assms(1)] by blast
  have valid: "6 \<le> req_Months req" "req_Months req \<le> 360" "req_RiskBand req \<in> {''A'', ''B'', ''C''}"
    "1000 \<le> Amount_rat (req_Amount req)" "Amount_rat (req_Amount req) \<le> 5000000"
    using assms(1) by (simp_all add: valid_request_def)
  then have card: "card_rate (req_RiskBand req) (req_Months req) = (RateFromTenThousandths ?u, True)"
    by (simp add: card_rate_units is_int64_def)
  have u: "0 \<le> ?u" "?u < 10 ^ 20" "?u \<le> 255" using rate_units_bounds [of "req_Months req" "req_RiskBand req"] valid by simp_all
  let ?x = "Amount_rat (req_Amount req) * Rate_rat (RateFromTenThousandths ?u)"
  let ?t = "Amount_Mul a (RateFromTenThousandths ?u)"
  let ?resp = "WriteJSON 201 (encode_cqapi_Quote
      \<lparr>cq_QuoteID = i, cq_CommissionRate = RateFromTenThousandths ?u, cq_TotalCommission = ?t\<rparr>)"
  have "Rate_rat (RateFromTenThousandths ?u) \<le> 1" "0 \<le> Rate_rat (RateFromTenThousandths ?u)"
    using u by (simp_all add: Rate_rat_def RateFromTenThousandths_def)
  then have x: "0 \<le> ?x" "?x < 10 ^ 17"
    using valid mult_mono [of "Amount_rat (req_Amount req)" 5000000 "Rate_rat (RateFromTenThousandths ?u)" 1] by simp_all
  have "mock_mux me cfg c' ?r s = mock_Quote me c' ?r s2"
    using sent_key [OF assms(3,2), of e c req] Injector_through [OF through]
    by (simp add: quote_route as_request_def)
  moreover have "mock_Quote me c' ?r s2 = (Some ?resp, s2\<lparr>mk_ids := Suc (mk_ids s2)\<rparr>)"
    by (simp add: mock_Quote_def mock_receive_def as_request_def vendor_request_def q a Generate_def card assms(5) i(1) respond_def Let_def)
  moreover have "translate (as_reply ?resp) = Inr \<lparr>QuoteID = i, CommissionRate = RateFromTenThousandths ?u,
      TotalCommission = \<lparr>amount_r = Some (RoundHalfUp ?x 2), amount_scale = 2\<rparr>\<rparr>"
    using i(2,3) u x ar
    by (intro client_reads_quote [where t = ?t]) (simp_all add: as_reply_def WriteJSON_def Amount_Mul_def Amount_rat_def [of "\<lparr>amount_r = _, amount_scale = _\<rparr>"])
  ultimately show ?thesis
    using i(3) by (intro exI [of _ ?resp] exI) (auto simp: card WriteJSON_def Amount_rat_def [of "\<lparr>amount_r = _, amount_scale = _\<rparr>"])
qed

definition example_card_config :: "float64 \<Rightarrow> mock_Config" where
  "example_card_config failing =
     \<lparr>mc_Port = 8083, mc_LogLevel = ''info'', mc_OTLPEndpoint = [], mc_APIKey = ''local-api-key'',
      FailureRate = failing, SlowRate = Fin 0, SlowDelay = 3 * second, LatencyMin = 50 * millisecond,
      LatencyMax = 50 * millisecond, Seed = 1\<rparr>"

definition example_source :: mock_env where
  "example_source = \<lparr>me_float = (\<lambda>k. 1 / 2), me_int = (\<lambda>k n. 0), me_bytes = (\<lambda>k. Inr (replicate 16 CHR ''A'')),
     me_quote = (\<lambda>s. s)\<rparr>"

definition example_mock :: mock where
  "example_mock = \<lparr>mk_clock = 0, mk_draws = 0, mk_ids = 0\<rparr>"

definition example_loan :: QuoteRequest where
  "example_loan = \<lparr>req_Amount = \<lparr>amount_r = Some 250000, amount_scale = 0\<rparr>, req_Months = 36, req_RiskBand = ''B''\<rparr>"

lemma example_let_through:
  "let_through example_source (example_card_config (Fin 0)) background example_mock
     = Some (example_mock\<lparr>mk_clock := 50 * millisecond, mk_draws := 2\<rparr>)"
  by (simp add: let_through_def draw_def example_source_def example_card_config_def NewInjector_def
      example_mock_def sleep_request_def ctx_done_before_def background_def Let_def
      wrap64_def)

theorem vendor_understands_middleware_witness:
  "\<exists>resp q. translate (as_reply resp) = Inr q \<and> Amount_rat (TotalCommission q) = 4125"
proof -
  let ?cl = "\<lparr>vc_baseURL = ''http://cqapi-mock:8083'', vc_apiKey = ''local-api-key'', vc_timeout = 2 * second\<rparr>"
  have "valid_request example_loan"
    by (auto simp: valid_request_def example_loan_def Amount_rat_def intro: exI [of _ 25000000])
  moreover have "mc_APIKey (example_card_config (Fin 0)) = vc_apiKey ?cl" by (simp add: example_card_config_def)
  moreover have "trim_space (vc_apiKey ?cl) = vc_apiKey ?cl" by code_simp
  moreover have "me_bytes example_source n = Inr (replicate 16 CHR ''A'')" for n by (simp add: example_source_def)
  ultimately obtain resp q where q: "translate (as_reply resp) = Inr q"
    "CommissionRate q = fst (card_rate (req_RiskBand example_loan) (req_Months example_loan))"
    "Amount_rat (TotalCommission q)
       = RoundHalfUp (Amount_rat (req_Amount example_loan) * Rate_rat (CommissionRate q)) 2"
    using vendor_understands_middleware [OF _ _ _ example_let_through, of example_loan ?cl "replicate 16 CHR ''A''"]
      length_replicate [of 16 "CHR ''A''"]
    by metis
  have "Rate_rat (CommissionRate q) = 165 / 10000"
    unfolding q(2) by (simp add: card_rate_units is_int64_def example_loan_def rate_units_def base_of_def
        Rate_rat_def RateFromTenThousandths_def)
  then have "Amount_rat (req_Amount example_loan) * Rate_rat (CommissionRate q) = of_int 412500 / 10 ^ 2"
    by (simp only:) (simp add: example_loan_def Amount_rat_def)
  then have "Amount_rat (TotalCommission q) = RoundHalfUp (of_int 412500 / 10 ^ 2) 2"
    unfolding q(3) by (rule arg_cong)
  also have "\<dots> = of_int 412500 / 10 ^ 2" by (rule RoundHalfUp_exact)
  finally show ?thesis using q(1) by auto
qed

section \<open>The gate and the simulation\<close>

lemma draw_count:
  "draw me i s = ((fail, slow, d), s1) \<Longrightarrow> mk_draws s1 \<in> {mk_draws s + 2, mk_draws s + 3} \<and> mk_ids s1 = mk_ids s
     \<and> fail = (Fin (me_float me (mk_draws s)) < failureRate i)"
  by (auto simp: draw_def Let_def split: if_splits)

lemma sleep_request_frame:
  "sleep_request c d s = (woke, s') \<Longrightarrow> mk_draws s' = mk_draws s \<and> mk_ids s' = mk_ids s"
  by (auto simp: sleep_request_def split: if_splits option.splits)

lemma mock_Quote_status:
  "\<exists>resp s'. mock_Quote me c r s = (Some resp, s') \<and> resp_status resp \<in> {201, 400, 500} \<and> mk_draws s' = mk_draws s"
  by (auto simp: mock_Quote_def mock_receive_def respond_def mock_reject_def WriteJSON_def bare_status_def Let_def
      split: option.splits sum.splits prod.splits)

text \<open>The outcome of a keyed request, by what the simulation drew for it.\<close>

lemma Injector_outcome:
  assumes "draw me (NewInjector cfg) s = ((fail, slow, d), s1)" "sleep_request c d s1 = (woke, s2)"
  shows "Injector_Middleware me (NewInjector cfg) next c r s =
    (if \<not> woke then (Some (bare_status 200), s2) else if fail then (Some (bare_status 503), s2) else next c r s2)"
  by (simp add: Injector_Middleware_def assms respond_def)

definition to_quotes :: "request \<Rightarrow> request" where
  "to_quotes r = r\<lparr>rq_method := ''POST'', rq_path := ''/v1/quotes''\<rparr>"

lemma keyed_request:
  assumes "keyed cfg r" "\<And>k. 0 \<le> me_float me k \<and> me_float me k < 1"
  shows "\<exists>resp s'. mock_mux me cfg c (to_quotes r) s = (Some resp, s')
    \<and> mk_draws s' \<in> {mk_draws s + 2, mk_draws s + 3}
    \<and> (case draw me (NewInjector cfg) s of ((fail, slow, latency), s1) \<Rightarrow>
         if \<not> fst (sleep_request c latency s1) then resp = bare_status 200
         else if fail then resp = bare_status 503 \<and> FailureRate cfg \<noteq> Fin 0
         else resp_status resp \<in> {201, 400, 500} \<and> FailureRate cfg \<noteq> Fin 1)"
proof -
  obtain fail slow d s1 where dr: "draw me (NewInjector cfg) s = ((fail, slow, d), s1)" by (cases "draw me (NewInjector cfg) s") auto
  obtain woke s2 where sl: "sleep_request c d s1 = (woke, s2)" by fastforce
  obtain resp s' where q: "mock_Quote me c (to_quotes r) s2 = (Some resp, s')"
    "resp_status resp \<in> {201, 400, 500}" "mk_draws s' = mk_draws s2"
    using mock_Quote_status [of me c "to_quotes r" s2] by blast
  have "fail = (Fin (me_float me (mk_draws s)) < FailureRate cfg)"
    using draw_count [OF dr] by (simp add: NewInjector_def)
  then have rate: "fail \<Longrightarrow> FailureRate cfg \<noteq> Fin 0" "\<not> fail \<Longrightarrow> FailureRate cfg \<noteq> Fin 1"
    using assms(2) [of "mk_draws s"] by auto
  have "keyed cfg (to_quotes r)" using assms(1) by (simp add: keyed_def header_get_def to_quotes_def)
  then have mux: "mock_mux me cfg c (to_quotes r) s =
    (if \<not> woke then (Some (bare_status 200), s2) else if fail then (Some (bare_status 503), s2)
     else (Some resp, s'))"
    using Injector_outcome [OF dr sl] q(1) by (simp add: quote_route to_quotes_def)
  have "mk_draws s2 \<in> {mk_draws s + 2, mk_draws s + 3}"
    using draw_count [OF dr] sleep_request_frame [OF sl] by simp
  then show ?thesis
    unfolding mux dr using q(2,3) rate by (cases woke; cases fail) (simp_all add: sl)
qed

text \<open>
  C35: the mock's gate and its simulation. Without the right api-key the answer is a bare 401 and the
  simulation is not advanced; the health check needs no key and is never failed. With the key, a request
  consumes two or three draws; one that is waited for is failed with 503 exactly when its draw is below
  the configured rate, never at rate zero and always at rate one, and otherwise is answered 201, 400 or 500.
\<close>

theorem vendor_gate_and_simulation:
  assumes "\<And>k. 0 \<le> me_float me k \<and> me_float me k < 1"
  shows "mock_mux me cfg c (r\<lparr>rq_method := ''GET'', rq_path := ''/healthz''\<rparr>) s = (Some health_response, s)
    \<and> (\<not> keyed cfg r \<longrightarrow> mock_mux me cfg c (to_quotes r) s = (Some (bare_status 401), s))
    \<and> (keyed cfg r \<longrightarrow> (\<exists>resp s'. mock_mux me cfg c (to_quotes r) s = (Some resp, s')
      \<and> mk_draws s' \<in> {mk_draws s + 2, mk_draws s + 3}
      \<and> (case draw me (NewInjector cfg) s of ((fail, slow, latency), s1) \<Rightarrow>
           if \<not> fst (sleep_request c latency s1) then resp = bare_status 200
           else if fail then resp = bare_status 503 \<and> FailureRate cfg \<noteq> Fin 0
           else resp_status resp \<in> {201, 400, 500} \<and> FailureRate cfg \<noteq> Fin 1)))"
proof (intro conjI impI)
  show "mock_mux me cfg c (r\<lparr>rq_method := ''GET'', rq_path := ''/healthz''\<rparr>) s = (Some health_response, s)"
    by (simp add: mock_mux_def Mux_def method_matches_def Health_def respond_def)
  show "mock_mux me cfg c (to_quotes r) s = (Some (bare_status 401), s)" if "\<not> keyed cfg r"
    using that by (simp add: quote_route to_quotes_def respond_def keyed_def header_get_def)
qed (rule keyed_request [OF _ assms])

theorem vendor_gate_and_simulation_witness:
  "mock_mux example_source (example_card_config (Fin 1)) background (to_quotes bare_request) example_mock
   = (Some (bare_status 401), example_mock)"
proof -
  have "0 \<le> me_float example_source k \<and> me_float example_source k < 1" for k by (simp add: example_source_def)
  moreover have "\<not> keyed (example_card_config (Fin 1)) bare_request"
    by (simp add: keyed_def header_get_def bare_request_def example_card_config_def)
  ultimately show ?thesis
    using vendor_gate_and_simulation [of example_source "example_card_config (Fin 1)" background bare_request example_mock]
    by blast
qed

end
