(* ===== verification/Startup.thy ===== *)
theory Startup
  imports Settings Middleware VendorMock
begin

text \<open>
  The \<open>config.go\<close> of the three services: which keys each one reads, with which defaults, and the checks
  that make it refuse to start. \<open>url.Parse\<close> and the loopback test on \<open>net.ParseIP\<close> are parameters.
\<close>

section \<open>Refusals\<close>

datatype load_failure =
    Problems "load_error list"
  | AttemptsBelowOne int
  | SamplesExceedWindow int int
  | UnparsableURL string
  | PlainHTTP string
  | UnknownScheme string
  | ShortSigningKey nat
  | LatencyReversed duration duration

record url =
  url_Scheme :: string
  url_Host :: string
  url_Hostname :: string

record net =
  net_Parse :: "string \<Rightarrow> url option"
  net_loopback :: "string \<Rightarrow> bool"

definition minSigningKeyBytes :: nat where "minSigningKeyBytes = 32"

text \<open>\<open>isLocal\<close>, which both services have, with the name of the other container.\<close>

definition isLocal :: "net \<Rightarrow> string \<Rightarrow> string \<Rightarrow> bool" where
  "isLocal net peer host \<longleftrightarrow> host = ''localhost'' \<or> host = peer \<or> net_loopback net host"

definition check_transport :: "net \<Rightarrow> string \<Rightarrow> string \<Rightarrow> load_failure option" where
  "check_transport net peer raw =
     (case net_Parse net raw of
        None \<Rightarrow> Some (UnparsableURL raw)
      | Some u \<Rightarrow>
          if url_Scheme u = ''https'' then None
          else if url_Scheme u = ''http'' then
            (if isLocal net peer (url_Hostname u) then None else Some (PlainHTTP (url_Host u)))
          else Some (UnknownScheme (url_Scheme u)))"

definition checkVendorTransport :: "net \<Rightarrow> string \<Rightarrow> load_failure option" where
  "checkVendorTransport net raw = check_transport net ''cqapi-mock'' raw"

definition checkMiddlewareTransport :: "net \<Rightarrow> string \<Rightarrow> load_failure option" where
  "checkMiddlewareTransport net raw = check_transport net ''cqapp-middleware'' raw"

section \<open>The Middleware\<close>

definition middleware_settings :: "provider \<Rightarrow> Config loading" where
  "middleware_settings src = do {
     port \<leftarrow> loader_Port src ''PORT'' 8082;
     level \<leftarrow> loader_String src ''LOG_LEVEL'' ''info'';
     otlp \<leftarrow> loader_String src ''OTEL_EXPORTER_OTLP_ENDPOINT'' [];
     base \<leftarrow> loader_String src ''CQAPI_BASE_URL'' ''http://cqapi-mock:8083'';
     api_key \<leftarrow> loader_RequiredSecret src ''CQAPI_API_KEY'';
     signing_key \<leftarrow> loader_RequiredSecret src ''BFF_MIDDLEWARE_SIGNING_KEY'';
     vendor_timeout \<leftarrow> loader_Duration src ''MIDDLEWARE_VENDOR_TIMEOUT'' (2 * second);
     budget \<leftarrow> loader_Duration src ''MIDDLEWARE_REQUEST_BUDGET'' (6 * second);
     skew \<leftarrow> loader_Duration src ''MIDDLEWARE_CLOCK_SKEW'' (5 * second);
     staff \<leftarrow> loader_String src ''STAFF_FILE'' ''config/staff.csv'';
     attempts \<leftarrow> loader_Int src ''MIDDLEWARE_RETRY_ATTEMPTS'' 3;
     retry_base \<leftarrow> loader_Duration src ''MIDDLEWARE_RETRY_BASE'' (150 * millisecond);
     retry_cap \<leftarrow> loader_Duration src ''MIDDLEWARE_RETRY_CAP'' second;
     window \<leftarrow> loader_Int src ''MIDDLEWARE_BREAKER_WINDOW'' 20;
     samples \<leftarrow> loader_Int src ''MIDDLEWARE_BREAKER_MIN_SAMPLES'' 10;
     threshold \<leftarrow> loader_Rate src ''MIDDLEWARE_BREAKER_THRESHOLD'' (Fin (1 / 2));
     open_for \<leftarrow> loader_Duration src ''MIDDLEWARE_BREAKER_OPEN_FOR'' (10 * second);
     probes \<leftarrow> loader_Int src ''MIDDLEWARE_BREAKER_PROBES'' 3;
     State_Monad.return
       \<lparr>cfg_Port = port, LogLevel = level, OTLPEndpoint = otlp, VendorBaseURL = base,
        VendorAPIKey = Reveal api_key, SigningKey = Reveal signing_key, VendorTimeout = vendor_timeout,
        RequestBudget = budget, ClockSkew = skew,
        cfg_Retry = \<lparr>Attempts = attempts, Base = retry_base, Cap = retry_cap\<rparr>,
        cfg_Breaker = \<lparr>Window = window, MinSamples = samples, Threshold = threshold, OpenFor = open_for,
          Probes = probes\<rparr>,
        StaffFile = staff\<rparr>
   }"

definition Load_middleware :: "net \<Rightarrow> provider \<Rightarrow> load_failure + Config" where
  "Load_middleware net src =
     (case run_state (middleware_settings src) [] of (cfg, errs) \<Rightarrow>
        (case loader_Err errs of
           Some ps \<Rightarrow> Inl (Problems ps)
         | None \<Rightarrow>
             if Attempts (cfg_Retry cfg) < 1 then Inl (AttemptsBelowOne (Attempts (cfg_Retry cfg)))
             else if MinSamples (cfg_Breaker cfg) > Window (cfg_Breaker cfg)
             then Inl (SamplesExceedWindow (MinSamples (cfg_Breaker cfg)) (Window (cfg_Breaker cfg)))
             else (case checkVendorTransport net (VendorBaseURL cfg) of
                 Some f \<Rightarrow> Inl f
               | None \<Rightarrow>
                   if length (SigningKey cfg) < minSigningKeyBytes
                   then Inl (ShortSigningKey (length (SigningKey cfg))) else Inr cfg)))"

section \<open>The BFF\<close>

record bff_Config =
  bc_Port :: int
  bc_LogLevel :: string
  bc_OTLPEndpoint :: string
  MiddlewareBaseURL :: string
  bc_SigningKey :: string
  bc_StaffFile :: string
  CredentialsFile :: string
  SessionTTL :: duration
  CookieSecure :: bool
  TokenTTL :: duration
  RequestTimeout :: duration

definition bff_settings :: "provider \<Rightarrow> bff_Config loading" where
  "bff_settings src = do {
     port \<leftarrow> loader_Port src ''PORT'' 8081;
     level \<leftarrow> loader_String src ''LOG_LEVEL'' ''info'';
     otlp \<leftarrow> loader_String src ''OTEL_EXPORTER_OTLP_ENDPOINT'' [];
     base \<leftarrow> loader_String src ''MIDDLEWARE_BASE_URL'' ''http://cqapp-middleware:8082'';
     signing_key \<leftarrow> loader_RequiredSecret src ''BFF_MIDDLEWARE_SIGNING_KEY'';
     staff \<leftarrow> loader_String src ''STAFF_FILE'' ''config/staff.csv'';
     creds \<leftarrow> loader_String src ''CREDENTIALS_FILE'' ''config/credentials.csv'';
     session \<leftarrow> loader_Duration src ''SESSION_TTL'' (30 * 60 * second);
     secure \<leftarrow> loader_Bool src ''SESSION_COOKIE_SECURE'' True;
     token \<leftarrow> loader_Duration src ''BFF_TOKEN_TTL'' (60 * second);
     timeout \<leftarrow> loader_Duration src ''BFF_REQUEST_TIMEOUT'' (8 * second);
     State_Monad.return
       \<lparr>bc_Port = port, bc_LogLevel = level, bc_OTLPEndpoint = otlp, MiddlewareBaseURL = base,
        bc_SigningKey = Reveal signing_key, bc_StaffFile = staff, CredentialsFile = creds,
        SessionTTL = session, CookieSecure = secure, TokenTTL = token, RequestTimeout = timeout\<rparr>
   }"

definition Load_bff :: "net \<Rightarrow> provider \<Rightarrow> load_failure + bff_Config" where
  "Load_bff net src =
     (case run_state (bff_settings src) [] of (cfg, errs) \<Rightarrow>
        (case loader_Err errs of
           Some ps \<Rightarrow> Inl (Problems ps)
         | None \<Rightarrow>
             (case checkMiddlewareTransport net (MiddlewareBaseURL cfg) of
                Some f \<Rightarrow> Inl f
              | None \<Rightarrow>
                  if length (bc_SigningKey cfg) < minSigningKeyBytes
                  then Inl (ShortSigningKey (length (bc_SigningKey cfg))) else Inr cfg)))"

section \<open>The vendor mock\<close>

text \<open>Milliseconds are multiplied in \<open>int64\<close>, which wraps.\<close>

definition mock_settings :: "provider \<Rightarrow> mock_Config loading" where
  "mock_settings src = do {
     port \<leftarrow> loader_Port src ''PORT'' 8083;
     level \<leftarrow> loader_String src ''LOG_LEVEL'' ''info'';
     otlp \<leftarrow> loader_String src ''OTEL_EXPORTER_OTLP_ENDPOINT'' [];
     api_key \<leftarrow> loader_RequiredSecret src ''CQAPI_API_KEY'';
     failure \<leftarrow> loader_Rate src ''CQAPI_FAILURE_RATE'' (to_float (15 / 100));
     slow \<leftarrow> loader_Rate src ''CQAPI_SLOW_RATE'' (to_float (10 / 100));
     slow_ms \<leftarrow> loader_Int src ''CQAPI_SLOW_MS'' 3000;
     min_ms \<leftarrow> loader_Int src ''CQAPI_LATENCY_MIN_MS'' 50;
     max_ms \<leftarrow> loader_Int src ''CQAPI_LATENCY_MAX_MS'' 400;
     seed \<leftarrow> loader_Int src ''CQAPI_RANDOM_SEED'' 0;
     State_Monad.return
       \<lparr>mc_Port = port, mc_LogLevel = level, mc_OTLPEndpoint = otlp, mc_APIKey = Reveal api_key,
        FailureRate = failure, SlowRate = slow, SlowDelay = wrap64 (slow_ms * millisecond),
        LatencyMin = wrap64 (min_ms * millisecond), LatencyMax = wrap64 (max_ms * millisecond), Seed = seed\<rparr>
   }"

definition Load_mock :: "provider \<Rightarrow> load_failure + mock_Config" where
  "Load_mock src =
     (case run_state (mock_settings src) [] of (cfg, errs) \<Rightarrow>
        (case loader_Err errs of
           Some ps \<Rightarrow> Inl (Problems ps)
         | None \<Rightarrow>
             if LatencyMin cfg > LatencyMax cfg then Inl (LatencyReversed (LatencyMin cfg) (LatencyMax cfg))
             else Inr cfg))"

section \<open>What is read and what is reported\<close>

definition middleware_problems :: "provider \<Rightarrow> load_error list" where
  "middleware_problems src =
     port_problems src ''PORT'' 8082
     @ required_problems src ''CQAPI_API_KEY''
     @ required_problems src ''BFF_MIDDLEWARE_SIGNING_KEY''
     @ concat (map (parsed_problems parse_duration NotADuration src)
         [''MIDDLEWARE_VENDOR_TIMEOUT'', ''MIDDLEWARE_REQUEST_BUDGET'', ''MIDDLEWARE_CLOCK_SKEW''])
     @ parsed_problems parse_int NotAnInteger src ''MIDDLEWARE_RETRY_ATTEMPTS''
     @ concat (map (parsed_problems parse_duration NotADuration src)
         [''MIDDLEWARE_RETRY_BASE'', ''MIDDLEWARE_RETRY_CAP''])
     @ concat (map (parsed_problems parse_int NotAnInteger src)
         [''MIDDLEWARE_BREAKER_WINDOW'', ''MIDDLEWARE_BREAKER_MIN_SAMPLES''])
     @ rate_problems src ''MIDDLEWARE_BREAKER_THRESHOLD'' (Fin (1 / 2))
     @ parsed_problems parse_duration NotADuration src ''MIDDLEWARE_BREAKER_OPEN_FOR''
     @ parsed_problems parse_int NotAnInteger src ''MIDDLEWARE_BREAKER_PROBES''"

definition bff_problems :: "provider \<Rightarrow> load_error list" where
  "bff_problems src =
     port_problems src ''PORT'' 8081
     @ required_problems src ''BFF_MIDDLEWARE_SIGNING_KEY''
     @ parsed_problems parse_duration NotADuration src ''SESSION_TTL''
     @ parsed_problems parse_bool NotABoolean src ''SESSION_COOKIE_SECURE''
     @ concat (map (parsed_problems parse_duration NotADuration src) [''BFF_TOKEN_TTL'', ''BFF_REQUEST_TIMEOUT''])"

definition mock_problems :: "provider \<Rightarrow> load_error list" where
  "mock_problems src =
     port_problems src ''PORT'' 8083
     @ required_problems src ''CQAPI_API_KEY''
     @ rate_problems src ''CQAPI_FAILURE_RATE'' (to_float (15 / 100))
     @ rate_problems src ''CQAPI_SLOW_RATE'' (to_float (10 / 100))
     @ concat (map (parsed_problems parse_int NotAnInteger src)
         [''CQAPI_SLOW_MS'', ''CQAPI_LATENCY_MIN_MS'', ''CQAPI_LATENCY_MAX_MS'', ''CQAPI_RANDOM_SEED''])"

lemmas run_getters = getters [unfolded getter_def, rule_format]

lemma middleware_settings_problems: "snd (run_state (middleware_settings src) []) = middleware_problems src"
  by (simp add: middleware_settings_def middleware_problems_def run_getters)

lemma bff_settings_problems: "snd (run_state (bff_settings src) []) = bff_problems src"
  by (simp add: bff_settings_def bff_problems_def run_getters)

lemma mock_settings_problems: "snd (run_state (mock_settings src) []) = mock_problems src"
  by (simp add: mock_settings_def mock_problems_def run_getters)

text \<open>The values the three services start with, when there are no problems.\<close>

lemma middleware_settings_values:
  "fst (run_state (middleware_settings src) []) =
     \<lparr>cfg_Port = port_value src ''PORT'' 8082, LogLevel = text_value src ''LOG_LEVEL'' ''info'',
      OTLPEndpoint = text_value src ''OTEL_EXPORTER_OTLP_ENDPOINT'' [],
      VendorBaseURL = text_value src ''CQAPI_BASE_URL'' ''http://cqapi-mock:8083'',
      VendorAPIKey = text_value src ''CQAPI_API_KEY'' [],
      SigningKey = text_value src ''BFF_MIDDLEWARE_SIGNING_KEY'' [],
      VendorTimeout = parsed_value parse_duration src ''MIDDLEWARE_VENDOR_TIMEOUT'' (2 * second),
      RequestBudget = parsed_value parse_duration src ''MIDDLEWARE_REQUEST_BUDGET'' (6 * second),
      ClockSkew = parsed_value parse_duration src ''MIDDLEWARE_CLOCK_SKEW'' (5 * second),
      cfg_Retry = \<lparr>Attempts = parsed_value parse_int src ''MIDDLEWARE_RETRY_ATTEMPTS'' 3,
        Base = parsed_value parse_duration src ''MIDDLEWARE_RETRY_BASE'' (150 * millisecond),
        Cap = parsed_value parse_duration src ''MIDDLEWARE_RETRY_CAP'' second\<rparr>,
      cfg_Breaker = \<lparr>Window = parsed_value parse_int src ''MIDDLEWARE_BREAKER_WINDOW'' 20,
        MinSamples = parsed_value parse_int src ''MIDDLEWARE_BREAKER_MIN_SAMPLES'' 10,
        Threshold = rate_value src ''MIDDLEWARE_BREAKER_THRESHOLD'' (Fin (1 / 2)),
        OpenFor = parsed_value parse_duration src ''MIDDLEWARE_BREAKER_OPEN_FOR'' (10 * second),
        Probes = parsed_value parse_int src ''MIDDLEWARE_BREAKER_PROBES'' 3\<rparr>,
      StaffFile = text_value src ''STAFF_FILE'' ''config/staff.csv''\<rparr>"
  by (simp add: middleware_settings_def run_getters)

lemma bff_settings_values:
  "fst (run_state (bff_settings src) []) =
     \<lparr>bc_Port = port_value src ''PORT'' 8081, bc_LogLevel = text_value src ''LOG_LEVEL'' ''info'',
      bc_OTLPEndpoint = text_value src ''OTEL_EXPORTER_OTLP_ENDPOINT'' [],
      MiddlewareBaseURL = text_value src ''MIDDLEWARE_BASE_URL'' ''http://cqapp-middleware:8082'',
      bc_SigningKey = text_value src ''BFF_MIDDLEWARE_SIGNING_KEY'' [],
      bc_StaffFile = text_value src ''STAFF_FILE'' ''config/staff.csv'',
      CredentialsFile = text_value src ''CREDENTIALS_FILE'' ''config/credentials.csv'',
      SessionTTL = parsed_value parse_duration src ''SESSION_TTL'' (30 * 60 * second),
      CookieSecure = parsed_value parse_bool src ''SESSION_COOKIE_SECURE'' True,
      TokenTTL = parsed_value parse_duration src ''BFF_TOKEN_TTL'' (60 * second),
      RequestTimeout = parsed_value parse_duration src ''BFF_REQUEST_TIMEOUT'' (8 * second)\<rparr>"
  by (simp add: bff_settings_def run_getters)

text \<open>Loading as one equation over the problems and the values.\<close>

lemma Load_middleware_eq:
  "Load_middleware net src =
     (let cfg = fst (run_state (middleware_settings src) []) in
      if middleware_problems src \<noteq> [] then Inl (Problems (middleware_problems src))
      else if Attempts (cfg_Retry cfg) < 1 then Inl (AttemptsBelowOne (Attempts (cfg_Retry cfg)))
      else if MinSamples (cfg_Breaker cfg) > Window (cfg_Breaker cfg)
      then Inl (SamplesExceedWindow (MinSamples (cfg_Breaker cfg)) (Window (cfg_Breaker cfg)))
      else (case checkVendorTransport net (VendorBaseURL cfg) of
          Some f \<Rightarrow> Inl f
        | None \<Rightarrow> if length (SigningKey cfg) < 32 then Inl (ShortSigningKey (length (SigningKey cfg))) else Inr cfg))"
  using middleware_settings_problems [of src]
  by (cases "run_state (middleware_settings src) []")
     (simp add: Load_middleware_def loader_Err_def minSigningKeyBytes_def)

lemma Load_bff_eq:
  "Load_bff net src =
     (let cfg = fst (run_state (bff_settings src) []) in
      if bff_problems src \<noteq> [] then Inl (Problems (bff_problems src))
      else (case checkMiddlewareTransport net (MiddlewareBaseURL cfg) of
          Some f \<Rightarrow> Inl f
        | None \<Rightarrow> if length (bc_SigningKey cfg) < 32 then Inl (ShortSigningKey (length (bc_SigningKey cfg)))
                  else Inr cfg))"
  using bff_settings_problems [of src]
  by (cases "run_state (bff_settings src) []") (simp add: Load_bff_def loader_Err_def minSigningKeyBytes_def)

lemma Load_mock_eq:
  "Load_mock src =
     (let cfg = fst (run_state (mock_settings src) []) in
      if mock_problems src \<noteq> [] then Inl (Problems (mock_problems src))
      else if LatencyMin cfg > LatencyMax cfg then Inl (LatencyReversed (LatencyMin cfg) (LatencyMax cfg))
      else Inr cfg)"
  using mock_settings_problems [of src]
  by (cases "run_state (mock_settings src) []") (simp add: Load_mock_def loader_Err_def)

lemma check_transport_None:
  "check_transport net peer raw = None \<longleftrightarrow>
     (\<exists>u. net_Parse net raw = Some u
        \<and> (url_Scheme u = ''https'' \<or> url_Scheme u = ''http'' \<and> isLocal net peer (url_Hostname u)))"
  by (auto simp: check_transport_def split: option.splits)

lemma check_transport_Problems: "check_transport net peer raw \<noteq> Some (Problems ps)"
  by (auto simp: check_transport_def split: option.splits)

lemma port_value_ok: "port_ok def \<Longrightarrow> port_ok (port_value src key def)"
  by (simp add: port_value_def Let_def)

lemma rate_value_ok: "rate_ok def \<Longrightarrow> rate_ok (rate_value src key def)"
  by (simp add: rate_value_def Let_def)

lemma EnvProvider_nonempty: "EnvProvider lookup key \<noteq> Some []"
  by (simp add: EnvProvider_def split: option.split)

lemma required_value:
  "required_problems (EnvProvider lookup) key = [] \<Longrightarrow> text_value (EnvProvider lookup) key [] \<noteq> []"
  using EnvProvider_nonempty [of lookup key]
  by (auto simp: required_problems_def text_value_def split: option.splits if_splits)

section \<open>Properties\<close>

text \<open>
  C23: every problem at once. For each service, loading fails with a list of problems exactly when some
  value is missing or malformed, and the list then holds every one of them, key by key in the order the
  service reads its keys: an operator with three bad variables learns all three from one run.
\<close>

theorem Load_reports_every_problem:
  "(Load_middleware net src = Inl (Problems ps) \<longleftrightarrow> ps = middleware_problems src \<and> ps \<noteq> [])
   \<and> (Load_bff net src = Inl (Problems ps) \<longleftrightarrow> ps = bff_problems src \<and> ps \<noteq> [])
   \<and> (Load_mock src = Inl (Problems ps) \<longleftrightarrow> ps = mock_problems src \<and> ps \<noteq> [])"
  by (auto simp: Load_middleware_eq Load_bff_eq Load_mock_eq Let_def checkVendorTransport_def
      checkMiddlewareTransport_def check_transport_Problems split: option.split)

text \<open>
  C20: what a service that starts can rely on. From the process environment the Middleware and the BFF
  only start with a port, at least one attempt, a window that can hold the samples, a threshold that is
  not outside 0 to 1, a signing key of at least 32 bytes shared by both, and an api-key; and neither
  credential ever goes over plain http to a host that is not local.
\<close>

theorem loaded_configuration:
  assumes "Load_middleware net (EnvProvider env) = Inr cfg" "Load_bff net (EnvProvider env) = Inr bff"
  shows "port_ok (cfg_Port cfg) \<and> port_ok (bc_Port bff)
    \<and> 1 \<le> Attempts (cfg_Retry cfg) \<and> MinSamples (cfg_Breaker cfg) \<le> Window (cfg_Breaker cfg)
    \<and> rate_ok (Threshold (cfg_Breaker cfg))
    \<and> 32 \<le> length (SigningKey cfg) \<and> bc_SigningKey bff = SigningKey cfg \<and> VendorAPIKey cfg \<noteq> []
    \<and> (\<exists>u. net_Parse net (VendorBaseURL cfg) = Some u
          \<and> (url_Scheme u = ''https'' \<or> url_Scheme u = ''http'' \<and> isLocal net ''cqapi-mock'' (url_Hostname u)))
    \<and> (\<exists>u. net_Parse net (MiddlewareBaseURL bff) = Some u
          \<and> (url_Scheme u = ''https'' \<or> url_Scheme u = ''http'' \<and> isLocal net ''cqapp-middleware'' (url_Hostname u)))"
proof -
  let ?s = "EnvProvider env"
  have p: "middleware_problems ?s = []" "bff_problems ?s = []"
    using assms by (auto simp: Load_middleware_eq Load_bff_eq Let_def split: if_splits)
  then have c: "cfg = fst (run_state (middleware_settings ?s) [])" "1 \<le> Attempts (cfg_Retry cfg)"
    "MinSamples (cfg_Breaker cfg) \<le> Window (cfg_Breaker cfg)" "checkVendorTransport net (VendorBaseURL cfg) = None"
    "32 \<le> length (SigningKey cfg)"
    using assms(1) by (auto simp: Load_middleware_eq Let_def split: if_splits option.splits)
  have b: "bff = fst (run_state (bff_settings ?s) [])" "checkMiddlewareTransport net (MiddlewareBaseURL bff) = None"
    using assms(2) p by (auto simp: Load_bff_eq Let_def split: if_splits option.splits)
  have "VendorAPIKey cfg \<noteq> []"
    using p(1) required_value [of env "''CQAPI_API_KEY''"] by (simp add: c(1) middleware_settings_values middleware_problems_def)
  moreover have "port_ok (cfg_Port cfg)" "rate_ok (Threshold (cfg_Breaker cfg))" "port_ok (bc_Port bff)"
    "bc_SigningKey bff = SigningKey cfg"
    using port_value_ok [of 8082] port_value_ok [of 8081] rate_value_ok [of "Fin (1 / 2)"]
    by (simp_all add: c(1) b(1) middleware_settings_values bff_settings_values)
       (simp_all add: port_ok_def rate_ok_def)
  ultimately show ?thesis
    using c(2-) b(2) unfolding checkVendorTransport_def checkMiddlewareTransport_def check_transport_None by blast
qed

text \<open>
  A probability that is not a number. A value given for a rate is taken exactly if it is a number
  from 0 to 1, or NaN: both range comparisons are false for it, so the constraint lets it pass.
\<close>

theorem rate_admits_NaN:
  assumes "src key = Some v"
  shows "run_state (loader_Rate src key def) [] = (f, [])
    \<longleftrightarrow> parse_float v = Some f \<and> (f = NaN \<or> (\<exists>x. f = Fin x \<and> 0 \<le> x \<and> x \<le> 1))"
proof -
  have "rate_ok f \<longleftrightarrow> f = NaN \<or> (\<exists>x. f = Fin x \<and> 0 \<le> x \<and> x \<le> 1)"
    by (cases f) (auto simp: rate_ok_def)
  then show ?thesis
    using assms by (auto simp: run_getters rate_value_def rate_problems_def parsed_value_def parsed_problems_def
        Let_def split: option.splits if_splits)
qed

theorem rate_admits_NaN_witness:
  "run_state (loader_Rate (MapProvider [(''CQAPI_FAILURE_RATE'', ''NaN'')]) ''CQAPI_FAILURE_RATE'' (Fin 0)) [] = (NaN, [])"
proof -
  have "MapProvider [(''CQAPI_FAILURE_RATE'', ''NaN'')] ''CQAPI_FAILURE_RATE'' = Some ''NaN''"
    by (simp add: MapProvider_def)
  moreover have "equal_fold_ascii ''NaN'' ''nan''" by code_simp
  ultimately show ?thesis using rate_admits_NaN by (simp add: parse_float_NaN)
qed

lemmas setting_values = parsed_value_def parsed_problems_def port_value_def port_problems_def rate_value_def
  rate_problems_def required_problems_def text_value_def

text \<open>A stand-in for \<open>url.Parse\<close> on plain \<open>http\<close> addresses, for the closed examples.\<close>

definition example_net :: net where
  "example_net =
     \<lparr>net_Parse = (\<lambda>raw. if take 7 raw = ''http://''
        then Some \<lparr>url_Scheme = ''http'', url_Host = drop 7 raw, url_Hostname = fst (cut CHR '':'' (drop 7 raw))\<rparr>
        else None),
      net_loopback = (\<lambda>host. host = ''127.0.0.1'')\<rparr>"

definition example_keys :: "(string \<times> string) list" where
  "example_keys = [(''CQAPI_API_KEY'', ''local-api-key''), (''BFF_MIDDLEWARE_SIGNING_KEY'', replicate 32 CHR ''k'')]"

lemma example_loads:
  "\<exists>cfg. Load_middleware example_net (EnvProvider (map_of example_keys)) = Inr cfg \<and> Window (cfg_Breaker cfg) = 20
     \<and> RequestBudget cfg = 6 * second \<and> OTLPEndpoint cfg = [] \<and> StaffFile cfg = ''config/staff.csv''"
  "\<exists>bff. Load_bff example_net (EnvProvider (map_of example_keys)) = Inr bff \<and> RequestTimeout bff = 8 * second
     \<and> bc_OTLPEndpoint bff = [] \<and> bc_StaffFile bff = ''config/staff.csv'' \<and> CredentialsFile bff = ''config/credentials.csv''"
proof -
  let ?s = "EnvProvider (map_of example_keys)"
  have unset: "k \<notin> {''CQAPI_API_KEY'', ''BFF_MIDDLEWARE_SIGNING_KEY''} \<Longrightarrow> ?s k = None" for k
    by (simp add: EnvProvider_def example_keys_def)
  have set: "?s ''CQAPI_API_KEY'' = Some ''local-api-key''"
    "?s ''BFF_MIDDLEWARE_SIGNING_KEY'' = Some (replicate 32 CHR ''k'')"
    by (simp_all add: EnvProvider_def example_keys_def)
  have t: "checkVendorTransport example_net ''http://cqapi-mock:8083'' = None"
    "checkMiddlewareTransport example_net ''http://cqapp-middleware:8082'' = None"
    by (simp_all add: checkVendorTransport_def checkMiddlewareTransport_def check_transport_def example_net_def
        isLocal_def)
  have "middleware_problems ?s = []" "bff_problems ?s = []"
    by (simp_all add: middleware_problems_def bff_problems_def setting_values unset set port_ok_def rate_ok_def Let_def)
  then show "\<exists>cfg. Load_middleware example_net ?s = Inr cfg \<and> Window (cfg_Breaker cfg) = 20
      \<and> RequestBudget cfg = 6 * second \<and> OTLPEndpoint cfg = [] \<and> StaffFile cfg = ''config/staff.csv''"
    "\<exists>bff. Load_bff example_net ?s = Inr bff \<and> RequestTimeout bff = 8 * second
     \<and> bc_OTLPEndpoint bff = [] \<and> bc_StaffFile bff = ''config/staff.csv'' \<and> CredentialsFile bff = ''config/credentials.csv''"
    by (simp_all add: Load_middleware_eq Load_bff_eq middleware_settings_values bff_settings_values setting_values unset set t Let_def)
qed

theorem loaded_configuration_witness:
  "\<exists>cfg bff. Load_middleware example_net (EnvProvider (map_of example_keys)) = Inr cfg
     \<and> Load_bff example_net (EnvProvider (map_of example_keys)) = Inr bff
     \<and> bc_SigningKey bff = SigningKey cfg \<and> MinSamples (cfg_Breaker cfg) \<le> Window (cfg_Breaker cfg)"
  using example_loads loaded_configuration [of example_net "map_of example_keys"] by metis

definition negative_window_keys :: "(string \<times> string) list" where
  "negative_window_keys =
     [(''MIDDLEWARE_BREAKER_WINDOW'', ''-1''), (''MIDDLEWARE_BREAKER_MIN_SAMPLES'', ''-1''),
      (''CQAPI_API_KEY'', ''local-api-key''), (''BFF_MIDDLEWARE_SIGNING_KEY'', replicate 32 CHR ''k'')]"

text \<open>
  A breaker window below zero is not refused at startup (the samples only have to be fewer), and then
  recording the first outcome of a closed circuit slices out of range, which panics: every request that
  reaches the vendor fails.
\<close>

theorem negative_window_starts_and_panics:
  "\<exists>cfg. Load_middleware example_net (EnvProvider (map_of negative_window_keys)) = Inr cfg
    \<and> (\<forall>now. snd (record_outcome (cfg_Breaker cfg) None now NewBreaker))"
proof -
  let ?s = "EnvProvider (map_of negative_window_keys)"
  have unset: "k \<notin> {''CQAPI_API_KEY'', ''BFF_MIDDLEWARE_SIGNING_KEY'', ''MIDDLEWARE_BREAKER_WINDOW'',
      ''MIDDLEWARE_BREAKER_MIN_SAMPLES''} \<Longrightarrow> ?s k = None" for k
    by (simp add: EnvProvider_def negative_window_keys_def)
  have set: "?s ''CQAPI_API_KEY'' = Some ''local-api-key''"
    "?s ''BFF_MIDDLEWARE_SIGNING_KEY'' = Some (replicate 32 CHR ''k'')"
    "?s ''MIDDLEWARE_BREAKER_WINDOW'' = Some ''-1''" "?s ''MIDDLEWARE_BREAKER_MIN_SAMPLES'' = Some ''-1''"
    by (simp_all add: EnvProvider_def negative_window_keys_def)
  have t: "checkVendorTransport example_net ''http://cqapi-mock:8083'' = None"
    by (simp add: checkVendorTransport_def check_transport_def example_net_def isLocal_def)
  have n: "parse_int ''-1'' = Some (-1)" by code_simp
  have "middleware_problems ?s = []"
    by (simp add: middleware_problems_def setting_values unset set n port_ok_def rate_ok_def Let_def)
  then show ?thesis
    by (simp add: Load_middleware_eq middleware_settings_values setting_values unset set t n Let_def
        record_outcome_def NewBreaker_def slide_def)
qed

text \<open>
  What a mask gives away. Two secrets show the same mask exactly if both are shorter than 8 bytes, or
  both are not and their last four bytes agree: nothing else of a secret, its length included, can be read
  off its formatted value.
\<close>

theorem Mask_reveals:
  "secret_String (Secret s) = secret_String (Secret t) \<longleftrightarrow>
     length s < 8 \<and> length t < 8
     \<or> 8 \<le> length s \<and> 8 \<le> length t \<and> drop (length s - 4) s = drop (length t - 4) t"
proof -
  have four: "length (drop (length u - 4) u) = 4" if "8 \<le> length u" for u :: string using that by simp
  show ?thesis
    using four [of s] four [of t] by (auto simp: secret_String_def Mask_def not_less split: if_splits)
qed

text \<open>
  Durations. A number with a unit is read as that many units, exactly, whenever the result fits in
  64 bits, and refused otherwise; whatever text is read, the result is an \<open>int64\<close>.
\<close>

theorem durations_read:
  assumes "digits_only ds" "ds \<noteq> []" "(u, unit) \<in> set duration_units" "src key = Some (ds @ u)"
  shows "run_state (loader_Duration src key def) [] =
    (if digits_value ds * unit < 2 ^ 63 then (int (digits_value ds * unit), [])
     else (def, [(key, NotADuration (ds @ u))]))
    \<and> (\<forall>text d. parse_duration text = Some d \<longrightarrow> is_int64 d)"
  using parse_duration_whole [OF assms(1-3)] assms(4) parse_duration_is_int64
  by (auto simp: run_getters parsed_value_def parsed_problems_def)

theorem durations_read_witness:
  "run_state (loader_Duration (MapProvider [(''SESSION_TTL'', ''30m'')]) ''SESSION_TTL'' 0) [] = (1800 * second, [])
   \<and> run_state (loader_Duration (MapProvider [(''SESSION_TTL'', ''2562048h'')]) ''SESSION_TTL'' 7) []
     = (7, [(''SESSION_TTL'', NotADuration ''2562048h'')])"
proof -
  have d: "digits_only ''30''" "digits_only ''2562048''" "digits_value ''30'' = 30" "digits_value ''2562048'' = 2562048"
    by code_simp+
  have "(''m'', 60000000000) \<in> set duration_units" "(''h'', 3600000000000) \<in> set duration_units"
    by (simp_all add: duration_units_def)
  then show ?thesis
    using durations_read [OF d(1), of "''m''" 60000000000 "MapProvider [(''SESSION_TTL'', ''30m'')]" "''SESSION_TTL''" 0]
      durations_read [OF d(2), of "''h''" 3600000000000 "MapProvider [(''SESSION_TTL'', ''2562048h'')]" "''SESSION_TTL''" 7]
    by (simp add: MapProvider_def d)
qed

end
