(* ===== verification/Bff.thy ===== *)
theory Bff
  imports Signin Envelope Authtoken Startup
begin

text \<open>
  \<open>internal/cqappbff\<close>: the words a person reads (\<open>messages.go\<close>), the client of the Middleware with the
  rewriting of its errors (\<open>quotes.go\<close>), and the browser facing handlers and router (\<open>router.go\<close>). The
  state is the clock and the wire, the session store and how many random ids were drawn.
\<close>

section \<open>Wording\<close>

definition userMessages :: "(string \<times> string) list" where
  "userMessages =
     [(CodeValidationFailed, ''Check the highlighted fields.''),
      (CodeUnauthenticated, ''Your session has expired. Sign in again.''),
      (CodeForbidden, ''You do not have access to generate quotes.''),
      (CodeUpstreamUnavailable, ''Quotes are unavailable right now. Try again shortly.''),
      (CodeUpstreamContract, ''Quotes are unavailable right now. Try again shortly.''),
      (CodeUpstreamTimeout, ''The quote service took too long. Try again.''),
      (CodeCircuitOpen, ''Quotes are paused briefly. Try again in a moment.''),
      (CodeInternal, ''Something went wrong. Try again.'')]"

definition userMessage :: "string \<Rightarrow> string" where
  "userMessage code =
     (case map_of userMessages code of
        Some m \<Rightarrow> m
      | None \<Rightarrow> (case map_of userMessages CodeInternal of Some m \<Rightarrow> m | None \<Rightarrow> []))"

section \<open>The client of the Middleware\<close>

definition maxBody :: nat where "maxBody = 65536"

record MiddlewareClient =
  mc_baseURL :: string
  mc_signingKey :: string
  mc_tokenTTL :: duration
  mc_timeout :: duration

definition NewMiddlewareClient :: "string \<Rightarrow> string \<Rightarrow> duration \<Rightarrow> duration \<Rightarrow> MiddlewareClient" where
  "NewMiddlewareClient base key ttl timeout =
     \<lparr>mc_baseURL = base, mc_signingKey = key, mc_tokenTTL = ttl, mc_timeout = timeout\<rparr>"

text \<open>\<open>fail\<close>: marshalling strings cannot fail, so its last branch is not reached.\<close>

definition fail_response :: "ctx \<Rightarrow> httpx_error \<Rightarrow> int \<times> string" where
  "fail_response c e = (Status e, encode_envelope (Code e) (userMessage (Code e)) [] (ctx_correlation c))"

definition rewrite :: "ctx \<Rightarrow> int \<Rightarrow> string \<Rightarrow> int \<times> string" where
  "rewrite c status raw =
     (case decode_envelope raw of
        None \<Rightarrow> fail_response c (UpstreamContract (Some (PlainError ''middleware returned an unrecognised body'')))
      | Some env \<Rightarrow>
          if en_Code env = []
          then fail_response c (UpstreamContract (Some (PlainError ''middleware returned an unrecognised body'')))
          else if status = 401
          then fail_response c (UpstreamUnavailable (Some (PlainError ''middleware rejected our bearer token'')))
          else (status, encode_envelope (en_Code env) (userMessage (en_Code env)) (en_Details env)
                  (en_CorrelationID env)))"

definition middleware_headers :: "string \<Rightarrow> ctx \<Rightarrow> (string \<times> string) list" where
  "middleware_headers token c =
     [(''Content-Type'', ''application/json''), (''Authorization'', ''Bearer '' @ token)]
     @ (if ctx_correlation c \<noteq> [] then [(CorrelationHeader, ctx_correlation c)] else [])"

text \<open>What becomes of the Middleware's answer.\<close>

definition relay :: "ctx \<Rightarrow> reply \<Rightarrow> int \<times> string" where
  "relay c rp =
     (case rp of
        NoResponse err \<Rightarrow>
          if errors_is DeadlineExceeded err then fail_response c (UpstreamTimeout (Some err))
          else fail_response c (UpstreamUnavailable (Some err))
      | Response resp \<Rightarrow>
          (case ws_body resp of
             Inl err \<Rightarrow> fail_response c (UpstreamContract (Some (WrapError ''read middleware response: %w'' [err])))
           | Inr body \<Rightarrow>
               if ws_status resp = 200 then (200, take maxBody body)
               else rewrite c (ws_status resp) (take maxBody body)))"

text \<open>\<open>Quote\<close>: the random bytes of the token id are an argument.\<close>

definition MiddlewareClient_Quote ::
  "env \<Rightarrow> jwt \<Rightarrow> string option \<Rightarrow> MiddlewareClient \<Rightarrow> ctx \<Rightarrow> string \<Rightarrow> string \<Rightarrow> world \<Rightarrow> (int \<times> string) \<times> world" where
  "MiddlewareClient_Quote e j random cl c staffID body w =
     (case Mint j random (w_clock w) (mc_signingKey cl) staffID [ScopeQuoteGenerate] (mc_tokenTTL cl) of
        Inl err \<Rightarrow> (fail_response c (Internal (Some (WrapError ''mint token: %w'' [err]))), w)
      | Inr token \<Rightarrow>
          (case env_join_path e (mc_baseURL cl) ''/v1/quotes'' of
             None \<Rightarrow> (fail_response c (Internal (Some (PlainError ''build middleware url''))), w)
           | Some endpoint \<Rightarrow>
               if \<not> env_request_ok e endpoint
               then (fail_response c (Internal (Some (PlainError ''build middleware request''))), w)
               else (case http_do e (mc_timeout cl) c
                   \<lparr>wr_url = endpoint, wr_headers = middleware_headers token c, wr_body = body\<rparr> w of
                 (rp, w') \<Rightarrow> (relay c rp, w'))))"

section \<open>The handlers\<close>

record bff =
  bf_world :: world
  bf_sessions :: SessionStore
  bf_draws :: nat

definition bff_clock :: "bff \<Rightarrow> instant" where
  "bff_clock s = w_clock (bf_world s)"

text \<open>Waiting for the body of a request.\<close>

definition bff_receive :: "request \<Rightarrow> bff \<Rightarrow> bff" where
  "bff_receive r s = s\<lparr>bf_world := (bf_world s)\<lparr>w_clock := bff_clock s + int (rq_body_time r)\<rparr>\<rparr>"

text \<open>The pieces of a \<open>Handler\<close>; \<open>hd_random k\<close> are the bytes of the \<open>k\<close>-th draw.\<close>

record Handler =
  hd_auth :: "string \<Rightarrow> string \<Rightarrow> go_error + Staff"
  hd_quotes :: "string option \<Rightarrow> ctx \<Rightarrow> string \<Rightarrow> string \<Rightarrow> world \<Rightarrow> (int \<times> string) \<times> world"
  hd_cookie :: CookieOptions
  hd_random :: "nat \<Rightarrow> string option"

definition signin_fields :: "string list" where "signin_fields = [''staffId'', ''password'']"

text \<open>\<open>Decoder.Decode\<close> into \<open>signInRequest\<close>; unknown keys and whatever follows are ignored.\<close>

definition decode_signIn :: "string \<Rightarrow> (string \<times> string) option" where
  "decode_signIn body =
     (case decode_stream (take maxBody body) of
        None \<Rightarrow> None
      | Some (JOther _, _) \<Rightarrow> None
      | Some (JNull, _) \<Rightarrow> Some ([], [])
      | Some (JObject ms, _) \<Rightarrow>
          (case (string_field signin_fields ''staffId'' ms, string_field signin_fields ''password'' ms) of
             (Some i, Some p) \<Rightarrow> Some (i, p)
           | _ \<Rightarrow> None))"

definition staff_response :: "Staff \<Rightarrow> response" where
  "staff_response s = WriteJSON 200 (json_object [(''staffId'', json_string (ID s)), (''name'', json_string (Name s))])"

definition refuse :: "ctx \<Rightarrow> bff \<Rightarrow> response option \<times> bff" where
  "refuse c s =
     respond (WriteError (ctx_correlation c) (HttpxError (with_Message ''That staff ID or password is not correct.''
       (Unauthenticated (Some (PlainError ''invalid credentials'')))))) s"

definition SignIn :: "Handler \<Rightarrow> bff handler" where
  "SignIn h c r s0 =
     (let s = bff_receive r s0 in
      case decode_signIn (rq_body r) of
        None \<Rightarrow> refuse c s
      | Some (staffID, password) \<Rightarrow>
          (case hd_auth h staffID password of
             Inl err \<Rightarrow> refuse c s
           | Inr staff \<Rightarrow>
               (let s1 = s\<lparr>bf_draws := Suc (bf_draws s)\<rparr> in
                case Create (hd_random h (bf_draws s)) (bff_clock s) staff (bf_sessions s) of
                  (Inl err, st) \<Rightarrow>
                    respond (WriteError (ctx_correlation c) (HttpxError (Internal (Some err)))) (s1\<lparr>bf_sessions := st\<rparr>)
                | (Inr sess, st) \<Rightarrow>
                    respond (set_cookie (session_cookie (sess_ID sess) (hd_cookie h)) (staff_response staff))
                      (s1\<lparr>bf_sessions := st\<rparr>))))"

definition unauthenticated :: "ctx \<Rightarrow> bff \<Rightarrow> response option \<times> bff" where
  "unauthenticated c s =
     respond (WriteError (ctx_correlation c) (HttpxError (with_Message (userMessage CodeUnauthenticated)
       (Unauthenticated (Some (PlainError ''no valid session'')))))) s"

text \<open>\<open>r.Cookie\<close>: the first cookie of the name; an empty one is no session.\<close>

definition cookie_value :: "request \<Rightarrow> string" where
  "cookie_value r = (case map_of (rq_cookies r) SessionCookie of None \<Rightarrow> [] | Some v \<Rightarrow> v)"

definition current_session :: "request \<Rightarrow> bff \<Rightarrow> Session option \<times> bff" where
  "current_session r s =
     (if cookie_value r = [] then (None, s)
      else (case Get (bff_clock s) (cookie_value r) (bf_sessions s) of
          (out, st) \<Rightarrow> (out, s\<lparr>bf_sessions := st\<rparr>)))"

definition CurrentSession :: "bff handler" where
  "CurrentSession c r s =
     (case current_session r s of
        (None, s1) \<Rightarrow> unauthenticated c s1
      | (Some sess, s1) \<Rightarrow> respond (staff_response (sess_Staff sess)) s1)"

definition SignOut :: "Handler \<Rightarrow> bff handler" where
  "SignOut h c r s =
     (case current_session r s of
        (out, s1) \<Rightarrow>
          respond (set_cookie (clear_cookie (hd_cookie h)) \<lparr>resp_status = 204, resp_headers = [], resp_body = []\<rparr>)
            (case out of
               None \<Rightarrow> s1
             | Some sess \<Rightarrow> s1\<lparr>bf_sessions := Delete (sess_ID sess) (bf_sessions s1)\<rparr>))"

definition Bff_Quote :: "Handler \<Rightarrow> bff handler" where
  "Bff_Quote h c r s =
     (case current_session r s of
        (None, s1) \<Rightarrow> unauthenticated c s1
      | (Some sess, s1) \<Rightarrow>
          (let s2 = bff_receive r s1 in
           case read_body maxBody r of
             Inl err \<Rightarrow> respond (WriteError (ctx_correlation c) (HttpxError (Malformed (Some err)))) s2
           | Inr body \<Rightarrow>
               (case hd_quotes h (hd_random h (bf_draws s2)) c (ID (sess_Staff sess)) body (bf_world s2) of
                  ((status, out), w) \<Rightarrow>
                    respond \<lparr>resp_status = status, resp_headers = [json_content_type], resp_body = out\<rparr>
                      (s2\<lparr>bf_world := w, bf_draws := Suc (bf_draws s2)\<rparr>))))"

section \<open>The router\<close>

definition bff_handler :: "env \<Rightarrow> jwt \<Rightarrow> (nat \<Rightarrow> string option) \<Rightarrow> bff_Config \<Rightarrow> bcrypt \<Rightarrow> FixtureAuth \<Rightarrow> Handler" where
  "bff_handler e j random cfg bc a =
     \<lparr>hd_auth = (\<lambda>sid password. fst (Authenticate_staff bc a sid password)),
      hd_quotes = (\<lambda>random. MiddlewareClient_Quote e j random
        (NewMiddlewareClient (MiddlewareBaseURL cfg) (bc_SigningKey cfg) (TokenTTL cfg) (RequestTimeout cfg))),
      hd_cookie = \<lparr>co_Secure = CookieSecure cfg, co_TTL = SessionTTL cfg\<rparr>, hd_random = random\<rparr>"

definition bff_mux :: "Handler \<Rightarrow> bff handler" where
  "bff_mux h =
     Mux [\<lparr>rt_method = ''GET'', rt_path = ''/healthz'', rt_handler = Health\<rparr>,
          \<lparr>rt_method = ''POST'', rt_path = ''/api/session'', rt_handler = SignIn h\<rparr>,
          \<lparr>rt_method = ''GET'', rt_path = ''/api/session'', rt_handler = CurrentSession\<rparr>,
          \<lparr>rt_method = ''DELETE'', rt_path = ''/api/session'', rt_handler = SignOut h\<rparr>,
          \<lparr>rt_method = ''POST'', rt_path = ''/api/v1/quotes'', rt_handler = Bff_Quote h\<rparr>]"

definition Bff_NewRouter :: "draws \<Rightarrow> bff_Config \<Rightarrow> Handler \<Rightarrow> bff handler" where
  "Bff_NewRouter d cfg h =
     Chain (bff_mux h) [Correlation d, Recoverer, Timeout bff_clock (RequestTimeout cfg)]"

section \<open>Lemmas\<close>

lemma bff_receive_simps [simp]:
  "bf_sessions (bff_receive r s) = bf_sessions s" "bf_draws (bff_receive r s) = bf_draws s"
  "w_sent (bf_world (bff_receive r s)) = w_sent (bf_world s)"
  "bff_clock (bff_receive r s) = bff_clock s + int (rq_body_time r)"
  by (simp_all add: bff_receive_def bff_clock_def)

lemma bff_receive_at_once: "rq_body_time r = 0 \<Longrightarrow> bff_receive r s = s"
  by (simp add: bff_receive_def bff_clock_def)

definition refusal_response :: "ctx \<Rightarrow> response" where
  "refusal_response c =
     WriteJSON 401 (encode_envelope CodeUnauthenticated ''That staff ID or password is not correct.'' [] (ctx_correlation c))"

lemma refuse_eq: "refuse c s = (Some (refusal_response c), s)"
  by (simp add: refuse_def respond_def WriteError_def WriteJSON_def refusal_response_def Unauthenticated_def)

lemma unauthenticated_eq:
  "unauthenticated c s = (Some (WriteJSON 401 (encode_envelope CodeUnauthenticated (userMessage CodeUnauthenticated) []
     (ctx_correlation c))), s)"
  by (simp add: unauthenticated_def respond_def WriteError_def WriteJSON_def Unauthenticated_def)

text \<open>Whom the body of a sign in signs in.\<close>

definition signed_in_as :: "Handler \<Rightarrow> request \<Rightarrow> Staff option" where
  "signed_in_as h r =
     (case decode_signIn (rq_body r) of
        None \<Rightarrow> None
      | Some (staffID, password) \<Rightarrow> (case hd_auth h staffID password of Inl _ \<Rightarrow> None | Inr staff \<Rightarrow> Some staff))"

definition with_cookie :: "string \<Rightarrow> request \<Rightarrow> request" where
  "with_cookie v r = r\<lparr>rq_cookies := [(SessionCookie, v)]\<rparr>"

lemma cookie_value_with [simp]: "cookie_value (with_cookie v r) = v"
  by (simp add: cookie_value_def with_cookie_def)

lemma base64_url_nonempty: "bs \<noteq> [] \<Longrightarrow> base64_url bs \<noteq> []"
  by (cases bs rule: base64_url.cases) simp_all

text \<open>Every handler changes the store by store operations only, and signs in only under the id just drawn.\<close>

definition drawn_ops :: "Handler \<Rightarrow> nat \<Rightarrow> Staff store_op list \<Rightarrow> bool" where
  "drawn_ops h n ops \<longleftrightarrow> (\<forall>k. list_ex (sessions.puts k) ops \<longrightarrow> newSessionID (hd_random h n) = Inr k)"

lemma current_session_ops:
  "\<exists>ops. bf_sessions (snd (current_session r s)) = fold sessions.apply_op ops (bf_sessions s)
    \<and> (\<forall>k. \<not> list_ex (sessions.puts k) ops)
    \<and> bf_world (snd (current_session r s)) = bf_world s \<and> bf_draws (snd (current_session r s)) = bf_draws s"
proof (cases "cookie_value r = []")
  case True
  then show ?thesis by (intro exI [of _ "[]"]) (simp add: current_session_def)
next
  case False
  then show ?thesis
    by (intro exI [of _ "[OpGet (bff_clock s) (cookie_value r)]"])
       (simp add: current_session_def sessions.puts_def split: prod.split)
qed

lemma SignIn_ops:
  "\<exists>ops. bf_sessions (snd (SignIn h c r s)) = fold sessions.apply_op ops (bf_sessions s)
    \<and> drawn_ops h (bf_draws s) ops \<and> bf_draws s \<le> bf_draws (snd (SignIn h c r s))"
proof (cases "signed_in_as h r")
  case None
  then have "SignIn h c r s = refuse c (bff_receive r s)"
    by (auto simp: SignIn_def signed_in_as_def split: option.splits sum.splits)
  then show ?thesis by (intro exI [of _ "[]"]) (simp add: refuse_eq drawn_ops_def)
next
  case (Some staff)
  show ?thesis
  proof (cases "newSessionID (hd_random h (bf_draws s))")
    case (Inl err)
    then show ?thesis
      using Some by (intro exI [of _ "[]"])
        (auto simp: SignIn_def signed_in_as_def Create_def drawn_ops_def respond_def Let_def
          split: option.splits sum.splits)
  next
    case (Inr k)
    then show ?thesis
      using Some by (intro exI [of _ "[OpPut (bff_clock (bff_receive r s)) k staff]"])
        (auto simp: SignIn_def signed_in_as_def Create_def drawn_ops_def sessions.puts_def respond_def Let_def
          split: option.splits sum.splits)
  qed
qed

lemma SignOut_ops:
  "\<exists>ops. bf_sessions (snd (SignOut h c r s)) = fold sessions.apply_op ops (bf_sessions s)
    \<and> (\<forall>k. \<not> list_ex (sessions.puts k) ops) \<and> bf_draws (snd (SignOut h c r s)) = bf_draws s"
proof -
  obtain ops where ops: "bf_sessions (snd (current_session r s)) = fold sessions.apply_op ops (bf_sessions s)"
    "\<forall>k. \<not> list_ex (sessions.puts k) ops" "bf_draws (snd (current_session r s)) = bf_draws s"
    using current_session_ops by blast
  obtain out s1 where cs: "current_session r s = (out, s1)" by fastforce
  show ?thesis
  proof (cases out)
    case None
    then show ?thesis using ops cs by (intro exI [of _ ops]) (simp add: SignOut_def respond_def)
  next
    case (Some sess)
    then show ?thesis
      using ops cs by (intro exI [of _ "ops @ [OpRemove (sess_ID sess)]"])
        (simp add: SignOut_def respond_def sessions.puts_def)
  qed
qed

lemma Bff_Quote_state:
  "bf_sessions (snd (Bff_Quote h c r s)) = bf_sessions (snd (current_session r s))"
  "bf_draws s \<le> bf_draws (snd (Bff_Quote h c r s))"
proof -
  obtain out s1 where cs: "current_session r s = (out, s1)" by fastforce
  have draws: "bf_draws s1 = bf_draws s" using current_session_ops [of r s] cs by auto
  have "bf_sessions (snd (Bff_Quote h c r s)) = bf_sessions s1 \<and> bf_draws s \<le> bf_draws (snd (Bff_Quote h c r s))"
  proof (cases out)
    case None
    then show ?thesis using draws by (simp add: Bff_Quote_def cs unauthenticated_eq)
  next
    case (Some sess)
    show ?thesis
    proof (cases "read_body maxBody r")
      case (Inl err)
      then show ?thesis using draws by (simp add: Bff_Quote_def cs Some respond_def)
    next
      case (Inr body)
      obtain status answer w where "hd_quotes h (hd_random h (bf_draws s1)) c (ID (sess_Staff sess)) body
          (bf_world (bff_receive r s1)) = ((status, answer), w)" by (metis prod.exhaust)
      then show ?thesis using draws by (simp add: Bff_Quote_def cs Some Inr respond_def)
    qed
  qed
  then show "bf_sessions (snd (Bff_Quote h c r s)) = bf_sessions (snd (current_session r s))"
    "bf_draws s \<le> bf_draws (snd (Bff_Quote h c r s))"
    by (simp_all add: cs)
qed

lemma CurrentSession_state: "snd (CurrentSession c r s) = snd (current_session r s)"
  by (auto simp: CurrentSession_def unauthenticated_eq respond_def split: prod.split option.split)

lemma mux_ops:
  "\<exists>ops. bf_sessions (snd (bff_mux h c r s)) = fold sessions.apply_op ops (bf_sessions s)
    \<and> drawn_ops h (bf_draws s) ops \<and> bf_draws s \<le> bf_draws (snd (bff_mux h c r s))"
proof -
  let ?P = "\<lambda>s1. \<exists>ops. bf_sessions s1 = fold sessions.apply_op ops (bf_sessions s) \<and> drawn_ops h (bf_draws s) ops
      \<and> bf_draws s \<le> bf_draws s1"
  have same: "?P s" by (intro exI [of _ "[]"]) (simp add: drawn_ops_def)
  have cur: "?P (snd (current_session r s))" using current_session_ops [where r = r and s = s] by (auto simp: drawn_ops_def)
  have quote: "?P (snd (Bff_Quote h c r s))"
    using current_session_ops [where r = r and s = s] Bff_Quote_state [where h = h and c = c and r = r and s = s] by (auto simp: drawn_ops_def)
  have out: "?P (snd (SignOut h c r s))" using SignOut_ops [where h = h and c = c and r = r and s = s] by (auto simp: drawn_ops_def)
  note all = same cur quote out SignIn_ops [where h = h and c = c and r = r and s = s]
  show ?thesis
    unfolding bff_mux_def Mux_def
    by (simp add: method_matches_def Health_def respond_def CurrentSession_state, intro conjI impI) (use all in auto)
qed

text \<open>Any number of requests, one after the other.\<close>

definition serve_all :: "Handler \<Rightarrow> (ctx \<times> request) list \<Rightarrow> bff \<Rightarrow> bff" where
  "serve_all h rs s = fold (\<lambda>(c, r) s. snd (bff_mux h c r s)) rs s"

lemma serve_all_gone:
  assumes "\<And>t. store_live (bf_sessions s) t k = None" "\<And>n. bf_draws s \<le> n \<Longrightarrow> newSessionID (hd_random h n) \<noteq> Inr k"
  shows "store_live (bf_sessions (serve_all h rs s)) t k = None"
  using assms
proof (induction rs arbitrary: s)
  case Nil
  then show ?case by (simp add: serve_all_def)
next
  case (Cons cr rs)
  obtain c r where cr: "cr = (c, r)" by fastforce
  let ?s1 = "snd (bff_mux h c r s)"
  obtain ops where ops: "bf_sessions ?s1 = fold sessions.apply_op ops (bf_sessions s)" "drawn_ops h (bf_draws s) ops"
    "bf_draws s \<le> bf_draws ?s1" using mux_ops by blast
  have "list_all (\<lambda>op. \<not> sessions.puts k op) ops"
    using ops(2) Cons.prems(2) [of "bf_draws s"] by (auto simp: drawn_ops_def list_all_iff list_ex_iff)
  then have "store_live (bf_sessions ?s1) t' k = None" for t'
    unfolding ops(1) using Cons.prems(1) by (rule sessions.gone_stays_gone [rotated])
  then have "store_live (bf_sessions (serve_all h rs ?s1)) t k = None"
    using Cons.IH [of ?s1] Cons.prems(2) ops(3) by simp
  then show ?case by (simp add: serve_all_def cr)
qed

lemma current_session_live:
  "fst (current_session r s) =
     (if cookie_value r = [] then None else store_live (bf_sessions s) (bff_clock s) (cookie_value r))"
  using sessions.get_live [of "bff_clock s" "cookie_value r" "bf_sessions s"]
  by (auto simp: current_session_def split: prod.split)

section \<open>Properties\<close>

text \<open>
  C13: what a sign in answers. Every failure, whether the body cannot be decoded, the id is unknown or the
  password is wrong, is one and the same response, with no cookie, and leaves the service as it was but for
  the time the body took to arrive. A
  success answers 200 with a cookie whose value, presented back, is a session of exactly that staff
  member; without randomness it is 500 and no session.
\<close>

theorem sign_in_outcomes:
  assumes "0 < st_ttl (bf_sessions s)"
  shows "case signed_in_as h r of
      None \<Rightarrow> SignIn h c r s = (Some (refusal_response c), bff_receive r s)
    | Some staff \<Rightarrow>
        (case hd_random h (bf_draws s) of
           None \<Rightarrow> \<exists>resp s'. SignIn h c r s = (Some resp, s') \<and> resp_status resp = 500 \<and> bf_sessions s' = bf_sessions s
         | Some bs \<Rightarrow> \<exists>resp s' sess. SignIn h c r s = (Some resp, s') \<and> resp_status resp = 200
             \<and> (''Set-Cookie'', cookie_text (session_cookie (base64_url bs) (hd_cookie h))) \<in> set (resp_headers resp)
             \<and> sess_Staff sess = staff
             \<and> (bs \<noteq> [] \<longrightarrow> fst (current_session (with_cookie (base64_url bs) r) s') = Some sess))"
proof (cases "signed_in_as h r")
  case None
  then have "SignIn h c r s = refuse c (bff_receive r s)"
    by (auto simp: SignIn_def signed_in_as_def split: option.splits sum.splits)
  then show ?thesis using None by (simp add: refuse_eq)
next
  case (Some staff)
  let ?now = "bff_clock (bff_receive r s)" and ?s1 = "(bff_receive r s)\<lparr>bf_draws := Suc (bf_draws s)\<rparr>"
  have eq: "SignIn h c r s = (case Create (hd_random h (bf_draws s)) ?now staff (bf_sessions s) of
      (Inl err, st) \<Rightarrow> respond (WriteError (ctx_correlation c) (HttpxError (Internal (Some err)))) (?s1\<lparr>bf_sessions := st\<rparr>)
    | (Inr sess, st) \<Rightarrow> respond (set_cookie (session_cookie (sess_ID sess) (hd_cookie h)) (staff_response staff))
        (?s1\<lparr>bf_sessions := st\<rparr>))"
    using Some by (auto simp: SignIn_def signed_in_as_def Let_def split: option.splits sum.splits)
  show ?thesis
  proof (cases "hd_random h (bf_draws s)")
    case None
    then show ?thesis
      using Some by (simp add: eq Create_def newSessionID_def respond_def WriteError_def WriteJSON_def Internal_def)
  next
    case rand: (Some bs)
    let ?sess = "\<lparr>sess_ID = base64_url bs, sess_Staff = staff, ExpiresAt = ?now + st_ttl (bf_sessions s)\<rparr>"
    let ?s2 = "?s1\<lparr>bf_sessions := store_put ?now (base64_url bs) staff (bf_sessions s)\<rparr>"
    have "fst (current_session (with_cookie (base64_url bs) r) ?s2) = Some ?sess" if "bs \<noteq> []"
      using assms base64_url_nonempty [OF that]
      by (simp add: current_session_live store_live_def store_put_def bff_clock_def bff_receive_def)
    then show ?thesis
      using Some rand
      by (simp add: eq Create_def newSessionID_def respond_def set_cookie_def staff_response_def WriteJSON_def)
         (metis Session.select_convs(2))
  qed
qed

definition example_handler :: Handler where
  "example_handler =
     \<lparr>hd_auth = (\<lambda>sid password. fst (Authenticate_staff example_bcrypt
        \<lparr>fa_staff = example_directory, fa_hash = [(''s-1'', ''$2a$secret'')]\<rparr> sid password)),
      hd_quotes = (\<lambda>random c sid body w. ((200, ''{}''), w)),
      hd_cookie = \<lparr>co_Secure = True, co_TTL = 1800 * second\<rparr>, hd_random = (\<lambda>k. Some (replicate 32 CHR ''A''))\<rparr>"

definition example_bff :: bff where
  "example_bff = \<lparr>bf_world = start_world, bf_sessions = NewSessionStore (1800 * second), bf_draws = 0\<rparr>"

definition sign_in_request :: "string \<Rightarrow> request" where
  "sign_in_request body =
     \<lparr>rq_method = ''POST'', rq_path = ''/api/session'', rq_headers = [], rq_cookies = [], rq_body = quoted body,
      rq_body_err = None, rq_body_time = 0\<rparr>"

theorem sign_in_outcomes_witness:
  "(\<exists>resp s'. SignIn example_handler background (sign_in_request ''{`staffId`:`s-1`,`password`:`secret`}'') example_bff
      = (Some resp, s') \<and> resp_status resp = 200)
   \<and> SignIn example_handler background (sign_in_request ''{`staffId`:`s-2`,`password`:`secret`}'') example_bff
      = (Some (refusal_response background), example_bff)"
proof -
  have ttl: "0 < st_ttl (bf_sessions example_bff)" by (simp add: example_bff_def NewSessionStore_def)
  have "signed_in_as example_handler (sign_in_request ''{`staffId`:`s-1`,`password`:`secret`}'') = Some example_staff_member"
    "signed_in_as example_handler (sign_in_request ''{`staffId`:`s-2`,`password`:`secret`}'') = None"
    by code_simp+
  moreover have "hd_random example_handler (bf_draws example_bff) = Some (replicate 32 CHR ''A'')"
    by (simp add: example_handler_def)
  ultimately show ?thesis
    using sign_in_outcomes [OF ttl, where h = example_handler and c = background
          and r = "sign_in_request ''{`staffId`:`s-1`,`password`:`secret`}''"]
      sign_in_outcomes [OF ttl, where h = example_handler and c = background
          and r = "sign_in_request ''{`staffId`:`s-2`,`password`:`secret`}''"]
      bff_receive_at_once [of "sign_in_request ''{`staffId`:`s-2`,`password`:`secret`}''" example_bff]
    by (auto simp: sign_in_request_def)
qed

text \<open>
  C12: signing out is final. Once a cookie has been signed out, and as long as the random source does not
  draw the same 256 bits again, no later sequence of requests of any users brings the session back:
  presenting a copy of the cookie is answered 401, and nothing is sent to the Middleware for it.
\<close>

theorem signed_out_stays_out:
  assumes "store_ok (bf_sessions s)" "cookie_value r \<noteq> []" "cookie_value r' = cookie_value r"
    and "\<And>n. bf_draws s \<le> n \<Longrightarrow> newSessionID (hd_random h n) \<noteq> Inr (cookie_value r)"
    and s': "s' = serve_all h later (snd (SignOut h c r s))"
  shows "(\<exists>resp s2. CurrentSession c' r' s' = (Some resp, s2) \<and> resp_status resp = 401)
    \<and> (\<exists>resp s2. Bff_Quote h c' r' s' = (Some resp, s2) \<and> resp_status resp = 401 \<and> bf_world s2 = bf_world s')"
proof -
  let ?s1 = "snd (SignOut h c r s)"
  have "bf_draws ?s1 = bf_draws s" using SignOut_ops by blast
  then have fresh: "bf_draws ?s1 \<le> n \<Longrightarrow> newSessionID (hd_random h n) \<noteq> Inr (cookie_value r)" for n
    using assms(4) by simp
  have gone: "st_byID (bf_sessions ?s1) (cookie_value r) = None"
  proof -
    obtain out st where g: "Get (bff_clock s) (cookie_value r) (bf_sessions s) = (out, st)" by fastforce
    then have cs: "current_session r s = (out, s\<lparr>bf_sessions := st\<rparr>)" using assms(2) by (simp add: current_session_def)
    have "\<And>sess. out = Some sess \<Longrightarrow> sess_ID sess = cookie_value r"
      using g assms(1) by (auto simp: Get_def store_ok_def split: option.splits if_splits)
    then show ?thesis
      using g cs by (cases out) (auto simp: SignOut_def respond_def Get_def Delete_def split: option.splits if_splits)
  qed
  then have "store_live (bf_sessions ?s1) t (cookie_value r) = None" for t by (simp add: store_live_def)
  then have "store_live (bf_sessions s') (bff_clock s') (cookie_value r) = None"
    unfolding s' using fresh by (rule serve_all_gone)
  then obtain s2 where s2: "current_session r' s' = (None, s2)"
    using current_session_live [of r' s'] assms(2,3) by (cases "current_session r' s'") auto
  moreover have "bf_world s2 = bf_world s'" using current_session_ops [where r = r' and s = s'] s2 by auto
  ultimately show ?thesis
    by (simp add: CurrentSession_def Bff_Quote_def unauthenticated_eq WriteJSON_def)
qed

definition example_signed_in :: bff where
  "example_signed_in = example_bff\<lparr>bf_sessions := store_put 0 ''session-1'' example_staff_member
     (NewSessionStore (1800 * second)), bf_draws := 1\<rparr>"

theorem signed_out_stays_out_witness:
  "\<exists>resp s2. CurrentSession background (with_cookie ''session-1'' bare_request)
     (serve_all (example_handler\<lparr>hd_random := (\<lambda>k. None)\<rparr>)
       [(background, sign_in_request ''{`staffId`:`s-1`,`password`:`secret`}'')]
       (snd (SignOut (example_handler\<lparr>hd_random := (\<lambda>k. None)\<rparr>) background
         (with_cookie ''session-1'' bare_request) example_signed_in)))
     = (Some resp, s2) \<and> resp_status resp = 401"
proof -
  let ?h = "example_handler\<lparr>hd_random := (\<lambda>k. None)\<rparr>"
  have "store_ok (bf_sessions example_signed_in)" by (simp add: example_signed_in_def)
  moreover have "newSessionID (hd_random ?h n) \<noteq> Inr (cookie_value (with_cookie ''session-1'' bare_request))" for n
    by (simp add: newSessionID_def)
  ultimately show ?thesis
    using signed_out_stays_out [where s = example_signed_in and h = ?h and c = background
        and r = "with_cookie ''session-1'' bare_request" and r' = "with_cookie ''session-1'' bare_request"]
    by simp
qed

text \<open>An error as a person sees it: never 401, and worded by the table of \<open>messages.go\<close>.\<close>

definition user_error :: "int \<times> string \<Rightarrow> bool" where
  "user_error out \<longleftrightarrow> fst out \<notin> {200, 401}
     \<and> (\<exists>code details cid. snd out = encode_envelope code (userMessage code) details cid
          \<and> userMessage code \<in> set (map snd userMessages))"

lemma userMessage_fixed: "userMessage code \<in> set (map snd userMessages)"
proof -
  have "map_of userMessages CodeInternal = Some ''Something went wrong. Try again.''"
    by (simp add: userMessages_def code_defs)
  then show ?thesis
    unfolding userMessage_def by (auto split: option.split dest!: map_of_SomeD intro: rev_image_eqI)
qed

lemma user_error_intro: "st \<notin> {200, 401} \<Longrightarrow> user_error (st, encode_envelope code (userMessage code) details cid)"
  using userMessage_fixed [of code] by (auto simp: user_error_def)

lemma fail_response_user: "Status e \<notin> {200, 401} \<Longrightarrow> user_error (fail_response c e)"
  unfolding fail_response_def by (rule user_error_intro)

lemma fail_response_classes:
  "user_error (fail_response c (UpstreamContract x))" "user_error (fail_response c (UpstreamUnavailable x))"
  "user_error (fail_response c (UpstreamTimeout x))" "user_error (fail_response c (Internal x))"
  by (rule fail_response_user; simp add: error_class_defs)+

lemma rewrite_user: "status \<noteq> 200 \<Longrightarrow> user_error (rewrite c status raw)"
  by (auto simp: rewrite_def fail_response_classes intro: user_error_intro split: option.split)

lemma relay_user:
  "user_error (relay c rp)
   \<or> (\<exists>resp raw. rp = Response resp \<and> ws_status resp = 200 \<and> ws_body resp = Inr raw \<and> relay c rp = (200, take maxBody raw))"
  by (cases rp) (auto simp: relay_def fail_response_classes rewrite_user split: sum.split)

text \<open>
  What the browser is told about a quote. Either the Middleware answered 200, and its bytes are passed
  on; or the status is neither 200 nor 401 and the body is the error envelope with the wording of its
  code, one of the fixed sentences: no text of a Middleware message and no cause of an error reaches the
  browser, and a token the Middleware rejects never looks like an expired session.
\<close>

theorem quote_words:
  "user_error (fst (MiddlewareClient_Quote e j random cl c staffID body w))
   \<or> (\<exists>rq resp raw. fst (http_do e (mc_timeout cl) c rq w) = Response resp \<and> ws_status resp = 200
        \<and> ws_body resp = Inr raw
        \<and> fst (MiddlewareClient_Quote e j random cl c staffID body w) = (200, take maxBody raw))"
proof -
  let ?q = "MiddlewareClient_Quote e j random cl c staffID body w"
  have "user_error (fst ?q) \<or> (\<exists>rq. fst ?q = relay c (fst (http_do e (mc_timeout cl) c rq w)))"
    by (auto simp: MiddlewareClient_Quote_def fail_response_classes split: sum.split option.split prod.split)
       (metis fst_conv)
  then show ?thesis using relay_user by metis
qed

end
