(* ===== verification/Mesh.thy ===== *)
theory Mesh
  imports Bff
begin

text \<open>
  The BFF and the Middleware on one wire: the request the BFF forwards as the Middleware receives it, the
  Middleware's answers as the BFF reads them, and an environment in which the far end of the BFF's client
  is the Middleware's router.
\<close>

section \<open>The request\<close>

text \<open>A compact token: base64url segments and dots, as the JWT library serialises.\<close>

definition token_text :: "string \<Rightarrow> bool" where
  "token_text token \<longleftrightarrow> token \<noteq> [] \<and> list_all (\<lambda>c. 32 < byte c \<and> byte c < 127) token"

text \<open>The request the BFF puts on the wire, as the Middleware's server receives it.\<close>

definition forwarded :: "string \<Rightarrow> ctx \<Rightarrow> string \<Rightarrow> request" where
  "forwarded token c body =
     as_request \<lparr>wr_url = ''/v1/quotes'', wr_headers = middleware_headers token c, wr_body = body\<rparr>"

lemma forwarded_simps [simp]:
  "rq_method (forwarded token c body) = ''POST''" "rq_path (forwarded token c body) = ''/v1/quotes''"
  by (simp_all add: forwarded_def as_request_def)

lemma graphic_edges: "list_all (\<lambda>c. 32 < byte c \<and> byte c < 127) s \<Longrightarrow> c \<in> set s \<Longrightarrow> c \<notin> space_edges"
  by (rule graphic_not_space) (force simp: list_all_iff)+

lemma graphic_trim: "s \<noteq> [] \<Longrightarrow> list_all (\<lambda>c. 32 < byte c \<and> byte c < 127) s \<Longrightarrow> trim_space s = s"
  by (rule trim_space_id) (auto dest: graphic_edges [OF _ hd_in_set] graphic_edges [OF _ last_in_set])

lemma forwarded_bearer:
  assumes "token_text token"
  shows "bearerToken (forwarded token c body) = Inr token"
proof -
  have t: "trim_space token = token" "token \<noteq> []" using assms graphic_trim by (simp_all add: token_text_def)
  have "last token \<notin> space_edges"
    using assms t(2) graphic_edges [OF _ last_in_set] by (simp add: token_text_def)
  moreover have "CHR ''B'' \<notin> space_edges" by (simp add: byte_def)
  ultimately have "trim_space (''Bearer '' @ token) = ''Bearer '' @ token"
    using t(2) by (intro trim_space_id) simp_all
  moreover have "trim_space ''application/json'' = ''application/json''" by code_simp
  ultimately have "header_get ''Authorization'' (forwarded token c body) = ''Bearer '' @ token"
    by (simp add: header_get_def forwarded_def as_request_def middleware_headers_def)
  moreover have "cut CHR '' '' (''Bearer '' @ token) = (''Bearer'', token, True)"
    using cut_append [of "CHR '' ''" "''Bearer''" token] by simp
  ultimately show ?thesis using t by (simp add: bearerToken_def equal_fold_ascii_def)
qed

lemma forwarded_as_request:
  "as_request \<lparr>wr_url = url, wr_headers = middleware_headers token c, wr_body = body\<rparr> = forwarded token c body"
  by (simp add: forwarded_def as_request_def)

lemma forwarded_body: "length body \<le> 65536 \<Longrightarrow> read_body maxRequestBody (forwarded token c body) = Inr body"
  by (auto simp: read_body_def forwarded_def as_request_def maxRequestBody_def)

lemma safe_id_edges: "safe_id i \<Longrightarrow> trim_space i = i"
proof (rule graphic_trim)
  assume "safe_id i"
  then show "i \<noteq> []" "list_all (\<lambda>c. 32 < byte c \<and> byte c < 127) i"
    by (auto simp: safe_id_def list_all_iff correlation_char_def is_lower_def is_upper_def is_digit_def byte_def)
qed

lemma safe_id_plain: "safe_id i \<Longrightarrow> plain i"
  by (auto simp: safe_id_def plain_def list_all_iff correlation_char_def is_lower_def is_upper_def is_digit_def
      plain_char_def byte_def)

lemma forwarded_correlation:
  assumes "safe_id (ctx_correlation c)"
  shows "correlation_id d (forwarded token c body) = ctx_correlation c"
proof -
  have "header_get CorrelationHeader (forwarded token c body) = ctx_correlation c"
    using assms safe_id_edges [OF assms]
    by (simp add: header_get_def forwarded_def as_request_def middleware_headers_def CorrelationHeader_def safe_id_def)
  then show ?thesis using assms by (simp add: correlation_id_def sanitise_cases safe_id_def Let_def)
qed

section \<open>The answer\<close>

lemma length_json_string: "plain s \<Longrightarrow> length (json_string s) = length s + 2"
  by (simp add: json_string_def escape_plain)

lemma length_join: "length (join_with sep xs) \<le> sum_list (map (\<lambda>x. length x + length sep) xs)"
  by (induction sep xs rule: join_with.induct) simp_all

lemma known_detail_plain: "known_detail f \<Longrightarrow> plain_detail f"
  by (auto simp: known_detail_def plain_detail_def field_code_defs plain_char_def byte_def)

lemma length_field_error:
  assumes "known_detail f"
  shows "length (encode_field_error f) \<le> 60"
proof -
  have "length (fe_field f) \<le> 16 \<and> length (fe_code f) \<le> 19"
    using assms by (auto simp: known_detail_def field_code_defs)
  moreover have "length (encode_field_error f) = 22 + length (fe_field f) + length (fe_code f)"
    using known_detail_plain [OF assms]
    by (simp add: encode_field_error_def json_object_def length_json_string plain_detail_def plain_char_def byte_def)
  ultimately show ?thesis by simp
qed

lemma length_details:
  assumes "list_all known_detail ds"
  shows "length (json_array (map encode_field_error ds)) \<le> 2 + 61 * length ds"
proof -
  have "sum_list (map (\<lambda>x. length x + 1) (map encode_field_error ds)) \<le> 61 * length ds"
    using assms by (induction ds) (auto dest: length_field_error)
  then show ?thesis
    using length_join [of "'',''" "map encode_field_error ds"] by (simp add: json_array_def)
qed

lemma class_texts:
  assumes "public_part h \<in> public_part ` set error_classes"
  shows "plain (Code h) \<and> plain (Message h) \<and> Code h \<noteq> [] \<and> Status h \<noteq> 200
    \<and> length (Code h) \<le> 30 \<and> length (Message h) \<le> 80"
  using assms
  by (auto simp: error_classes_def public_defs code_defs plain_char_def byte_def)

lemma length_envelope:
  assumes "plain code" "plain message" "plain cid" "list_all known_detail ds" "length ds \<le> 3"
  shows "length (encode_envelope code message ds cid) \<le> 300 + length code + length message + length cid"
proof -
  have "length (json_array (map encode_field_error ds)) \<le> 185"
    using length_details [OF assms(4)] assms(5) by simp
  then show ?thesis
    using assms(1-3)
    by (simp add: encode_envelope_def json_object_def length_json_string plain_char_def byte_def)
qed

lemma relay_envelope:
  assumes "plain code" "plain message" "plain cid" "list_all plain_detail ds" "code \<noteq> []" "resp_status resp \<noteq> 200"
    and "resp_body resp = encode_envelope code message ds cid @ newline" "length (resp_body resp) \<le> 65536"
  shows "relay c (Response (as_reply resp)) =
    (if resp_status resp = 401
     then (502, encode_envelope CodeUpstreamUnavailable (userMessage CodeUpstreamUnavailable) [] (ctx_correlation c))
     else (resp_status resp, encode_envelope code (userMessage code) ds cid))"
proof -
  have "skip_space newline = []" by code_simp
  then have "decode_envelope (encode_envelope code message ds cid @ newline) =
      Some \<lparr>en_Code = code, en_Message = message, en_Details = ds, en_CorrelationID = cid\<rparr>"
    using assms(1-4) by (intro decode_encode_envelope)
  moreover have "take maxBody (resp_body resp) = resp_body resp" using assms(8) by (simp add: maxBody_def)
  ultimately show ?thesis
    using assms(5,6) by (simp add: relay_def as_reply_def rewrite_def assms(7) fail_response_def UpstreamUnavailable_def)
qed

text \<open>Whatever error the Middleware tells, the BFF reads it back and puts its own words in.\<close>

lemma relay_tells:
  assumes "tells cid error_classes resp" "safe_id cid" "resp_status resp \<noteq> 401"
  shows "\<exists>code details. relay c (Response (as_reply resp))
    = (resp_status resp, encode_envelope code (userMessage code) details cid)"
proof -
  obtain h where h: "public_part h \<in> public_part ` set error_classes" "list_all known_detail (Details h)"
    "length (Details h) \<le> 3" "resp_status resp = Status h"
    and body: "resp_body resp = encode_envelope (Code h) (Message h) (Details h) cid @ newline"
    using assms(1) unfolding tells_def by blast
  note texts = class_texts [OF h(1)] and cid = safe_id_plain [OF assms(2)]
  have nl: "length newline = 1" by code_simp
  have "length cid \<le> 64" using assms(2) by (simp add: safe_id_def)
  then have "length (resp_body resp) \<le> 65536"
    using length_envelope [of "Code h" "Message h" cid "Details h"] texts cid h(2,3) nl by (simp add: body)
  moreover have "list_all plain_detail (Details h)"
    using h(2) known_detail_plain by (auto simp: list_all_iff)
  ultimately show ?thesis
    using relay_envelope [of "Code h" "Message h" cid "Details h" resp c] texts cid h(4) body assms(3) by auto
qed

section \<open>The mesh\<close>

text \<open>
  The far end of a client is a service: whatever is put on the wire, what comes back is what the service
  answers to it (or a closed connection where it would not answer), after some time. Nothing is lost on
  the way and the client does not give up first.
\<close>

definition served_by :: "env \<Rightarrow> (request \<Rightarrow> response option) \<Rightarrow> bool" where
  "served_by e far \<longleftrightarrow> (\<forall>w timeout c. w_sent w \<noteq> [] \<longrightarrow>
     fst (env_do e w timeout c) = (case far (as_request (last (w_sent w))) of
         Some resp \<Rightarrow> Response (as_reply resp) | None \<Rightarrow> NoResponse (PlainError ''EOF'')))"

definition mesh_env :: "(request \<Rightarrow> response option) \<Rightarrow> env" where
  "mesh_env far = (scripted_env [])\<lparr>env_do := (\<lambda>w timeout c.
     (case far (as_request (last (w_sent w))) of
        Some resp \<Rightarrow> Response (as_reply resp) | None \<Rightarrow> NoResponse (PlainError ''EOF''), 1000000))\<rparr>"

lemma mesh_env_served: "served_by (mesh_env far) far"
  by (simp add: served_by_def mesh_env_def)

lemma served_do:
  assumes "served_by e far" "far (as_request rq) = Some resp"
  shows "fst (http_do e timeout c rq w) = Response (as_reply resp)"
proof -
  let ?w = "w\<lparr>w_sent := w_sent w @ [rq]\<rparr>"
  have "w_sent ?w \<noteq> []" "last (w_sent ?w) = rq" by simp_all
  then have "fst (env_do e ?w timeout c) = Response (as_reply resp)"
    using assms unfolding served_by_def by (metis option.case(2))
  then show ?thesis by (simp add: http_do_def Let_def split_def)
qed

section \<open>The BFF's router\<close>

definition bff_ctx :: "draws \<Rightarrow> bff_Config \<Rightarrow> ctx \<Rightarrow> request \<Rightarrow> bff \<Rightarrow> ctx" where
  "bff_ctx d cfg c r s =
     with_timeout (RequestTimeout cfg) (bff_clock s) (c\<lparr>ctx_correlation := correlation_id d r\<rparr>)"

lemma bff_ctx_correlation [simp]: "ctx_correlation (bff_ctx d cfg c r s) = correlation_id d r"
  by (simp add: bff_ctx_def with_timeout_def)

lemma bff_router_quote:
  assumes "rq_method r = ''POST''" "rq_path r = ''/api/v1/quotes''"
    and "Bff_Quote h (bff_ctx d cfg c r s) r s = (Some resp, s')"
  shows "Bff_NewRouter d cfg h c r s = (Some (preset_header CorrelationHeader (correlation_id d r) resp), s')"
  using assms
  by (simp add: Bff_NewRouter_def Correlation_def Recoverer_def Timeout_def bff_mux_def Mux_def method_matches_def
      bff_ctx_def Let_def)

text \<open>A signed in quote: what the client of the Middleware gives is what is answered.\<close>

lemma Bff_Quote_signed_in:
  assumes "fst (current_session r s) = Some sess" "read_body maxBody r = Inr body"
    and "hd_quotes h (hd_random h (bf_draws s)) c (ID (sess_Staff sess)) body (bf_world (bff_receive r s)) = ((status, out), w)"
  shows "\<exists>s'. Bff_Quote h c r s
      = (Some \<lparr>resp_status = status, resp_headers = [json_content_type], resp_body = out\<rparr>, s') \<and> bf_world s' = w"
proof -
  obtain s1 where cs: "current_session r s = (Some sess, s1)" using assms(1) by (cases "current_session r s") auto
  then have "bf_draws s1 = bf_draws s" "bf_world s1 = bf_world s"
    using current_session_ops [of r s] by auto
  moreover from this have "bf_world (bff_receive r s1) = bf_world (bff_receive r s)"
    by (simp add: bff_receive_def bff_clock_def)
  ultimately show ?thesis using assms(2,3) cs by (simp add: Bff_Quote_def respond_def)
qed

lemma MiddlewareClient_Quote_served:
  assumes "Mint j random (w_clock w) (mc_signingKey cl) sid [ScopeQuoteGenerate] (mc_tokenTTL cl) = Inr token"
    and "env_join_path e (mc_baseURL cl) ''/v1/quotes'' = Some endpoint" "env_request_ok e endpoint"
    and "served_by e far" "far (forwarded token c body) = Some resp"
  shows "\<exists>w'. MiddlewareClient_Quote e j random cl c sid body w = (relay c (Response (as_reply resp)), w')
    \<and> length (w_sent w') = Suc (length (w_sent w))"
proof -
  let ?rq = "\<lparr>wr_url = endpoint, wr_headers = middleware_headers token c, wr_body = body\<rparr>"
  obtain rp w' where d: "http_do e (mc_timeout cl) c ?rq w = (rp, w')" by fastforce
  have "rp = Response (as_reply resp)"
    using served_do [OF assms(4), of ?rq resp "mc_timeout cl" c w] assms(5) d by (simp add: forwarded_as_request)
  moreover have "w_sent w' = w_sent w @ [?rq]" using http_do_sent [of e "mc_timeout cl" c ?rq w] d by simp
  ultimately show ?thesis using assms(1-3) d by (simp add: MiddlewareClient_Quote_def)
qed

end
