(* ===== verification/Budget.thy ===== *)
theory Budget
  imports Middleware
begin

text \<open>
  Time: how long a quote may take. The budget is the deadline that the \<open>Timeout\<close> middleware puts on the
  context; the client, the sleeps of the retrier and the gates of the router all live within it.
\<close>

text \<open>
  What \<open>net/http\<close> promises: \<open>Do\<close> returns no later than the deadline of its context, at once if that has
  passed, and no later than the timeout of the client if that is set; a timeout of zero or less is none.
\<close>

definition prompt :: "env \<Rightarrow> bool" where
  "prompt e \<longleftrightarrow> (\<forall>w timeout c. (0 < timeout \<longrightarrow> int (snd (env_do e w timeout c)) \<le> timeout)
     \<and> (\<forall>d. ctx_deadline c = Some d \<longrightarrow> w_clock w + int (snd (env_do e w timeout c)) \<le> max (w_clock w) d))"

lemma http_do_prompt:
  assumes "prompt e" "ctx_deadline c = Some d"
  shows "w_clock (snd (http_do e timeout c rq w)) \<le> max (w_clock w) d"
proof -
  let ?w = "w\<lparr>w_sent := w_sent w @ [rq]\<rparr>"
  have "w_clock ?w + int (snd (env_do e ?w timeout c)) \<le> max (w_clock ?w) d"
    using assms unfolding prompt_def by blast
  then show ?thesis by (simp add: http_do_def Let_def split_def)
qed

lemma sleepCtx_prompt:
  assumes "ctx_deadline c = Some d"
  shows "w_clock (snd (sleepCtx c t w)) \<le> max (w_clock w) d"
  using assms by (auto simp: sleepCtx_def wait_ctx_def Let_def ctx_done_before_def split: option.splits if_splits)

section \<open>Sources that keep the deadline\<close>

locale timely_source =
  fixes e :: env and nxt :: QuoteSource
  assumes timely: "prompt e \<Longrightarrow> ctx_deadline c = Some d \<Longrightarrow> w_clock (snd (nxt c req w)) \<le> max (w_clock w) d"
begin

lemma retry_loop_timely:
  assumes "prompt e" "ctx_deadline c = Some d"
  shows "w_clock (snd (retry_loop e' nxt cfg c req k lastErr w)) \<le> max (w_clock w) d"
proof (induction "nat (Attempts cfg + 1 - k)" arbitrary: k lastErr w rule: less_induct)
  case (less k lastErr w)
  obtain out w1 where n: "nxt c req w = (out, w1)" by fastforce
  then have w1: "w_clock w1 \<le> max (w_clock w) d" using timely [OF assms, of req w] by simp
  show ?case
  proof (cases out)
    case (Inr quote)
    then show ?thesis using w1 n by (simp add: retry_loop.simps [of e'])
  next
    case (Inl err)
    obtain t w2 where b: "backoff e' cfg k err w1 = (t, w2)" by fastforce
    then have w2: "w_clock w2 = w_clock w1" using backoff_frame(2) [of e' cfg k err w1] by simp
    obtain ended w3 where s: "sleepCtx c t w2 = (ended, w3)" by fastforce
    then have w3: "w_clock w3 \<le> max (w_clock w) d"
      using sleepCtx_prompt [OF assms(2), of t w2] w1 w2 by simp
    have "w_clock (snd (retry_loop e' nxt cfg c req (k + 1) (Some err) w3)) \<le> max (w_clock w3) d"
      if "\<not> k > Attempts cfg"
      using that by (intro less.hyps) simp
    then show ?thesis
      using w1 w2 w3 n b s Inl by (cases ended) (auto simp: retry_loop.simps [of e' nxt cfg c req k])
  qed
qed

lemma Retrier_timely: "timely_source e (Retrier_Quote e' nxt cfg)"
  by unfold_locales (simp add: Retrier_Quote_def retry_loop_timely)

end

interpretation vendor_timely: timely_source e "VendorClient_Quote e cl" for e cl
proof unfold_locales
  fix c :: ctx and d req w
  assume "prompt e" "ctx_deadline c = Some d"
  then have "w_clock (snd (http_do e (vc_timeout cl) c rq w)) \<le> max (w_clock w) d" for rq
    by (rule http_do_prompt)
  then show "w_clock (snd (VendorClient_Quote e cl c req w)) \<le> max (w_clock w) d"
    by (auto simp: VendorClient_Quote_def Let_def split: option.split prod.split reply.split) (metis snd_conv)+
qed

lemma vendor_call_timely:
  "prompt e \<Longrightarrow> ctx_deadline c = Some d
    \<Longrightarrow> w_clock (snd (Retrier_Quote e (VendorClient_Quote e cl) cfg c req w)) \<le> max (w_clock w) d"
  using vendor_timely.Retrier_timely unfolding timely_source_def by blast

lemma resilient_timely:
  assumes "prompt e" "ctx_deadline c = Some d"
  shows "server_clock (snd (resilient e cfg c req s)) \<le> max (server_clock s) d"
proof -
  obtain out w where q: "Retrier_Quote e (VendorClient_Quote e (vendor_client cfg)) (cfg_Retry cfg) c req (sv_world s)
      = (out, w)" by fastforce
  then have "w_clock w \<le> max (server_clock s) d"
    using vendor_call_timely [OF assms, of "vendor_client cfg" "cfg_Retry cfg" req "sv_world s"]
    by (simp add: server_clock_def)
  then show ?thesis
    by (auto simp: resilient_def Breaker_Quote_def q server_clock_def split: prod.split option.split)
qed

text \<open>
  A request leaves the state alone, or waits for its body and does no more, or then calls the vendor once, with
  the deadline the router set when the request arrived.
\<close>

lemma router_state:
  obtains (untouched) "snd (NewRouter e j d cfg (Granted dir) c r s) = s"
  | (received) "snd (NewRouter e j d cfg (Granted dir) c r s) = receive_body r s"
  | (served) c' req where "snd (NewRouter e j d cfg (Granted dir) c r s) = snd (resilient e cfg c' req (receive_body r s))"
      "ctx_deadline c' = ctx_deadline (inner_ctx d cfg c r s)"
proof -
  let ?c = "inner_ctx d cfg c r s"
  have eq: "snd (NewRouter e j d cfg (Granted dir) c r s) = snd (middleware_mux j cfg (Granted dir) (resilient e cfg) ?c r s)"
    by (simp add: NewRouter_def router_eq)
  show thesis
  proof (cases "quote_post r")
    case False
    then show thesis using untouched mux_other [OF False, of j cfg "Granted dir" "resilient e cfg" ?c s] by (auto simp: eq)
  next
    case post: True
    show thesis
    proof (cases "\<exists>caller req. verified j cfg r s caller \<and> entitled (Granted dir) (WithCaller caller ?c) caller
        \<and> acceptable r req")
      case False
      then have "snd (NewRouter e j d cfg (Granted dir) c r s) = refused_state j cfg (Granted dir) ?c r s"
        by (simp add: eq mux_quotes [OF post] quote_chain_shut)
      then show thesis using untouched received by (cases "past_gates j cfg (Granted dir) ?c r s") (simp_all add: refused_state_def)
    next
      case True
      then obtain caller req where o: "verified j cfg r s caller"
        "entitled (Granted dir) (WithCaller caller ?c) caller" "acceptable r req" by blast
      show thesis
        by (rule served [of "WithCaller caller ?c" req])
          (simp_all add: eq mux_quotes [OF post] served_state [OF o] WithCaller_def)
    qed
  qed
qed

lemma router_within_budget:
  assumes "prompt e"
  shows "server_clock (snd (NewRouter e j d cfg (Granted dir) c r s))
    \<le> server_clock s + max (int (rq_body_time r)) (max 0 (RequestBudget cfg))"
proof (cases rule: router_state [of e j d cfg dir c r s])
  case (served c' req)
  obtain t where t: "ctx_deadline (inner_ctx d cfg c r s) = Some t" "t \<le> server_clock s + RequestBudget cfg"
    by (auto simp: inner_ctx_def with_timeout_def split: option.split)
  then show ?thesis using served resilient_timely [OF assms, of c' t cfg req "receive_body r s"] by simp
qed simp_all

section \<open>Property\<close>

text \<open>
  C11: the budget bounds everything but the caller. As long as the HTTP client keeps to the deadline of its
  context, the response to any request, whatever the vendor does, is there no later than the request budget
  after its arrival, or, if the caller took longer than that to send the body, the moment the body is in:
  retries, waits the vendor asks for and sleeps all fit inside the budget. Nothing bounds the wait for the
  body itself: the handler reads it without looking at its context, and the server sets no read timeout
  beyond the header.
\<close>

theorem request_within_budget:
  assumes "prompt e"
  shows "server_clock (snd (NewRouter e j d cfg (Granted dir) c r s))
    \<le> server_clock s + max (int (rq_body_time r)) (max 0 (RequestBudget cfg))"
  by (rule router_within_budget [OF assms])

text \<open>An environment in which every call is answered at the last moment the client allows.\<close>

definition stalling_env :: env where
  "stalling_env = (scripted_env [])\<lparr>env_do := (\<lambda>w timeout c.
     (NoResponse (SentinelError DeadlineExceeded),
      nat (let patience = (if 0 < timeout then timeout else 3600 * second)
           in case ctx_deadline c of None \<Rightarrow> patience | Some d \<Rightarrow> min patience (d - w_clock w))))\<rparr>"

lemma stalling_prompt: "prompt stalling_env"
  by (auto simp: prompt_def stalling_env_def Let_def split: option.split)

text \<open>The caller below takes seven seconds over the body; the budget is six.\<close>

theorem request_within_budget_witness:
  "server_clock (snd (NewRouter stalling_env example_jwt example_draws example_config (Granted example_dir) background
     (example_post\<lparr>rq_body_time := 7000000000\<rparr>) example_server)) \<le> 127 * second"
proof -
  have "server_clock example_server + max (int 7000000000) (max 0 (RequestBudget example_config)) = 127 * second"
    by code_simp
  then show ?thesis
    using request_within_budget [OF stalling_prompt, of example_jwt example_draws example_config example_dir background
        "example_post\<lparr>rq_body_time := 7000000000\<rparr>" example_server] by simp
qed

end
