(* ===== verification/Logging.thy ===== *)
theory Logging
  imports Httpx GoFloat
begin

text \<open>
  \<open>internal/platform/logging/logging.go\<close>: the logger every service binds its component to. A logger is what
  it prepends to a record (the bound attributes and groups) and its level; a written line is the list of
  attributes in order, each under the path of groups it was added in. How \<open>log/slog\<close> renders a line as JSON
  is not modelled.
\<close>

section \<open>Levels\<close>

definition LevelDebug :: int where "LevelDebug = -4"
definition LevelInfo :: int where "LevelInfo = 0"
definition LevelWarn :: int where "LevelWarn = 4"
definition LevelError :: int where "LevelError = 8"

lemmas level_defs = LevelDebug_def LevelInfo_def LevelWarn_def LevelError_def

definition ParseLevel :: "string \<Rightarrow> int" where
  "ParseLevel s =
     (let l = to_lower (trim_space s)
      in if l = ''debug'' then LevelDebug
         else if l = ''warn'' \<or> l = ''warning'' then LevelWarn
         else if l = ''error'' then LevelError
         else LevelInfo)"

section \<open>The correlation id on the context\<close>

definition WithCorrelationID :: "ctx \<Rightarrow> string \<Rightarrow> ctx" where
  "WithCorrelationID c cid = c\<lparr>ctx_correlation := cid\<rparr>"

definition CorrelationID :: "ctx \<Rightarrow> string" where
  "CorrelationID c = ctx_correlation c"

section \<open>Call sites\<close>

text \<open>
  What \<open>runtime.CallersFrames\<close> makes of a program counter: \<^const>\<open>None\<close> for a counter of zero, otherwise
  the function's full name (possibly empty) and the line.
\<close>

type_synonym frame = "(string \<times> int) option"

definition after_last :: "char \<Rightarrow> string \<Rightarrow> string" where
  "after_last sep s = rev (takeWhile (\<lambda>c. c \<noteq> sep) (rev s))"

definition callSite :: "frame \<Rightarrow> string \<times> int \<times> bool" where
  "callSite pc =
     (case pc of
        None \<Rightarrow> ([], 0, False)
      | Some (function, line) \<Rightarrow>
          if function = [] then ([], line, line \<noteq> 0) else (after_last CHR ''/'' function, line, True))"

section \<open>The logger\<close>

datatype attr_value = StringAttr string | IntAttr int | BoolAttr bool | FloatAttr float64

type_synonym attr = "string \<times> attr_value"

record log_record =
  lr_level :: int
  lr_message :: string
  lr_attrs :: "attr list"
  lr_frame :: frame

record logger =
  lg_level :: int
  lg_bound :: "(string list \<times> attr_value) list" \<comment> \<open>attributes with their path\<close>
  lg_groups :: "string list"

definition WithAttrs :: "attr list \<Rightarrow> logger \<Rightarrow> logger" where
  "WithAttrs attrs lg = lg\<lparr>lg_bound := lg_bound lg @ map (\<lambda>(k, v). (lg_groups lg @ [k], v)) attrs\<rparr>"

definition WithGroup :: "string \<Rightarrow> logger \<Rightarrow> logger" where
  "WithGroup name lg = lg\<lparr>lg_groups := lg_groups lg @ [name]\<rparr>"

text \<open>\<open>New\<close>: the component is bound before anything else.\<close>

definition New_logger :: "string \<Rightarrow> int \<Rightarrow> logger" where
  "New_logger component level =
     WithAttrs [(''component'', StringAttr component)] \<lparr>lg_level = level, lg_bound = [], lg_groups = []\<rparr>"

definition Enabled :: "logger \<Rightarrow> int \<Rightarrow> bool" where
  "Enabled lg level \<longleftrightarrow> lg_level lg \<le> level"

text \<open>\<open>contextHandler.Handle\<close>, with the hook \<open>TraceIDs\<close> as an argument.\<close>

definition context_attrs :: "(ctx \<Rightarrow> string \<times> string) \<Rightarrow> ctx \<Rightarrow> frame \<Rightarrow> attr list" where
  "context_attrs traceIDs c pc =
     (case callSite pc of (m, line, ok) \<Rightarrow>
        if ok then [(''method'', StringAttr m), (''line'', IntAttr line)] else [])
     @ (if CorrelationID c \<noteq> [] then [(''correlationId'', StringAttr (CorrelationID c))] else [])
     @ (case traceIDs c of (tid, sid) \<Rightarrow>
        if tid \<noteq> [] then [(''traceId'', StringAttr tid), (''spanId'', StringAttr sid)] else [])"

definition Handle :: "(ctx \<Rightarrow> string \<times> string) \<Rightarrow> ctx \<Rightarrow> log_record \<Rightarrow> log_record" where
  "Handle traceIDs c r = r\<lparr>lr_attrs := lr_attrs r @ context_attrs traceIDs c (lr_frame r)\<rparr>"

text \<open>A call of the logger: \<^const>\<open>None\<close> if the level is off, otherwise the line that is written.\<close>

definition log_line ::
  "(ctx \<Rightarrow> string \<times> string) \<Rightarrow> logger \<Rightarrow> ctx \<Rightarrow> log_record \<Rightarrow> (string list \<times> attr_value) list option" where
  "log_line traceIDs lg c r =
     (if \<not> Enabled lg (lr_level r) then None
      else Some (lg_bound (WithAttrs (lr_attrs (Handle traceIDs c r)) lg)))"

section \<open>Lemmas\<close>

lemma ParseLevel_range: "LevelDebug \<le> ParseLevel s \<and> ParseLevel s \<le> LevelError"
  by (simp add: ParseLevel_def level_defs Let_def)

lemma WithAttrs_simps [simp]:
  "lg_level (WithAttrs attrs lg) = lg_level lg" "lg_groups (WithAttrs attrs lg) = lg_groups lg"
  "lg_level (New_logger component level) = level" "lg_groups (New_logger component level) = []"
  by (simp_all add: WithAttrs_def New_logger_def)

lemma derived_logger:
  "lg_level (fold WithAttrs bound lg) = lg_level lg" "lg_groups (fold WithAttrs bound lg) = lg_groups lg"
  "set (lg_bound lg) \<subseteq> set (lg_bound (fold WithAttrs bound lg))"
proof -
  show "lg_level (fold WithAttrs bound lg) = lg_level lg" "lg_groups (fold WithAttrs bound lg) = lg_groups lg"
    by (induction bound arbitrary: lg) simp_all
  show "set (lg_bound lg) \<subseteq> set (lg_bound (fold WithAttrs bound lg))"
  proof (induction bound arbitrary: lg)
    case (Cons a bound)
    have "set (lg_bound lg) \<subseteq> set (lg_bound (WithAttrs a lg))" by (auto simp: WithAttrs_def)
    with Cons.IH [of "WithAttrs a lg"] show ?case by simp
  qed simp
qed

lemma after_last_no_sep: "sep \<notin> set (after_last sep s)"
  by (auto simp: after_last_def dest: set_takeWhileD)

lemma after_last_suffix: "\<exists>p. s = p @ after_last sep s \<and> (p = [] \<or> last p = sep)"
proof -
  let ?t = "dropWhile (\<lambda>c. c \<noteq> sep) (rev s)"
  have "rev s = takeWhile (\<lambda>c. c \<noteq> sep) (rev s) @ ?t" by simp
  then have "s = rev ?t @ after_last sep s" unfolding after_last_def by (metis rev_append rev_rev_ident)
  moreover have "rev ?t = [] \<or> last (rev ?t) = sep"
    using hd_dropWhile [of "\<lambda>c. c \<noteq> sep" "rev s"] by (auto simp: last_rev)
  ultimately show ?thesis by blast
qed

section \<open>Property\<close>

text \<open>
  C31: a failure can always be found in the log. Whatever \<open>LOG_LEVEL\<close> says and whatever attributes a logger
  was derived with, an error that is logged is written, and its line has the component, the correlation
  id and the trace of its context if there are any, and, when the call site is known, the line and the
  function's name with everything up to its last slash dropped. Call sites pass none of these.
\<close>

theorem errors_are_logged:
  assumes "LevelError \<le> lr_level r"
  shows "\<exists>line. log_line traceIDs (fold WithAttrs bound (New_logger component (ParseLevel level))) c r = Some line
    \<and> ([''component''], StringAttr component) \<in> set line
    \<and> (\<forall>k v. (k, v) \<in> set (lr_attrs r) \<longrightarrow> ([k], v) \<in> set line)
    \<and> (CorrelationID c \<noteq> [] \<longrightarrow> ([''correlationId''], StringAttr (CorrelationID c)) \<in> set line)
    \<and> (fst (traceIDs c) \<noteq> [] \<longrightarrow> ([''traceId''], StringAttr (fst (traceIDs c))) \<in> set line)
    \<and> (\<forall>function ln. lr_frame r = Some (function, ln) \<and> function \<noteq> [] \<longrightarrow>
        ([''line''], IntAttr ln) \<in> set line
        \<and> (\<exists>m p. ([''method''], StringAttr m) \<in> set line \<and> CHR ''/'' \<notin> set m \<and> function = p @ m
            \<and> (p = [] \<or> last p = CHR ''/'')))"
proof -
  let ?base = "New_logger component (ParseLevel level)"
  let ?lg = "fold WithAttrs bound ?base"
  let ?line = "lg_bound (WithAttrs (lr_attrs (Handle traceIDs c r)) ?lg)"
  have groups: "lg_groups ?lg = []" by (simp add: derived_logger)
  have "Enabled ?lg (lr_level r)"
    using assms ParseLevel_range [of level] by (simp add: Enabled_def derived_logger)
  then have line: "log_line traceIDs ?lg c r = Some ?line" by (simp add: log_line_def)
  have eq: "?line = lg_bound ?lg @ map (\<lambda>(k, v). ([k], v)) (lr_attrs r @ context_attrs traceIDs c (lr_frame r))"
    by (simp add: WithAttrs_def groups Handle_def)
  have "([''component''], StringAttr component) \<in> set (lg_bound ?base)"
    by (simp add: New_logger_def WithAttrs_def)
  then have comp: "([''component''], StringAttr component) \<in> set (lg_bound ?lg)"
    using derived_logger(3) [of ?base bound] by blast
  have ctx: "(k, v) \<in> set (context_attrs traceIDs c (lr_frame r)) \<Longrightarrow> ([k], v) \<in> set ?line" for k v
    unfolding eq by force
  have site: "lr_frame r = Some (fn, ln) \<Longrightarrow> fn \<noteq> [] \<Longrightarrow>
      (''line'', IntAttr ln) \<in> set (context_attrs traceIDs c (lr_frame r))
      \<and> (''method'', StringAttr (after_last CHR ''/'' fn)) \<in> set (context_attrs traceIDs c (lr_frame r))" for fn ln
    by (simp add: context_attrs_def callSite_def)
  have "\<forall>k v. (k, v) \<in> set (lr_attrs r) \<longrightarrow> ([k], v) \<in> set ?line" unfolding eq by force
  moreover have "CorrelationID c \<noteq> [] \<longrightarrow> ([''correlationId''], StringAttr (CorrelationID c)) \<in> set ?line"
    and "fst (traceIDs c) \<noteq> [] \<longrightarrow> ([''traceId''], StringAttr (fst (traceIDs c))) \<in> set ?line"
    by (cases "traceIDs c"; intro impI ctx; simp add: context_attrs_def)+
  moreover have "\<forall>function ln. lr_frame r = Some (function, ln) \<and> function \<noteq> [] \<longrightarrow>
        ([''line''], IntAttr ln) \<in> set ?line
        \<and> (\<exists>m p. ([''method''], StringAttr m) \<in> set ?line \<and> CHR ''/'' \<notin> set m \<and> function = p @ m
            \<and> (p = [] \<or> last p = CHR ''/''))"
    using ctx site after_last_no_sep after_last_suffix by blast
  ultimately show ?thesis using line comp eq by (intro exI [of _ ?line]) simp
qed

theorem errors_are_logged_witness:
  "\<exists>line. log_line (\<lambda>c. ([], [])) (fold WithAttrs [] (New_logger ''cqapp-bff'' (ParseLevel '' ERROR '')))
     (WithCorrelationID background ''abc-1'')
     \<lparr>lr_level = LevelError, lr_message = ''failed'', lr_attrs = [], lr_frame = Some (''a/httpx.WriteError'', 12)\<rparr> = Some line
     \<and> ([''correlationId''], StringAttr ''abc-1'') \<in> set line \<and> ([''line''], IntAttr 12) \<in> set line"
proof -
  let ?r = "\<lparr>lr_level = LevelError, lr_message = ''failed'', lr_attrs = [], lr_frame = Some (''a/httpx.WriteError'', 12)\<rparr>"
  have "LevelError \<le> lr_level ?r" "CorrelationID (WithCorrelationID background ''abc-1'') = ''abc-1''"
    by (simp_all add: CorrelationID_def WithCorrelationID_def)
  then show ?thesis
    using errors_are_logged [of ?r "\<lambda>c. ([], [])" "[]" "''cqapp-bff''" "'' ERROR ''" "WithCorrelationID background ''abc-1''"]
    by auto
qed

end
