(* ===== verification/Launch.thy ===== *)
theory Launch
  imports Bff Logging
begin

text \<open>
  Starting and stopping: \<open>telemetry.go\<close> as far as it decides anything, \<open>httpx.Serve\<close>, and the \<open>main\<close> of the
  three services under \<open>src/cmd\<close>. A run is its result and the sequence of what it did; the operating system
  (environment, files, sockets, signals) and the tracing SDK are a record of functions.
\<close>

section \<open>The system underneath\<close>

datatype launch_error =
    ConfigError load_failure
  | EndpointUnparsable string
  | EndpointScheme string
  | EndpointNoHost string
  | TelemetryError go_error
  | FixtureError go_error
  | ListenError go_error
  | ServeError go_error
  | ShutdownError go_error

text \<open>How serving ends: \<open>srv.Serve\<close> fails, or a signal comes and the drain succeeds or not.\<close>

datatype serve_end = ServeFails go_error | Signalled "go_error option"

record os =
  os_env :: "string \<Rightarrow> string option"
  os_read :: "string \<Rightarrow> go_error + string"
  os_resource :: "go_error option"
  os_exporter :: "string \<Rightarrow> go_error option"
  os_listen :: "int \<Rightarrow> go_error option"
  os_end :: serve_end

section \<open>Telemetry\<close>

definition validateEndpoint :: "net \<Rightarrow> string \<Rightarrow> launch_error option" where
  "validateEndpoint net endpoint =
     (case net_Parse net endpoint of
        None \<Rightarrow> Some (EndpointUnparsable endpoint)
      | Some u \<Rightarrow>
          if url_Scheme u \<noteq> ''http'' \<and> url_Scheme u \<noteq> ''https'' then Some (EndpointScheme endpoint)
          else if url_Host u = [] then Some (EndpointNoHost endpoint)
          else None)"

definition Init :: "os \<Rightarrow> net \<Rightarrow> string \<Rightarrow> launch_error option" where
  "Init os net endpoint =
     (case os_resource os of
        Some err \<Rightarrow> Some (TelemetryError err)
      | None \<Rightarrow>
          if endpoint = [] then None
          else (case validateEndpoint net endpoint of
              Some err \<Rightarrow> Some err
            | None \<Rightarrow> map_option TelemetryError (os_exporter os endpoint)))"

record span_context =
  sc_valid :: bool
  sc_trace :: string
  sc_span :: string

definition traceIDs :: "(ctx \<Rightarrow> span_context) \<Rightarrow> ctx \<Rightarrow> string \<times> string" where
  "traceIDs spans c = (let sc = spans c in if \<not> sc_valid sc then ([], []) else (sc_trace sc, sc_span sc))"

text \<open>The SDK's wrappers of handlers and transports are arguments.\<close>

definition telemetry_Middleware :: "('s handler \<Rightarrow> string \<Rightarrow> 's handler) \<Rightarrow> string \<Rightarrow> 's middleware" where
  "telemetry_Middleware new_handler component next = new_handler next component"

definition Transport :: "('t \<Rightarrow> 't) \<Rightarrow> 't \<Rightarrow> 't option \<Rightarrow> 't" where
  "Transport new_transport shared base = new_transport (case base of None \<Rightarrow> shared | Some b \<Rightarrow> b)"

section \<open>Serving\<close>

datatype launch_event =
    TelemetryUp
  | Starting
  | Listening ServeOptions
  | ShuttingDown duration
  | TelemetryDown

type_synonym outcome = "launch_error option \<times> launch_event list"

text \<open>\<open>Serve\<close>: the socket is bound before anything is announced.\<close>

definition Serve :: "os \<Rightarrow> ServeOptions \<Rightarrow> outcome" where
  "Serve os opts0 =
     (let opts = serve_defaults opts0 in
      case os_listen os (so_Port opts) of
        Some err \<Rightarrow> (Some (ListenError err), [])
      | None \<Rightarrow>
          (case os_end os of
             ServeFails err \<Rightarrow> (Some (ServeError err), [Listening opts])
           | Signalled drained \<Rightarrow>
               (map_option ShutdownError drained, [Listening opts, ShuttingDown (ShutdownGrace opts)])))"

definition serve_options :: "int \<Rightarrow> duration \<Rightarrow> ServeOptions" where
  "serve_options port write = \<lparr>so_Port = port, ShutdownGrace = 0, ReadTimeout = 0, WriteTimeout = write\<rparr>"

text \<open>The shutdown of the tracing is deferred: it runs on every way out once the tracing is up.\<close>

definition with_telemetry :: "os \<Rightarrow> net \<Rightarrow> string \<Rightarrow> outcome \<Rightarrow> outcome" where
  "with_telemetry os net endpoint rest =
     (case Init os net endpoint of
        Some err \<Rightarrow> (Some err, [])
      | None \<Rightarrow> (fst rest, TelemetryUp # snd rest @ [TelemetryDown]))"

definition announce :: "outcome \<Rightarrow> outcome" where
  "announce rest = (fst rest, Starting # snd rest)"

section \<open>The services\<close>

definition run_bff :: "os \<Rightarrow> net \<Rightarrow> bcrypt \<Rightarrow> outcome" where
  "run_bff os net bc =
     (case Load_bff net (EnvProvider (os_env os)) of
        Inl err \<Rightarrow> (Some (ConfigError err), [])
      | Inr cfg \<Rightarrow> with_telemetry os net (bc_OTLPEndpoint cfg)
          (case Load_staff (os_read os (bc_StaffFile cfg)) of
             Inl err \<Rightarrow> (Some (FixtureError err), [])
           | Inr staff \<Rightarrow>
               (case NewFixtureAuth bc staff (os_read os (CredentialsFile cfg)) of
                  Inl err \<Rightarrow> (Some (FixtureError err), [])
                | Inr auth \<Rightarrow>
                    announce (Serve os (serve_options (bc_Port cfg) (wrap64 (RequestTimeout cfg + 5 * second)))))))"

definition run_middleware :: "os \<Rightarrow> net \<Rightarrow> outcome" where
  "run_middleware os net =
     (case Load_middleware net (EnvProvider (os_env os)) of
        Inl err \<Rightarrow> (Some (ConfigError err), [])
      | Inr cfg \<Rightarrow> with_telemetry os net (OTLPEndpoint cfg)
          (case Load_staff (os_read os (StaffFile cfg)) of
             Inl err \<Rightarrow> (Some (FixtureError err), [])
           | Inr staff \<Rightarrow>
               announce (Serve os (serve_options (cfg_Port cfg) (wrap64 (RequestBudget cfg + 5 * second))))))"

definition run_mock :: "os \<Rightarrow> net \<Rightarrow> outcome" where
  "run_mock os net =
     (case Load_mock (EnvProvider (os_env os)) of
        Inl err \<Rightarrow> (Some (ConfigError err), [])
      | Inr cfg \<Rightarrow> with_telemetry os net (mc_OTLPEndpoint cfg)
          (announce (Serve os (serve_options (mc_Port cfg) (wrap64 (SlowDelay cfg + 10 * second))))))"

text \<open>
  \<open>main\<close>, the same in all three: with \<open>-health\<close> the binary asks the service on that port and does nothing
  else. The result is the exit status.
\<close>

definition service_main :: "int \<Rightarrow> (string \<Rightarrow> duration \<Rightarrow> reply) \<Rightarrow> outcome \<Rightarrow> int \<times> launch_event list" where
  "service_main hport probe out =
     (if hport \<noteq> 0 then (case CheckHealth probe hport (3 * second) of Some err \<Rightarrow> (1, []) | None \<Rightarrow> (0, []))
      else (case out of (Some err, events) \<Rightarrow> (1, events) | (None, events) \<Rightarrow> (0, events)))"

definition bff_main :: "int \<Rightarrow> (string \<Rightarrow> duration \<Rightarrow> reply) \<Rightarrow> os \<Rightarrow> net \<Rightarrow> bcrypt \<Rightarrow> int \<times> launch_event list" where
  "bff_main hport probe os net bc = service_main hport probe (run_bff os net bc)"

definition middleware_main :: "int \<Rightarrow> (string \<Rightarrow> duration \<Rightarrow> reply) \<Rightarrow> os \<Rightarrow> net \<Rightarrow> int \<times> launch_event list" where
  "middleware_main hport probe os net = service_main hport probe (run_middleware os net)"

definition mock_main :: "int \<Rightarrow> (string \<Rightarrow> duration \<Rightarrow> reply) \<Rightarrow> os \<Rightarrow> net \<Rightarrow> int \<times> launch_event list" where
  "mock_main hport probe os net = service_main hport probe (run_mock os net)"

lemmas main_defs = bff_main_def middleware_main_def mock_main_def

section \<open>Lemmas\<close>

lemma serve_defaults_port [simp]: "so_Port (serve_defaults so) = so_Port so"
  by (simp add: serve_defaults_def Let_def)

lemma serve_defaults_grace: "ShutdownGrace (serve_defaults (serve_options port write)) = 10 * second"
  by (simp add: serve_defaults_def serve_options_def Let_def)

lemma serve_options_port [simp]: "so_Port (serve_options port write) = port"
  by (simp add: serve_options_def)

lemma serve_defaults_write:
  "WriteTimeout (serve_defaults (serve_options port write)) = (if write = 0 then 15 * second else write)"
  by (simp add: serve_defaults_def serve_options_def Let_def)

text \<open>The listening events of an outcome are those of what it wraps.\<close>

definition announced :: "outcome \<Rightarrow> ServeOptions list" where
  "announced out = concat (map (\<lambda>ev. case ev of Listening so \<Rightarrow> [so] | _ \<Rightarrow> []) (snd out))"

named_theorems launching

lemma announced_early [launching]: "announced (x, []) = []"
  by (simp add: announced_def)

lemma announced_announce [launching]: "announced (announce out) = announced out"
  by (simp add: announced_def announce_def)

lemma announced_telemetry [launching]:
  "announced (with_telemetry os net endpoint out) = (if Init os net endpoint = None then announced out else [])"
  by (auto simp: announced_def with_telemetry_def split: option.split)

lemma announced_Serve [launching]:
  "announced (Serve os opts) = (if os_listen os (so_Port opts) = None then [serve_defaults opts] else [])"
  by (auto simp: announced_def Serve_def Let_def split: option.split serve_end.split)

lemma fst_Serve:
  "fst (Serve os opts) = None \<longleftrightarrow> os_listen os (so_Port opts) = None \<and> os_end os = Signalled None"
  by (auto simp: Serve_def Let_def split: option.split serve_end.split)

lemma fst_wrapped [simp]:
  "fst (announce out) = fst out"
  "fst (with_telemetry os net endpoint out) = None \<longleftrightarrow> Init os net endpoint = None \<and> fst out = None"
  by (auto simp: announce_def with_telemetry_def split: option.split)

text \<open>Started tracing is stopped, whatever happens in between.\<close>

definition bracketed :: "launch_event list \<Rightarrow> bool" where
  "bracketed evs \<longleftrightarrow> evs = [] \<or> (\<exists>rest. evs = TelemetryUp # rest @ [TelemetryDown]
     \<and> TelemetryUp \<notin> set rest \<and> TelemetryDown \<notin> set rest)"

definition untraced :: "outcome \<Rightarrow> bool" where
  "untraced out \<longleftrightarrow> TelemetryUp \<notin> set (snd out) \<and> TelemetryDown \<notin> set (snd out)"

lemma untraced_simps [simp]:
  "untraced (x, [])" "untraced (announce out) \<longleftrightarrow> untraced out" "untraced (Serve os opts)"
  by (auto simp: untraced_def announce_def Serve_def Let_def split: option.split serve_end.split)

lemma bracketed_telemetry: "untraced out \<Longrightarrow> bracketed (snd (with_telemetry os net endpoint out))"
  by (auto simp: bracketed_def untraced_def with_telemetry_def split: option.split)

lemma bracketed_runs:
  "bracketed (snd (run_bff os net bc))" "bracketed (snd (run_middleware os net))" "bracketed (snd (run_mock os net))"
proof -
  have nil: "bracketed []" by (simp add: bracketed_def)
  show "bracketed (snd (run_bff os net bc))" "bracketed (snd (run_middleware os net))" "bracketed (snd (run_mock os net))"
    by (auto simp: run_bff_def run_middleware_def run_mock_def nil intro!: bracketed_telemetry split: sum.split)
qed

text \<open>What has to be in place for each service.\<close>

definition bff_ready :: "os \<Rightarrow> net \<Rightarrow> bcrypt \<Rightarrow> bff_Config \<Rightarrow> FixtureAuth \<Rightarrow> bool" where
  "bff_ready os net bc cfg auth \<longleftrightarrow>
     Load_bff net (EnvProvider (os_env os)) = Inr cfg \<and> Init os net (bc_OTLPEndpoint cfg) = None
     \<and> (\<exists>staff. Load_staff (os_read os (bc_StaffFile cfg)) = Inr staff
          \<and> NewFixtureAuth bc staff (os_read os (CredentialsFile cfg)) = Inr auth)
     \<and> os_listen os (bc_Port cfg) = None"

definition middleware_ready :: "os \<Rightarrow> net \<Rightarrow> Config \<Rightarrow> Directory \<Rightarrow> bool" where
  "middleware_ready os net cfg dir \<longleftrightarrow>
     Load_middleware net (EnvProvider (os_env os)) = Inr cfg \<and> Init os net (OTLPEndpoint cfg) = None
     \<and> Load_staff (os_read os (StaffFile cfg)) = Inr dir \<and> os_listen os (cfg_Port cfg) = None"

definition mock_ready :: "os \<Rightarrow> net \<Rightarrow> mock_Config \<Rightarrow> bool" where
  "mock_ready os net cfg \<longleftrightarrow>
     Load_mock (EnvProvider (os_env os)) = Inr cfg \<and> Init os net (mc_OTLPEndpoint cfg) = None
     \<and> os_listen os (mc_Port cfg) = None"

lemma bff_announced:
  "so \<in> set (announced (run_bff os net bc)) \<longleftrightarrow> (\<exists>cfg auth. bff_ready os net bc cfg auth
     \<and> so = serve_defaults (serve_options (bc_Port cfg) (wrap64 (RequestTimeout cfg + 5 * second))))"
  by (auto simp: run_bff_def bff_ready_def launching split: sum.split)

lemma middleware_announced:
  "so \<in> set (announced (run_middleware os net)) \<longleftrightarrow> (\<exists>cfg dir. middleware_ready os net cfg dir
     \<and> so = serve_defaults (serve_options (cfg_Port cfg) (wrap64 (RequestBudget cfg + 5 * second))))"
  by (auto simp: run_middleware_def middleware_ready_def launching split: sum.split)

lemma mock_announced:
  "so \<in> set (announced (run_mock os net)) \<longleftrightarrow> (\<exists>cfg. mock_ready os net cfg
     \<and> so = serve_defaults (serve_options (mc_Port cfg) (wrap64 (SlowDelay cfg + 10 * second))))"
  by (auto simp: run_mock_def mock_ready_def launching split: sum.split)

lemma main_status:
  "fst (service_main 0 probe out) = 0 \<longleftrightarrow> fst out = None"
  by (cases out) (simp add: service_main_def split: option.split)

lemma runs_succeed:
  "fst (run_bff os net bc) = None \<longleftrightarrow> (\<exists>cfg auth. bff_ready os net bc cfg auth) \<and> os_end os = Signalled None"
  "fst (run_middleware os net) = None \<longleftrightarrow> (\<exists>cfg dir. middleware_ready os net cfg dir) \<and> os_end os = Signalled None"
  "fst (run_mock os net) = None \<longleftrightarrow> (\<exists>cfg. mock_ready os net cfg) \<and> os_end os = Signalled None"
  by (auto simp: run_bff_def run_middleware_def run_mock_def bff_ready_def middleware_ready_def mock_ready_def fst_Serve
      split: sum.split)

section \<open>Properties\<close>

text \<open>
  C21: a service is announced exactly when it is ready. The BFF says it is listening if and only if its
  configuration, its tracing endpoint, the staff fixture and every credential are in order and the port
  could be bound; the Middleware and the mock likewise with what they need. Each announces at most once,
  exits with 0 exactly if it was ready and drained after a signal, and stops the tracing on every way out.
\<close>

theorem announced_when_ready:
  "(announced (run_bff os net bc) \<noteq> [] \<longleftrightarrow> (\<exists>cfg auth. bff_ready os net bc cfg auth))
   \<and> (announced (run_middleware os net) \<noteq> [] \<longleftrightarrow> (\<exists>cfg dir. middleware_ready os net cfg dir))
   \<and> (announced (run_mock os net) \<noteq> [] \<longleftrightarrow> (\<exists>cfg. mock_ready os net cfg))
   \<and> (fst (bff_main 0 probe os net bc) = 0
        \<longleftrightarrow> (\<exists>cfg auth. bff_ready os net bc cfg auth) \<and> os_end os = Signalled None)
   \<and> (fst (middleware_main 0 probe os net) = 0
        \<longleftrightarrow> (\<exists>cfg dir. middleware_ready os net cfg dir) \<and> os_end os = Signalled None)
   \<and> (fst (mock_main 0 probe os net) = 0
        \<longleftrightarrow> (\<exists>cfg. mock_ready os net cfg) \<and> os_end os = Signalled None)
   \<and> list_all (\<lambda>out. length (announced out) \<le> 1 \<and> bracketed (snd out))
        [run_bff os net bc, run_middleware os net, run_mock os net]"
proof -
  have one: "length (announced (run_bff os net bc)) \<le> 1" "length (announced (run_middleware os net)) \<le> 1"
    "length (announced (run_mock os net)) \<le> 1"
    by (simp_all add: run_bff_def run_middleware_def run_mock_def launching split: sum.split)
  have some: "xs \<noteq> [] \<longleftrightarrow> (\<exists>x. x \<in> set xs)" for xs :: "ServeOptions list" by (cases xs) auto
  have "announced (run_bff os net bc) \<noteq> [] \<longleftrightarrow> (\<exists>cfg auth. bff_ready os net bc cfg auth)"
    "announced (run_middleware os net) \<noteq> [] \<longleftrightarrow> (\<exists>cfg dir. middleware_ready os net cfg dir)"
    "announced (run_mock os net) \<noteq> [] \<longleftrightarrow> (\<exists>cfg. mock_ready os net cfg)"
    unfolding some bff_announced middleware_announced mock_announced by blast+
  then show ?thesis using one bracketed_runs by (simp add: main_defs main_status runs_succeed)
qed

end
