(* ===== verification/Fixtures.thy ===== *)
theory Fixtures
  imports Staffdir
begin

text \<open>
  Growing a fixture: what the CSV reader makes of a file to which one more line was appended, whether or
  not the file ended with a newline. Nothing that was read before is read differently.
\<close>

section \<open>Trimming before a newline\<close>

lemma space_runes_lf: "p \<in> set space_runes \<Longrightarrow> lf \<in> set p \<Longrightarrow> p = [lf]"
  by (auto simp: space_runes_def ascii_spaces_def unicode_spaces_def bytes_def lf_def)

lemma lf_rune: "[lf] \<in> set space_runes"
  by (auto simp: space_runes_def ascii_spaces_def bytes_def lf_def)

lemma trim_left_newline: "trim_left [lf] = []"
proof -
  have "find (\<lambda>p. p \<noteq> [] \<and> take (length p) [lf] = p) space_runes \<noteq> None"
    using lf_rune by (auto simp: find_None_iff intro!: bexI [of _ "[lf]"])
  then obtain p where p: "find (\<lambda>p. p \<noteq> [] \<and> take (length p) [lf] = p) space_runes = Some p" by blast
  then have "p \<noteq> []" "take (length p) [lf] = p" by (auto simp: find_Some_iff)
  then have "drop (length p) [lf] = []" by (cases p) auto
  then show ?thesis unfolding trim_left_def by (subst strip.simps) (simp add: p)
qed

lemma space_runes_comma: "p \<in> set space_runes \<Longrightarrow> comma \<notin> set p"
proof -
  have "list_all (\<lambda>p. comma \<notin> set p) space_runes" by code_simp
  then show "p \<in> set space_runes \<Longrightarrow> comma \<notin> set p" by (simp add: list_all_iff)
qed

text \<open>A byte that is in no longer rune ends whatever rune comes before it.\<close>

lemma rune_before:
  assumes "s \<noteq> []" "p \<in> set space_runes" "c \<in> set p \<Longrightarrow> p = [c]"
  shows "take (length p) (s @ c # t) = p \<longleftrightarrow> take (length p) s = p"
proof (cases "length p \<le> length s")
  case True
  then show ?thesis by simp
next
  case False
  then have long: "length s < length p" by simp
  have "take (length p) (s @ c # t) \<noteq> p"
  proof
    assume p: "take (length p) (s @ c # t) = p"
    have "take (length p) (s @ c # t) ! length s = c" using long by (simp add: nth_append)
    then have "c \<in> set p" using p long by (metis nth_mem)
    then show False using assms(1,3) long by (cases s) auto
  qed
  moreover have "length (take (length p) s) < length p" using False by simp
  then have "take (length p) s \<noteq> p" by force
  ultimately show ?thesis by simp
qed

definition first_rune :: "string \<Rightarrow> string option" where
  "first_rune s = find (\<lambda>p. p \<noteq> [] \<and> take (length p) s = p) space_runes"

lemma trim_left_step:
  "trim_left s = (case first_rune s of None \<Rightarrow> s | Some p \<Rightarrow> trim_left (drop (length p) s))"
  unfolding trim_left_def first_rune_def by (rule strip.simps)

lemma trim_left_subset: "set (trim_left s) \<subseteq> set s"
proof (induction "length s" arbitrary: s rule: less_induct)
  case less
  show ?case
  proof (cases "first_rune s")
    case None
    then show ?thesis by (simp add: trim_left_step [of s])
  next
    case (Some p)
    then have p: "p \<noteq> []" "take (length p) s = p" by (auto simp: first_rune_def find_Some_iff)
    then have "s \<noteq> []" by auto
    then have "length (drop (length p) s) < length s" using p(1) by (cases p) auto
    from less [OF this] show ?thesis
      using Some set_drop_subset [of "length p" s] by (auto simp: trim_left_step [of s])
  qed
qed

lemma trim_left_snoc: "trim_left (s @ [lf]) = (if trim_left s = [] then [] else trim_left s @ [lf])"
proof (induction "length s" arbitrary: s rule: less_induct)
  case less
  show ?case
  proof (cases "s = []")
    case True
    then show ?thesis using trim_left_newline by (simp add: trim_left_def)
  next
    case False
    have same: "first_rune (s @ [lf]) = first_rune s"
      unfolding first_rune_def using rune_before [OF False, of _ lf "[]"] space_runes_lf by (intro find_cong) auto
    show ?thesis
    proof (cases "first_rune s")
      case None
      then show ?thesis using False same by (simp add: trim_left_step [of s] trim_left_step [of "s @ [lf]"])
    next
      case (Some p)
      then have p: "p \<noteq> []" "take (length p) s = p" by (auto simp: first_rune_def find_Some_iff)
      then have len: "length p \<le> length s" by (metis length_take min.cobounded1)
      then have "length (drop (length p) s) < length s" using p(1) by (cases p) auto
      from less [OF this] show ?thesis
        using Some same len by (simp add: trim_left_step [of s] trim_left_step [of "s @ [lf]"])
    qed
  qed
qed

section \<open>The last line gets its newline\<close>

text \<open>
  What is still to be read, with and without the newline of the last line: a current line and the lines
  after it.
\<close>

definition closes :: "string list \<Rightarrow> string list \<Rightarrow> bool" where
  "closes ls ls' \<longleftrightarrow> ls' = ls \<or> (\<exists>front l. ls = front @ [l] \<and> ls' = front @ [l @ [lf]] \<and> lf \<notin> set l)"

definition line_closes :: "string \<times> string list \<Rightarrow> string \<times> string list \<Rightarrow> bool" where
  "line_closes st st' \<longleftrightarrow> fst st' = fst st \<and> closes (snd st) (snd st')
     \<or> snd st = [] \<and> snd st' = [] \<and> fst st' = fst st @ [lf] \<and> lf \<notin> set (fst st)"

lemma closes_refl [simp]: "closes ls ls"
  by (simp add: closes_def)

lemma closes_Nil [simp]: "closes [] ls' \<longleftrightarrow> ls' = []"
  by (auto simp: closes_def)

lemma closes_Cons:
  assumes "closes (l # ls) ls'"
  obtains l' ls1 where "ls' = l' # ls1" "line_closes (l, ls) (l', ls1)"
proof (cases "ls' = l # ls")
  case True
  then show ?thesis using that by (simp add: line_closes_def)
next
  case False
  then obtain front m where f: "l # ls = front @ [m]" "ls' = front @ [m @ [lf]]" "lf \<notin> set m"
    using assms unfolding closes_def by blast
  show ?thesis
  proof (cases front)
    case Nil
    then show ?thesis using that f by (simp add: line_closes_def)
  next
    case (Cons a front')
    then have "closes ls (front' @ [m @ [lf]])" using f by (auto simp: closes_def)
    then show ?thesis using that [of l "front' @ [m @ [lf]]"] f Cons by (simp add: line_closes_def)
  qed
qed

lemma line_closes_rest: "line_closes (l, ls) (l', ls') \<Longrightarrow> closes ls ls'"
  by (auto simp: line_closes_def)

lemma chomp_lf [simp]: "lf \<notin> set l \<Longrightarrow> chomp (l @ [lf]) = chomp l"
  by (auto simp: chomp_def butlast_append dest: last_in_set)

lemma line_closes_chomp: "line_closes (l, ls) (l', ls') \<Longrightarrow> chomp l' = chomp l"
  by (auto simp: line_closes_def)

lemma cut_snoc:
  assumes "c \<noteq> sep"
  shows "cut sep (s @ [c]) = (case cut sep s of (b, a, True) \<Rightarrow> (b, a @ [c], True) | (b, a, False) \<Rightarrow> (b @ [c], [], False))"
  using assms by (induction s) (auto split: prod.splits bool.splits)

lemma cut_closes:
  assumes "cut sep line = (pre, post, True)" "line_closes (line, rest) (line', rest')" "lf \<noteq> sep"
  obtains post' where "cut sep line' = (pre, post', True)" "line_closes (post, rest) (post', rest')"
proof (cases "line' = line")
  case True
  then show ?thesis using that [of post] assms by (auto simp: line_closes_def)
next
  case False
  then have l: "line' = line @ [lf]" "rest = []" "rest' = []" "lf \<notin> set line"
    using assms(2) by (auto simp: line_closes_def)
  moreover have "line = pre @ sep # post" using assms(1) by (auto dest: cut_True)
  moreover have "cut sep line' = (pre, post @ [lf], True)" using assms(1,3) l(1) by (simp add: cut_snoc)
  ultimately show ?thesis using that [of "post @ [lf]"] by (simp add: line_closes_def)
qed

text \<open>The field that ends at a newline, or at the end of the file.\<close>

fun field_closes :: "string option \<times> string list \<Rightarrow> string option \<times> string list \<Rightarrow> bool" where
  "field_closes (None, r) (None, r') = closes r r'"
| "field_closes (Some f, r) (Some f', r') = line_closes (f, r) (f', r')"
| "field_closes _ _ = False"

fun_cases field_closes_NoneE: "field_closes (None, r) x"
fun_cases field_closes_SomeE: "field_closes (Some f, r) x"

lemma csv_quoted_closes:
  assumes "csv_quoted line rest = Some (t, fol, r)" "line_closes (line, rest) (line', rest')"
  shows "\<exists>fol' r'. csv_quoted line' (rest' @ ex) = Some (t, fol', r' @ ex) \<and> field_closes (fol, r) (fol', r')"
  using assms
proof (induction line rest arbitrary: t line' rest' rule: csv_quoted.induct)
  case (1 line rest)
  obtain pre post ok where c: "cut dquote line = (pre, post, ok)" by (cases "cut dquote line") auto
  show ?case
  proof (cases ok)
    case True
    have "lf \<noteq> dquote" by code_simp
    then obtain post' where c': "cut dquote line' = (pre, post', True)" and post': "line_closes (post, rest) (post', rest')"
      using c \<open>ok\<close> by (auto intro: cut_closes [OF _ "1.prems"(2)])
    have hd_same: "post \<noteq> [] \<Longrightarrow> post' \<noteq> [] \<and> hd post' = hd post \<and> line_closes (tl post, rest) (tl post', rest')"
      using post' by (auto simp: line_closes_def dest: list.set_sel(2))
    have nil: "post = [] \<Longrightarrow> post' = [] \<or> post' = [lf]" using post' by (auto simp: line_closes_def)
    have rest: "closes rest rest'" using post' by (rule line_closes_rest)
    have eqs: "csv_quoted line rest =
        (if post \<noteq> [] \<and> hd post = dquote then
           map_option (\<lambda>(t, r). (pre @ dquote # t, r)) (csv_quoted (tl post) rest)
         else if post \<noteq> [] \<and> hd post = comma then Some (pre, Some (tl post), rest)
         else if chomp post = [] then Some (pre, None, rest) else None)"
      "csv_quoted line' (rest' @ ex) =
        (if post' \<noteq> [] \<and> hd post' = dquote then
           map_option (\<lambda>(t, r). (pre @ dquote # t, r)) (csv_quoted (tl post') (rest' @ ex))
         else if post' \<noteq> [] \<and> hd post' = comma then Some (pre, Some (tl post'), rest' @ ex)
         else if chomp post' = [] then Some (pre, None, rest' @ ex) else None)"
      using c c' \<open>ok\<close> by (simp_all add: csv_quoted.simps [of line] csv_quoted.simps [of line'])
    show ?thesis
    proof (cases "post \<noteq> [] \<and> hd post = dquote")
      case True
      then obtain t' where t': "csv_quoted (tl post) rest = Some (t', fol, r)" "t = pre @ dquote # t'"
        using "1.prems"(1) eqs(1) by auto
      obtain fol' r' where "csv_quoted (tl post') (rest' @ ex) = Some (t', fol', r' @ ex)" "field_closes (fol, r) (fol', r')"
        using "1.IH"(1) [of pre "(post, ok)" post ok t' "tl post'" rest'] c \<open>ok\<close> True t'(1) hd_same by auto
      then show ?thesis using eqs(2) True hd_same t'(2) by auto
    next
      case False
      have "lf \<noteq> dquote" "lf \<noteq> comma" "chomp [lf] = []" by code_simp+
      then show ?thesis
        using "1.prems"(1) eqs False hd_same nil rest line_closes_chomp [OF post']
        by (cases "post = []") (auto split: if_splits)
    qed
  next
    case False
    then obtain l ls where r: "rest = l # ls" "line \<noteq> []"
      using "1.prems"(1) c by (auto simp: csv_quoted.simps [of line] split: list.splits if_splits)
    then obtain t' where t': "csv_quoted l ls = Some (t', fol, r)" "t = line @ t'"
      using "1.prems"(1) c False by (auto simp: csv_quoted.simps [of line])
    have line': "line' = line" "closes (l # ls) rest'" using "1.prems"(2) r by (auto simp: line_closes_def)
    then obtain l' ls' where l': "rest' = l' # ls'" "line_closes (l, ls) (l', ls')" using closes_Cons by metis
    obtain fol' r' where "csv_quoted l' (ls' @ ex) = Some (t', fol', r' @ ex)" "field_closes (fol, r) (fol', r')"
      using "1.IH"(2) [of pre "(post, ok)" post ok l ls t' l' ls'] c False r t'(1) l'(2) by auto
    then show ?thesis using c False r(2) line'(1) l'(1) t'(2) by (auto simp: csv_quoted.simps [of line])
  qed
qed

lemma trim_left_closes:
  assumes "line_closes (line, rest) (line', rest')"
  shows "line_closes (trim_left line, rest) (trim_left line', rest')"
proof (cases "line' = line")
  case True
  then show ?thesis using assms by (auto simp: line_closes_def)
next
  case False
  then have l: "rest = []" "rest' = []" "line' = line @ [lf]" "lf \<notin> set line"
    using assms by (auto simp: line_closes_def)
  have "lf \<notin> set (trim_left line)"
    using l(4) trim_left_subset by blast
  then show ?thesis using l by (auto simp: trim_left_snoc line_closes_def)
qed

lemma csv_fields_closes:
  assumes "csv_fields line rest = Some (fs, r)" "line_closes (line, rest) (line', rest')"
  shows "\<exists>r'. csv_fields line' (rest' @ ex) = Some (fs, r' @ ex) \<and> closes r r'"
  using assms
proof (induction line rest arbitrary: fs line' rest' rule: csv_fields.induct)
  case (1 line0 rest)
  let ?line = "trim_left line0" and ?line' = "trim_left line'"
  have tl: "line_closes (?line, rest) (?line', rest')" using "1.prems"(2) by (rule trim_left_closes)
  have rest: "closes rest rest'" using tl by (rule line_closes_rest)
  have lf: "lf \<noteq> dquote" "lf \<noteq> comma" by code_simp+
  have quoted: "?line = [] \<or> hd ?line \<noteq> dquote \<longleftrightarrow> ?line' = [] \<or> hd ?line' \<noteq> dquote"
    using tl lf(1) by (cases "?line = []") (auto simp: line_closes_def)
  show ?case
  proof (cases "?line = [] \<or> hd ?line \<noteq> dquote")
    case True
    obtain field after b where c: "cut comma ?line = (field, after, b)" by (cases "cut comma ?line") auto
    show ?thesis
    proof (cases b)
      case found: True
      obtain after' where c': "cut comma ?line' = (field, after', True)" "line_closes (after, rest) (after', rest')"
        using c found lf(2) by (auto intro: cut_closes [OF _ tl])
      obtain fs' where fs': "csv_fields after rest = Some (fs', r)" "fs = field # fs'" "\<not> contains field dquote"
        using "1.prems"(1) True c found by (auto simp: csv_fields.simps [of line0] Let_def split: if_splits)
      obtain r' where "csv_fields after' (rest' @ ex) = Some (fs', r' @ ex)" "closes r r'"
        using "1.IH"(1) [of ?line field "(after, b)" after b fs' after' rest'] True c found fs'(1,3) c'(2) by auto
      then show ?thesis
        using True quoted c'(1) fs'(2,3) by (auto simp: csv_fields.simps [of line'] Let_def)
    next
      case False
      then have c2: "field = ?line" "comma \<notin> set ?line" using c by (auto dest: cut_False)
      then have fs: "fs = [chomp ?line]" "r = rest" "\<not> contains (chomp ?line) dquote"
        using "1.prems"(1) True c False by (auto simp: csv_fields.simps [of line0] Let_def split: if_splits)
      have "comma \<notin> set ?line'" using tl c2(2) lf(2) by (auto simp: line_closes_def)
      then have "cut comma ?line' = (?line', [], False)" by simp
      then show ?thesis
        using True quoted fs rest line_closes_chomp [OF tl] by (auto simp: csv_fields.simps [of line'] Let_def)
    qed
  next
    case False
    then obtain t fol r0 where q: "csv_quoted (tl ?line) rest = Some (t, fol, r0)"
      using "1.prems"(1) by (auto simp: csv_fields.simps [of line0] Let_def split: option.splits)
    have "line_closes (tl ?line, rest) (tl ?line', rest')"
      using tl False quoted by (auto simp: line_closes_def dest: list.set_sel(2))
    from csv_quoted_closes [OF q this] obtain fol' r1 where
      q': "csv_quoted (tl ?line') (rest' @ ex) = Some (t, fol', r1 @ ex)" "field_closes (fol, r0) (fol', r1)" by blast
    have eq: "csv_fields line' (rest' @ ex) = (case fol' of None \<Rightarrow> Some ([t], r1 @ ex)
        | Some after \<Rightarrow> map_option (\<lambda>(fs, r'). (t # fs, r')) (csv_fields after (r1 @ ex)))"
      using False quoted q'(1) by (auto simp: csv_fields.simps [of line'] Let_def split: option.split)
    show ?thesis
    proof (cases fol)
      case None
      then have "fol' = None" "closes r0 r1" using q'(2) by (auto elim: field_closes_NoneE)
      then show ?thesis
        using "1.prems"(1) False q None eq by (auto simp: csv_fields.simps [of line0] Let_def)
    next
      case (Some after)
      then obtain after' where after': "fol' = Some after'" "line_closes (after, r0) (after', r1)"
        using q'(2) by (auto elim: field_closes_SomeE)
      obtain fs' where fs': "csv_fields after r0 = Some (fs', r)" "fs = t # fs'"
        using "1.prems"(1) False q Some by (auto simp: csv_fields.simps [of line0] Let_def)
      obtain r' where "csv_fields after' (r1 @ ex) = Some (fs', r' @ ex)" "closes r r'"
        using "1.IH"(2) [of ?line "(t, fol, r0)" t "(fol, r0)" fol r0 after fs' after' r1] False q Some fs'(1) after'(2)
        by auto
      then show ?thesis using eq after'(1) fs'(2) by auto
    qed
  qed
qed

lemma csv_read_closes:
  assumes "csv_read n ls = Some rows" "closes ls ls'"
  shows "csv_read n (ls' @ ex) = map_option (\<lambda>more_rows. rows @ more_rows) (csv_read n ex)"
  using assms
proof (induction n ls arbitrary: rows ls' rule: csv_read.induct)
  case (1 n)
  then show ?case by (cases "csv_read n ex") auto
next
  case (2 n l ls)
  obtain l' ls1 where l': "ls' = l' # ls1" "line_closes (l, ls) (l', ls1)" using closes_Cons [OF "2.prems"(2)] by metis
  have "lf \<noteq> CHR ''#''" by code_simp
  moreover have "chomp [lf] = []" by code_simp
  ultimately have skip: "(l \<noteq> [] \<and> hd l = CHR ''#'') \<or> chomp l = [] \<longleftrightarrow> (l' \<noteq> [] \<and> hd l' = CHR ''#'') \<or> chomp l' = []"
    using l'(2) line_closes_chomp [OF l'(2)] by (cases "l = []") (auto simp: line_closes_def chomp_def)
  show ?case
  proof (cases "(l \<noteq> [] \<and> hd l = CHR ''#'') \<or> chomp l = []")
    case True
    then show ?thesis
      using "2.IH"(1) [OF True, of rows ls1] "2.prems"(1) l' skip line_closes_rest [OF l'(2)] by simp
  next
    case False
    obtain fs r rows' where f: "csv_fields l ls = Some (fs, r)" "length fs = n" "csv_read n r = Some rows'" "rows = fs # rows'"
      using "2.prems"(1) False by (auto split: option.splits if_splits)
    obtain r' where "csv_fields l' (ls1 @ ex) = Some (fs, r' @ ex)" "closes r r'"
      using csv_fields_closes [OF f(1) l'(2)] by blast
    moreover from this(2) have "csv_read n (r' @ ex) = map_option (\<lambda>more_rows. rows' @ more_rows) (csv_read n ex)"
      using "2.IH"(2) [OF False f(1) refl, of rows' r'] f(2,3) by simp
    moreover have "\<not> ((l' \<noteq> [] \<and> hd l' = CHR ''#'') \<or> chomp l' = [])" using False skip by blast
    ultimately show ?thesis
      using f(2,4) l'(1) by (auto simp: option.map_comp comp_def)
  qed
qed

section \<open>A row for the file\<close>

definition clean :: "string \<Rightarrow> bool" where
  "clean f \<longleftrightarrow> trim_space f = f \<and> set f \<inter> {comma, dquote, lf, cr} = {}"

lemma trim_left_id:
  assumes "trim_space f = f"
  shows "trim_left f = f"
proof (cases "first_rune f")
  case None
  then show ?thesis by (simp add: trim_left_step [of f])
next
  case (Some p)
  then have p: "p \<noteq> []" "take (length p) f = p" by (auto simp: first_rune_def find_Some_iff)
  then have "f \<noteq> []" by auto
  then have "length (drop (length p) f) < length f" using p(1) by (cases p) auto
  then have "length (trim_left f) < length f"
    using Some trim_left_length [of "drop (length p) f"] by (simp add: trim_left_step [of f])
  moreover have "length (trim_right (trim_left f)) \<le> length (trim_left f)"
    using strip_length [of "map rev space_runes" "rev (trim_left f)"] by (simp add: trim_right_def)
  ultimately show ?thesis using assms by (simp add: trim_space_def)
qed

lemma trim_left_field:
  assumes "trim_space f = f"
  shows "trim_left (f @ comma # t) = f @ comma # t"
proof (cases "f = []")
  case True
  have "comma \<notin> space_edges" by (rule graphic_not_space) (simp_all add: comma_def byte_def)
  then show ?thesis using True trim_left_Cons by simp
next
  case False
  have "first_rune f = None"
  proof (rule ccontr)
    assume "first_rune f \<noteq> None"
    then obtain p where Some: "first_rune f = Some p" by blast
    then have p: "p \<noteq> []" by (auto simp: first_rune_def find_Some_iff)
    then have "length (drop (length p) f) < length f" using False by (cases p) (auto simp: diff_less)
    then show False
      using trim_left_id [OF assms] trim_left_length [of "drop (length p) f"] Some by (simp add: trim_left_step [of f])
  qed
  then have "first_rune (f @ comma # t) = None"
    using rune_before [OF False, of _ comma t] space_runes_comma
    by (auto simp: first_rune_def find_None_iff)
  then show ?thesis by (simp add: trim_left_step [of "f @ comma # t"])
qed

lemma csv_fields_field:
  assumes "clean f" "csv_fields t [] = Some (fs, [])"
  shows "csv_fields (f @ comma # t) [] = Some (f # fs, [])"
proof -
  have f: "trim_space f = f" "comma \<notin> set f" "dquote \<notin> set f" using assms(1) by (auto simp: clean_def)
  have "dquote \<noteq> comma" by code_simp
  then have "hd (f @ comma # t) \<noteq> dquote" using f(3) by (cases f) auto
  then show ?thesis
    using f assms(2) by (simp add: csv_fields.simps [of "f @ comma # t"] trim_left_field Let_def)
qed

lemma csv_fields_last:
  assumes "clean f"
  shows "csv_fields (f @ [lf]) [] = Some ([f], [])"
proof -
  have f: "trim_left f = f" "comma \<notin> set f" "dquote \<notin> set f" "lf \<notin> set f"
    using assms trim_left_id by (auto simp: clean_def)
  have "lf \<noteq> dquote" "comma \<noteq> lf" by code_simp+
  moreover have "chomp (f @ [lf]) = f" by (simp add: chomp_def)
  moreover have "f \<noteq> [] \<Longrightarrow> last f \<noteq> lf" using f(4) last_in_set by metis
  then have "chomp f = f" by (auto simp: chomp_def)
  moreover have "f \<noteq> [] \<Longrightarrow> hd f \<noteq> dquote" using f(3) hd_in_set by metis
  ultimately show ?thesis
    using f by (cases "f = []") (auto simp: csv_fields.simps [of "f @ [lf]"] csv_fields.simps [of "[lf]"] trim_left_snoc
        trim_left_newline Let_def)
qed

section \<open>The file\<close>

definition with_newline :: "string \<Rightarrow> string" where
  "with_newline s = (if s \<noteq> [] \<and> last s \<noteq> lf then s @ [lf] else s)"

lemma raw_lines_append: "s = [] \<or> last s = lf \<Longrightarrow> raw_lines (s @ t) = raw_lines s @ raw_lines t"
proof (induction s)
  case (Cons c s)
  show ?case
  proof (cases "s = []")
    case False
    then have "raw_lines (s @ t) = raw_lines s @ raw_lines t" using Cons by simp
    moreover have "raw_lines s \<noteq> []" using False by (cases s) (auto split: list.splits)
    ultimately show ?thesis by (cases "raw_lines s") auto
  qed (use Cons in auto)
qed simp

lemma raw_lines_single: "lf \<notin> set s \<Longrightarrow> raw_lines (s @ [lf]) = [s @ [lf]]"
  by (induction s) auto

lemma raw_lines_open:
  "s \<noteq> [] \<Longrightarrow> last s \<noteq> lf \<Longrightarrow> \<exists>front r. raw_lines s = front @ [r] \<and> raw_lines (s @ [lf]) = front @ [r @ [lf]]
     \<and> lf \<notin> set r \<and> r \<noteq> []"
proof (induction s)
  case (Cons c s)
  show ?case
  proof (cases "s = []")
    case True
    then show ?thesis using Cons.prems by (intro exI [of _ "[]"] exI [of _ "[c]"]) simp
  next
    case False
    then obtain front r where ih: "raw_lines s = front @ [r]" "raw_lines (s @ [lf]) = front @ [r @ [lf]]"
      "lf \<notin> set r" "r \<noteq> []" using Cons by auto
    show ?thesis
    proof (cases "c = lf")
      case True
      then show ?thesis using ih by (intro exI [of _ "[c] # front"] exI [of _ r]) simp
    next
      case False
      show ?thesis
      proof (cases front)
        case Nil
        then show ?thesis using ih \<open>c \<noteq> lf\<close> by (intro exI [of _ "[]"] exI [of _ "c # r"]) simp
      next
        case (Cons a list)
        then show ?thesis using ih \<open>c \<noteq> lf\<close> by (intro exI [of _ "(c # a) # list"] exI [of _ r]) simp
      qed
    qed
  qed
qed simp

lemma csv_line_open: "r \<noteq> [] \<Longrightarrow> lf \<notin> set r \<Longrightarrow> csv_line (r @ [lf]) = csv_line r @ [lf]"
  by (cases r rule: rev_cases) (auto simp: csv_line_def butlast_append)

lemma csv_lines_closes: "closes (csv_lines s) (csv_lines (with_newline s))"
proof (cases "s \<noteq> [] \<and> last s \<noteq> lf")
  case True
  then obtain front r where r: "raw_lines s = front @ [r]" "raw_lines (s @ [lf]) = front @ [r @ [lf]]"
    "lf \<notin> set r" "r \<noteq> []" using raw_lines_open by blast
  have "last r \<noteq> lf" using r(3,4) last_in_set by metis
  then have "lf \<notin> set (csv_line r)" using r(3) by (auto simp: csv_line_def dest: in_set_butlastD)
  then show ?thesis
    using True r csv_line_open [OF r(4,3)] by (auto simp: closes_def csv_lines_def with_newline_def)
qed (auto simp: with_newline_def)

text \<open>Appending a row of clean fields to a file that reads adds exactly that row.\<close>

lemma csv_read_append:
  assumes "csv_read n (csv_lines s) = Some rows" "csv_fields (row @ [lf]) [] = Some (fs, [])" "length fs = n"
    and "row \<noteq> []" "hd row \<noteq> CHR ''#''" "lf \<notin> set row" "cr \<notin> set row"
  shows "csv_read n (csv_lines (with_newline s @ row @ [lf])) = Some (rows @ [fs])"
proof -
  have "with_newline s = [] \<or> last (with_newline s) = lf" by (auto simp: with_newline_def)
  then have "raw_lines (with_newline s @ row @ [lf]) = raw_lines (with_newline s) @ [row @ [lf]]"
    by (simp add: raw_lines_append raw_lines_single assms(6))
  moreover have "last row \<noteq> cr" using assms(4,7) last_in_set by metis
  then have "csv_line (row @ [lf]) = row @ [lf]"
    using assms(4,6) by (cases row rule: rev_cases) (auto simp: csv_line_def)
  ultimately have "csv_lines (with_newline s @ row @ [lf]) = csv_lines (with_newline s) @ [row @ [lf]]"
    by (simp add: csv_lines_def)
  moreover have "chomp (row @ [lf]) = row" by (simp add: chomp_def)
  then have "csv_read n [row @ [lf]] = Some [fs]" using assms(2-5) by simp
  ultimately show ?thesis
    using csv_read_closes [OF assms(1) csv_lines_closes, of "[row @ [lf]]"] by simp
qed

end
