(* ===== verification/Devtools.thy ===== *)
theory Devtools
  imports Signin Fixtures Authtoken
begin

text \<open>
  The developer tools under \<open>src/cmd\<close>: \<open>devstaff\<close>, which adds a staff member to both fixtures, and \<open>devtoken\<close>,
  which prints a token for the Middleware. Files are a map from paths to contents; a write either appends
  its whole text or fails. Printed advice and the text of errors that quote a value are left out.
\<close>

section \<open>Common\<close>

definition envOr :: "(string \<Rightarrow> string) \<Rightarrow> string \<Rightarrow> string \<Rightarrow> string" where
  "envOr getenv key def = (let v = getenv key in if v \<noteq> [] then v else def)"

type_synonym files = "string \<Rightarrow> string option"

definition read_file :: "files \<Rightarrow> string \<Rightarrow> go_error + string" where
  "read_file fs path = (case fs path of None \<Rightarrow> Inl (PlainError ''no such file'') | Some s \<Rightarrow> Inr s)"

section \<open>The password\<close>

text \<open>Standard input: a terminal, with the two answers to the prompts, or anything else, with its contents.\<close>

datatype stdin = Terminal "go_error + string" "go_error + string" | Piped string

definition trim_newlines :: "string \<Rightarrow> string" where
  "trim_newlines s = rev (dropWhile (\<lambda>c. c = cr \<or> c = lf) (rev s))"

text \<open>\<open>ReadString\<close> up to and including the first newline; without one it is an error but has the rest.\<close>

definition first_line :: "string \<Rightarrow> string" where
  "first_line s = (case cut lf s of (before, _, found) \<Rightarrow> if found then before @ [lf] else before)"

definition readPassword :: "stdin \<Rightarrow> go_error + string" where
  "readPassword input =
     (case input of
        Piped s \<Rightarrow>
          if first_line s = [] then Inl (PlainError ''read password from stdin'') else Inr (trim_newlines (first_line s))
      | Terminal asked confirmed \<Rightarrow>
          (case asked of
             Inl err \<Rightarrow> Inl (WrapError ''read password: %w'' [err])
           | Inr p \<Rightarrow>
               (case confirmed of
                  Inl err \<Rightarrow> Inl (WrapError ''read password: %w'' [err])
                | Inr q \<Rightarrow> if p \<noteq> q then Inl (PlainError ''passwords do not match'') else Inr p)))"

section \<open>Adding a staff member\<close>

text \<open>\<open>refused path text\<close> is that \<open>WriteString\<close> of the text fails on that file; the file then stays as it is.\<close>

definition write_string :: "(string \<Rightarrow> string \<Rightarrow> bool) \<Rightarrow> string \<Rightarrow> string \<Rightarrow> files \<Rightarrow> go_error option \<times> files" where
  "write_string refused path text fs =
     (if refused path text then (Some (PlainError ''write''), fs)
      else (None, fs(path := map_option (\<lambda>s. s @ text) (fs path))))"

definition appendRow :: "(string \<Rightarrow> string \<Rightarrow> bool) \<Rightarrow> string \<Rightarrow> string \<Rightarrow> files \<Rightarrow> go_error option \<times> files" where
  "appendRow refused path row fs =
     (case fs path of
        None \<Rightarrow> (Some (PlainError ''open''), fs)
      | Some s \<Rightarrow>
          (case (if s \<noteq> [] \<and> last s \<noteq> lf then write_string refused path [lf] fs else (None, fs)) of
             (Some err, fs1) \<Rightarrow> (Some err, fs1)
           | (None, fs1) \<Rightarrow> write_string refused path (row @ [lf]) fs1))"

record staff_flags =
  sf_id :: string
  sf_name :: string
  sf_scopes :: string
  sf_staff_file :: string
  sf_credentials_file :: string

definition default_staff_flags :: "(string \<Rightarrow> string) \<Rightarrow> staff_flags" where
  "default_staff_flags getenv =
     \<lparr>sf_id = [], sf_name = [], sf_scopes = ScopeQuoteGenerate,
      sf_staff_file = envOr getenv ''STAFF_FILE'' ''config/staff.csv'',
      sf_credentials_file = envOr getenv ''CREDENTIALS_FILE'' ''config/credentials.csv''\<rparr>"

definition forbidden_chars :: string where "forbidden_chars = [comma, lf, cr]"

text \<open>\<open>generate\<close> is \<open>bcrypt.GenerateFromPassword\<close> at the tool's cost. On an error the files so far are kept.\<close>

definition devstaff ::
  "(string \<Rightarrow> string \<Rightarrow> bool) \<Rightarrow> (string \<Rightarrow> go_error + string) \<Rightarrow> stdin \<Rightarrow> staff_flags \<Rightarrow> files \<Rightarrow> go_error option \<times> files" where
  "devstaff refused generate input fl fs =
     (if trim_space (sf_id fl) = [] \<or> trim_space (sf_name fl) = []
      then (Some (PlainError ''-id and -name are required''), fs)
      else if contains_any (sf_id fl @ sf_name fl) forbidden_chars
      then (Some (PlainError ''id and name must not contain commas or newlines''), fs)
      else (case Load_staff (read_file fs (sf_staff_file fl)) of
          Inl err \<Rightarrow> (Some err, fs)
        | Inr dir \<Rightarrow>
            if Lookup dir (sf_id fl) \<noteq> None then (Some (PlainError ''already there''), fs)
            else (case readPassword input of
                Inl err \<Rightarrow> (Some err, fs)
              | Inr password \<Rightarrow>
                  if length password < 8 then (Some (PlainError ''password must be at least 8 characters''), fs)
                  else (case generate password of
                      Inl err \<Rightarrow> (Some (WrapError ''hash password: %w'' [err]), fs)
                    | Inr hash \<Rightarrow>
                        (case appendRow refused (sf_staff_file fl)
                            (sf_id fl @ comma # sf_name fl @ comma # sf_scopes fl) fs of
                           (Some err, fs1) \<Rightarrow> (Some err, fs1)
                         | (None, fs1) \<Rightarrow>
                             (case appendRow refused (sf_credentials_file fl) (sf_id fl @ comma # hash) fs1 of
                                (Some err, fs2) \<Rightarrow> (Some (WrapError ''%w (note: the row was added)'' [err]), fs2)
                              | (None, fs2) \<Rightarrow> (None, fs2)))))))"

section \<open>A development token\<close>

text \<open>\<open>strings.Fields\<close>: the runs of bytes at which no white space begins.\<close>

fun take_word :: "string \<Rightarrow> string \<times> string" where
  "take_word [] = ([], [])"
| "take_word (c # s) =
     (if first_rune (c # s) \<noteq> None then ([], c # s) else (case take_word s of (w, r) \<Rightarrow> (c # w, r)))"

lemma take_word_append: "take_word s = (w, r) \<Longrightarrow> s = w @ r"
  by (induction s arbitrary: w r) (auto split: if_splits prod.splits)

lemma take_word_shorter: "trim_left s \<noteq> [] \<Longrightarrow> length (snd (take_word (trim_left s))) < length s"
proof -
  assume ne: "trim_left s \<noteq> []"
  obtain w r where w: "take_word (trim_left s) = (w, r)" by fastforce
  have "first_rune (trim_left s) = None"
  proof (induction "length s" arbitrary: s rule: less_induct)
    case less
    show ?case
    proof (cases "first_rune s")
      case None
      then show ?thesis by (simp add: trim_left_step [of s])
    next
      case (Some p)
      then have p: "p \<noteq> []" "take (length p) s = p" by (auto simp: first_rune_def find_Some_iff)
      then have "s \<noteq> []" by auto
      then have "length (drop (length p) s) < length s" using p(1) by (cases p) auto
      from less [OF this] show ?thesis using Some by (simp add: trim_left_step [of s])
    qed
  qed
  then have "w \<noteq> []" using w ne by (cases "trim_left s") (auto split: prod.splits)
  then have "length r < length (trim_left s)" using take_word_append [OF w] by (cases w) auto
  then show ?thesis using w trim_left_length [of s] by simp
qed

function Fields :: "string \<Rightarrow> string list" where
  "Fields s =
     (let t = trim_left s
      in if t = [] then [] else (case take_word t of (w, r) \<Rightarrow> w # Fields r))"
  by pat_completeness auto
termination
  by (relation "measure length") (use take_word_shorter in \<open>auto, metis snd_conv\<close>)

declare Fields.simps [simp del]

definition firstEntitled :: "(string \<Rightarrow> string) \<Rightarrow> files \<Rightarrow> go_error + string" where
  "firstEntitled getenv fs =
     (case Load_staff (read_file fs (envOr getenv ''STAFF_FILE'' ''config/staff.csv'')) of
        Inl err \<Rightarrow> Inl (WrapError ''%w (or pass -sub)'' [err])
      | Inr dir \<Rightarrow>
          (case find (\<lambda>s. contains (Scopes s) ScopeQuoteGenerate) (All dir) of
             Some s \<Rightarrow> Inr (ID s)
           | None \<Rightarrow> Inl (PlainError ''no staff member holds the scope, pass -sub'')))"

definition devtoken ::
  "jwt \<Rightarrow> string option \<Rightarrow> instant \<Rightarrow> (string \<Rightarrow> string) \<Rightarrow> files \<Rightarrow> string \<Rightarrow> string \<Rightarrow> duration \<Rightarrow> go_error + string" where
  "devtoken j random now getenv fs sub scope ttl =
     (case (if sub = [] then firstEntitled getenv fs else Inr sub) of
        Inl err \<Rightarrow> Inl err
      | Inr subject \<Rightarrow>
          (let key = getenv ''BFF_MIDDLEWARE_SIGNING_KEY'' in
           if key = [] then Inl (PlainError ''BFF_MIDDLEWARE_SIGNING_KEY is not set'')
           else Mint j random now key subject (Fields scope) ttl))"

section \<open>Growing the fixtures\<close>

lemma parse_rows_append:
  "parse_rows i (xs @ ys) d = (case parse_rows i xs d of Inl err \<Rightarrow> Inl err | Inr d' \<Rightarrow> parse_rows (length xs + i) ys d')"
  by (induction i xs d rule: parse_rows.induct) (auto simp: Let_def split: sum.split)

lemma credential_rows_append:
  "credential_rows bc i (xs @ ys) out =
     (case credential_rows bc i xs out of Inl err \<Rightarrow> Inl err | Inr out' \<Rightarrow> credential_rows bc (length xs + i) ys out')"
  by (induction bc i xs out rule: credential_rows.induct) (auto simp: Let_def split: sum.split)

lemma clean_trim [simp]: "clean f \<Longrightarrow> trim_space f = f"
  by (simp add: clean_def)

lemma clean_no_newline: "clean f \<Longrightarrow> lf \<notin> set f \<and> cr \<notin> set f"
  by (auto simp: clean_def)

definition with_staff :: "Directory \<Rightarrow> Staff \<Rightarrow> Directory" where
  "with_staff d s = d\<lparr>byID := (byID d)(ID s \<mapsto> s), order := order d @ [s]\<rparr>"

lemma separators: "comma \<noteq> lf" "comma \<noteq> cr" "comma \<noteq> CHR ''#''" "lf \<noteq> cr"
  by code_simp+

lemma Parse_append:
  assumes "Parse s = Inr d" "clean sid" "clean name" "clean scopes" "sid \<noteq> []" "hd sid \<noteq> CHR ''#''" "byID d sid = None"
  shows "Parse (with_newline s @ (sid @ comma # name @ comma # scopes) @ [lf])
    = Inr (with_staff d \<lparr>ID = sid, Name = name, Scopes = parseScopes scopes\<rparr>)"
proof -
  obtain header rows where r: "csv_read 3 (csv_lines s) = Some (header # rows)" "lower header = [''id'', ''name'', ''scopes'']"
    "parse_rows 0 rows empty_Directory = Inr d"
    using assms(1) by (auto simp: Parse_def split: option.splits list.splits sum.splits if_splits)
  have "csv_fields (sid @ comma # name @ comma # (scopes @ [lf])) [] = Some ([sid, name, scopes], [])"
    using assms(2-4) by (intro csv_fields_field csv_fields_last)
  then have "csv_fields ((sid @ comma # name @ comma # scopes) @ [lf]) [] = Some ([sid, name, scopes], [])" by simp
  then have read: "csv_read 3 (csv_lines (with_newline s @ (sid @ comma # name @ comma # scopes) @ [lf]))
      = Some ((header # rows) @ [[sid, name, scopes]])"
    by (rule csv_read_append [OF r(1)]) (use assms(2-6) clean_no_newline separators in auto)
  have "parse_rows 0 (rows @ [[sid, name, scopes]]) empty_Directory
      = Inr (with_staff d \<lparr>ID = sid, Name = name, Scopes = parseScopes scopes\<rparr>)"
    using assms(2-5,7) r(3) by (simp add: parse_rows_append with_staff_def Let_def)
  then show ?thesis unfolding Parse_def read using r(2) by (simp add: with_staff_def)
qed

lemma parseCredentials_append:
  assumes "parseCredentials bc s = Inr hs" "clean sid" "clean hash" "sid \<noteq> []" "hd sid \<noteq> CHR ''#''"
    and "map_of hs sid = None" "bc_is_hash bc hash"
  shows "parseCredentials bc (with_newline s @ (sid @ comma # hash) @ [lf]) = Inr (hs @ [(sid, hash)])"
proof -
  obtain header rows where r: "csv_read 2 (csv_lines s) = Some (header # rows)" "lowerAll header = [''id'', ''passwordhash'']"
    "credential_rows bc 0 rows [] = Inr hs"
    using assms(1) by (auto simp: parseCredentials_def split: option.splits list.splits sum.splits if_splits)
  have "csv_fields (sid @ comma # (hash @ [lf])) [] = Some ([sid, hash], [])"
    using assms(2,3) by (intro csv_fields_field csv_fields_last)
  then have "csv_fields ((sid @ comma # hash) @ [lf]) [] = Some ([sid, hash], [])" by simp
  then have read: "csv_read 2 (csv_lines (with_newline s @ (sid @ comma # hash) @ [lf]))
      = Some ((header # rows) @ [[sid, hash]])"
    by (rule csv_read_append [OF r(1)]) (use assms(2-5) clean_no_newline separators in auto)
  have "credential_rows bc 0 (rows @ [[sid, hash]]) [] = Inr (hs @ [(sid, hash)])"
    using assms(2-4,6,7) r(3) by (simp add: credential_rows_append Let_def)
  then show ?thesis unfolding parseCredentials_def read using r(2) by simp
qed

text \<open>What the password library promises of a hash it makes: its text, and that it fits the password.\<close>

definition bcrypt_documented :: "bcrypt \<Rightarrow> (string \<Rightarrow> go_error + string) \<Rightarrow> bool" where
  "bcrypt_documented bc generate \<longleftrightarrow>
     (\<forall>p h. generate p = Inr h \<longrightarrow> clean h \<and> bc_is_hash bc h \<and> bc_matches bc h p)"

lemma appendRow_ok:
  assumes "appendRow refused path row fs = (None, fs')"
  obtains s where "fs path = Some s" "fs' = fs(path \<mapsto> with_newline s @ row @ [lf])"
proof -
  obtain s where s: "fs path = Some s" using assms by (auto simp: appendRow_def split: option.splits)
  then have "fs' = fs(path \<mapsto> with_newline s @ row @ [lf])"
    using assms by (auto simp: appendRow_def write_string_def with_newline_def split: if_splits)
  then show thesis using that s by blast
qed

lemma devstaff_success:
  assumes "devstaff refused generate input fl fs = (None, fs')" "sf_staff_file fl \<noteq> sf_credentials_file fl"
  obtains dir s t password hash where "fs (sf_staff_file fl) = Some s" "fs (sf_credentials_file fl) = Some t"
    "Load_staff (Inr s) = Inr dir" "Lookup dir (sf_id fl) = None" "sf_id fl \<noteq> []"
    "readPassword input = Inr password" "8 \<le> length password" "generate password = Inr hash"
    "fs' = fs(sf_staff_file fl \<mapsto> with_newline s @ (sf_id fl @ comma # sf_name fl @ comma # sf_scopes fl) @ [lf],
               sf_credentials_file fl \<mapsto> with_newline t @ (sf_id fl @ comma # hash) @ [lf])"
proof -
  let ?row = "sf_id fl @ comma # sf_name fl @ comma # sf_scopes fl"
  obtain dir password hash fs1 where d: "Load_staff (read_file fs (sf_staff_file fl)) = Inr dir"
    "Lookup dir (sf_id fl) = None" "trim_space (sf_id fl) \<noteq> []" "readPassword input = Inr password"
    "\<not> length password < 8" "generate password = Inr hash"
    and rows: "appendRow refused (sf_staff_file fl) ?row fs = (None, fs1)"
      "appendRow refused (sf_credentials_file fl) (sf_id fl @ comma # hash) fs1 = (None, fs')"
    using assms(1) by (auto simp: devstaff_def split: if_splits sum.splits option.splits prod.splits)
  obtain s where s: "fs (sf_staff_file fl) = Some s" "fs1 = fs(sf_staff_file fl \<mapsto> with_newline s @ ?row @ [lf])"
    using rows(1) by (rule appendRow_ok)
  obtain t where "fs1 (sf_credentials_file fl) = Some t"
    "fs' = fs1(sf_credentials_file fl \<mapsto> with_newline t @ (sf_id fl @ comma # hash) @ [lf])"
    using rows(2) by (rule appendRow_ok)
  moreover have "trim_space [] = []" by code_simp
  then have "sf_id fl \<noteq> []" using d(3) by metis
  ultimately show thesis using that [of s t dir password hash] s d assms(2) by (simp add: read_file_def)
qed

lemma firstEntitled_ok:
  assumes "firstEntitled getenv fs = Inr sid"
  obtains dir s where "Load_staff (read_file fs (envOr getenv ''STAFF_FILE'' ''config/staff.csv'')) = Inr dir"
    "s \<in> set (order dir)" "ID s = sid" "ScopeQuoteGenerate \<in> set (Scopes s)"
  using assms that [OF _ nth_mem]
  by (auto simp: firstEntitled_def All_def find_Some_iff split: sum.splits option.splits)

text \<open>A run of \<open>devstaff\<close> that is refused before it writes.\<close>

lemma devstaff_refuses_duplicate:
  assumes "Load_staff (read_file fs (sf_staff_file fl)) = Inr dir" "Lookup dir (sf_id fl) \<noteq> None"
  shows "\<exists>err. devstaff refused generate input fl fs = (Some err, fs)"
  using assms by (auto simp: devstaff_def)

section \<open>Properties\<close>

text \<open>
  C29: what \<open>devstaff\<close> writes, the services read. After a success with plain values, both fixtures still
  load; the new id has the name and the scopes given, and signs in with the password typed; everybody else
  is who they were, with the passwords they had. It does not matter whether the files ended in a newline.
\<close>

theorem devstaff_adds:
  assumes "devstaff refused generate input fl fs = (None, fs')" "sf_staff_file fl \<noteq> sf_credentials_file fl"
    and "clean (sf_id fl)" "clean (sf_name fl)" "clean (sf_scopes fl)" "hd (sf_id fl) \<noteq> CHR ''#''"
    and "bcrypt_documented bc generate" "readPassword input = Inr password"
    and "Load_staff (read_file fs (sf_staff_file fl)) = Inr dir"
    and "NewFixtureAuth bc dir (read_file fs (sf_credentials_file fl)) = Inr a"
    and new: "new = \<lparr>ID = sf_id fl, Name = sf_name fl, Scopes = parseScopes (sf_scopes fl)\<rparr>"
  shows "\<exists>dir' a'. Load_staff (read_file fs' (sf_staff_file fl)) = Inr dir'
    \<and> NewFixtureAuth bc dir' (read_file fs' (sf_credentials_file fl)) = Inr a'
    \<and> Lookup dir' = (Lookup dir)(sf_id fl \<mapsto> new)
    \<and> fst (Authenticate_staff bc a' (sf_id fl) password) = Inr new
    \<and> (\<forall>sid pw. sid \<noteq> sf_id fl \<longrightarrow> fst (Authenticate_staff bc a' sid pw) = fst (Authenticate_staff bc a sid pw))"
proof -
  obtain dir0 s t password0 hash where f: "fs (sf_staff_file fl) = Some s" "fs (sf_credentials_file fl) = Some t"
    "Load_staff (Inr s) = Inr dir0" "Lookup dir0 (sf_id fl) = None" "sf_id fl \<noteq> []"
    "readPassword input = Inr password0" "8 \<le> length password0" "generate password0 = Inr hash"
    and fs': "fs' = fs(sf_staff_file fl \<mapsto> with_newline s @ (sf_id fl @ comma # sf_name fl @ comma # sf_scopes fl) @ [lf],
               sf_credentials_file fl \<mapsto> with_newline t @ (sf_id fl @ comma # hash) @ [lf])"
    by (rule devstaff_success [OF assms(1,2)])
  have same: "password0 = password" "dir0 = dir" using f(1,3,6) assms(8,9) by (simp_all add: read_file_def)
  have h: "clean hash" "bc_is_hash bc hash" "bc_matches bc hash password"
    using assms(7) f(8) unfolding bcrypt_documented_def same by blast+
  let ?dir = "with_staff dir new"
  have "Parse s = Inr dir" using assms(9) f(1) by (auto simp: read_file_def Load_staff_def split: sum.splits)
  moreover have "byID dir (sf_id fl) = None" using f(4) by (simp add: Lookup_def same)
  ultimately have "Parse (with_newline s @ (sf_id fl @ comma # sf_name fl @ comma # sf_scopes fl) @ [lf]) = Inr ?dir"
    unfolding new using assms(3-6) f(5) by (intro Parse_append)
  then have staff: "Load_staff (read_file fs' (sf_staff_file fl)) = Inr ?dir"
    using assms(2) by (simp add: fs' read_file_def Load_staff_def)
  have look: "Lookup ?dir = (Lookup dir)(sf_id fl \<mapsto> new)"
    by (auto simp: Lookup_def with_staff_def new fun_eq_iff)
  have pc: "parseCredentials bc t = Inr (fa_hash a)" "fa_staff a = dir"
    and in_dir: "(sid, hh) \<in> set (fa_hash a) \<Longrightarrow> Lookup dir sid \<noteq> None" for sid hh
    using assms(10) NewFixtureAuth_ok(3) [OF assms(10)] f(2)
    by (auto simp: read_file_def NewFixtureAuth_def split: sum.splits if_splits)
  have fresh: "map_of (fa_hash a) (sf_id fl) = None"
    using in_dir f(4) [unfolded same] map_of_SomeD not_None_eq by metis
  then have "parseCredentials bc (with_newline t @ (sf_id fl @ comma # hash) @ [lf]) = Inr (fa_hash a @ [(sf_id fl, hash)])"
    using pc(1) assms(3,6) h(1,2) f(5) by (intro parseCredentials_append)
  then have creds: "NewFixtureAuth bc ?dir (read_file fs' (sf_credentials_file fl))
      = Inr \<lparr>fa_staff = ?dir, fa_hash = fa_hash a @ [(sf_id fl, hash)]\<rparr>" (is "_ = Inr ?a")
    using in_dir by (auto simp: fs' read_file_def NewFixtureAuth_def look list_ex_iff)
  have "fst (Authenticate_staff bc ?a (sf_id fl) password) = Inr new"
    using fresh h(3) by (simp add: Authenticate_staff_def look map_add_def Let_def)
  moreover have "fst (Authenticate_staff bc ?a sid pw) = fst (Authenticate_staff bc a sid pw)" if "sid \<noteq> sf_id fl" for sid pw
    using that pc(2) by (simp add: Authenticate_staff_def look map_add_def Let_def split: option.split)
  ultimately show ?thesis using staff creds look by blast
qed

text \<open>
  The token \<open>devtoken\<close> prints without \<open>-sub\<close> is one the Middleware lets through with the same staff
  file: it verifies under the same key for its whole lifetime, names a staff member on file, and that member
  holds the quote scope; the scopes it requests are the words of \<open>-scope\<close>.
\<close>

theorem devtoken_is_entitled:
  assumes "jwt_documented j" "devtoken j (Some bs) now getenv fs [] scope ttl = Inr tok"
    and "Load_staff (read_file fs (envOr getenv ''STAFF_FILE'' ''config/staff.csv'')) = Inr dir"
    and "\<forall>s \<in> set (All dir). ascii (ID s)" "list_all ascii (Fields scope)"
    and "NewNumericDate now - leeway \<le> later" "later < NewNumericDate (now + ttl) + leeway"
  shows "\<exists>caller scopes. Verify j (NewVerifier (getenv ''BFF_MIDDLEWARE_SIGNING_KEY'') leeway) later tok = Inr caller
    \<and> Requested caller = Fields scope \<and> Lookup dir (Subject caller) \<noteq> None
    \<and> Granted dir c (Subject caller) = Inr scopes \<and> ScopeQuoteGenerate \<in> set scopes"
proof -
  obtain subject where sub: "firstEntitled getenv fs = Inr subject"
    and mint: "Mint j (Some bs) now (getenv ''BFF_MIDDLEWARE_SIGNING_KEY'') subject (Fields scope) ttl = Inr tok"
    using assms(2) by (auto simp: devtoken_def Let_def split: sum.splits if_splits)
  obtain s where s: "s \<in> set (order dir)" "ID s = subject" "ScopeQuoteGenerate \<in> set (Scopes s)"
    using sub assms(3) by (elim firstEntitled_ok) auto
  note rows = Load_staff_rows [OF assms(3)]
  have subject: "trim_space subject = subject" "subject \<noteq> []"
    using s rows by (auto simp: directory_ok_def)
  moreover have "ascii subject" using assms(4) s by (auto simp: All_def)
  ultimately obtain caller where caller: "Verify j (NewVerifier (getenv ''BFF_MIDDLEWARE_SIGNING_KEY'') leeway) later tok = Inr caller"
      "Subject caller = subject" "Requested caller = Fields scope"
    using minted_verifies [OF assms(1) mint _ assms(5), of leeway later] assms(6,7) by auto
  moreover have "byID dir subject = Some s" using directory_ok_lookup [OF rows(1)] s by blast
  ultimately show ?thesis using s(3) by (auto simp: Lookup_def Granted_def)
qed

section \<open>Examples\<close>

definition example_generate :: "string \<Rightarrow> go_error + string" where
  "example_generate p = (if p = ''swordfish'' then Inr ''$2a$swordfish'' else Inl (PlainError ''no entropy''))"

definition example_files :: files where
  "example_files = map_of
     [(''staff.csv'', ''id,name,scopes'' @ newline @ ''s-1,Ann,quote:generate''),
      (''credentials.csv'', ''id,passwordHash'' @ newline @ ''s-1,$2a$secret'' @ newline)]"

definition example_flags :: staff_flags where
  "example_flags = \<lparr>sf_id = ''s-2'', sf_name = ''Bo'', sf_scopes = ''quote:generate;x'',
     sf_staff_file = ''staff.csv'', sf_credentials_file = ''credentials.csv''\<rparr>"

lemma example_generate_documented: "bcrypt_documented example_bcrypt example_generate"
proof -
  have "clean ''$2a$swordfish''" by code_simp
  then show ?thesis by (simp add: bcrypt_documented_def example_generate_def example_bcrypt_def)
qed

abbreviation example_run :: "staff_flags \<Rightarrow> go_error option \<times> files" where
  "example_run fl \<equiv> devstaff (\<lambda>_ _. False) example_generate (Piped (''swordfish'' @ newline)) fl example_files"

lemma example_devstaff_run: "fst (example_run example_flags) = None"
  by code_simp

lemma example_before:
  obtains dir a where "Load_staff (read_file example_files ''staff.csv'') = Inr dir"
    "NewFixtureAuth example_bcrypt dir (read_file example_files ''credentials.csv'') = Inr a"
proof -
  have "case Load_staff (read_file example_files ''staff.csv'') of Inl _ \<Rightarrow> False
    | Inr dir \<Rightarrow> (case NewFixtureAuth example_bcrypt dir (read_file example_files ''credentials.csv'') of
        Inl _ \<Rightarrow> False | Inr _ \<Rightarrow> True)"
    by code_simp
  then show thesis using that by (auto split: sum.splits)
qed

theorem devstaff_adds_witness:
  "\<exists>dir' a' new. Load_staff (read_file (snd (example_run example_flags)) ''staff.csv'') = Inr dir'
     \<and> NewFixtureAuth example_bcrypt dir' (read_file (snd (example_run example_flags)) ''credentials.csv'') = Inr a'
     \<and> Lookup dir' ''s-2'' = Some new \<and> Name new = ''Bo'' \<and> Scopes new = [''quote:generate'', ''x'']
     \<and> fst (Authenticate_staff example_bcrypt a' ''s-2'' ''swordfish'') = Inr new"
proof -
  have run: "example_run example_flags = (None, snd (example_run example_flags))"
    using example_devstaff_run by (cases "example_run example_flags") simp
  obtain dir a where b: "Load_staff (read_file example_files (sf_staff_file example_flags)) = Inr dir"
    "NewFixtureAuth example_bcrypt dir (read_file example_files (sf_credentials_file example_flags)) = Inr a"
    using example_before by (auto simp: example_flags_def)
  have c: "clean (sf_id example_flags)" "clean (sf_name example_flags)" "clean (sf_scopes example_flags)"
    "sf_staff_file example_flags \<noteq> sf_credentials_file example_flags" "hd (sf_id example_flags) \<noteq> CHR ''#''"
    "readPassword (Piped (''swordfish'' @ newline)) = Inr ''swordfish''"
    "parseScopes (sf_scopes example_flags) = [''quote:generate'', ''x'']"
    by code_simp+
  from devstaff_adds [OF run c(4) c(1-3,5) example_generate_documented c(6) b refl] c(7)
  show ?thesis by (auto simp: example_flags_def)
qed

text \<open>
  The values have to be plain. The duplicate check looks the id up as typed, the parser trims it: with a
  space before an id that is taken, \<open>devstaff\<close> reports success and leaves a staff file that no longer loads.
\<close>

lemma devstaff_untrimmed_id:
  "fst (example_run (example_flags\<lparr>sf_id := '' s-1''\<rparr>)) = None
   \<and> (case Load_staff (read_file (snd (example_run (example_flags\<lparr>sf_id := '' s-1''\<rparr>))) ''staff.csv'') of
        Inl _ \<Rightarrow> True | Inr _ \<Rightarrow> False)"
  by code_simp

text \<open>The same for a quotation mark at the start of the scopes, which the CSV reader takes for a quoted field.\<close>

lemma devstaff_quoted_scopes:
  "fst (example_run (example_flags\<lparr>sf_scopes := [dquote]\<rparr>)) = None
   \<and> (case Load_staff (read_file (snd (example_run (example_flags\<lparr>sf_scopes := [dquote]\<rparr>))) ''staff.csv'') of
        Inl _ \<Rightarrow> True | Inr _ \<Rightarrow> False)"
  by code_simp

definition example_getenv :: "string \<Rightarrow> string" where
  "example_getenv k = (if k = ''STAFF_FILE'' then ''staff.csv'' else if k = ''BFF_MIDDLEWARE_SIGNING_KEY'' then ''key'' else [])"

theorem devtoken_is_entitled_witness:
  "\<exists>caller. devtoken example_jwt (Some example_bytes) (100 * second) example_getenv example_files [] ScopeQuoteGenerate (60 * second)
       = Inr ''token''
     \<and> Verify example_jwt (NewVerifier ''key'' (5 * second)) (164 * second) ''token'' = Inr caller
     \<and> Requested caller = [ScopeQuoteGenerate]"
proof -
  have run: "devtoken example_jwt (Some example_bytes) (100 * second) example_getenv example_files []
      ScopeQuoteGenerate (60 * second) = Inr ''token''"
    and env: "envOr example_getenv ''STAFF_FILE'' ''config/staff.csv'' = ''staff.csv''"
      "example_getenv ''BFF_MIDDLEWARE_SIGNING_KEY'' = ''key''" "Fields ScopeQuoteGenerate = [ScopeQuoteGenerate]"
      "list_all ascii [ScopeQuoteGenerate]"
    and time: "NewNumericDate (100 * second) - 5 * second \<le> 164 * second"
      "164 * second < NewNumericDate (100 * second + 60 * second) + 5 * second"
    and ids: "case Load_staff (read_file example_files ''staff.csv'') of Inl _ \<Rightarrow> False
      | Inr dir \<Rightarrow> list_all (\<lambda>s. ascii (ID s)) (All dir)"
    by code_simp+
  obtain dir where dir: "Load_staff (read_file example_files ''staff.csv'') = Inr dir"
    using example_before by blast
  then have "\<forall>s \<in> set (All dir). ascii (ID s)" using ids by (simp add: list_all_iff)
  from devtoken_is_entitled [OF example_documented run _ this _ time, unfolded env] env(4) dir run
  show ?thesis by blast
qed

end
