(* ===== verification/Contract.thy ===== *)
theory Contract
  imports Mesh Budget
begin

text \<open>
  The shape of what the Middleware answers: for any string at all, even one that is not text, the encoder
  writes a JSON string that the decoder takes whole, so every quote response is one well formed object.
\<close>

section \<open>Any string is encoded as one value\<close>

lemma scan_string_bytes:
  "list_all (\<lambda>c. 32 \<le> byte c \<and> byte c \<noteq> 34 \<and> byte c \<noteq> 92) u \<Longrightarrow>
    scan_bytes d InString st (u @ t) = prefixed u (scan_bytes d InString st t)"
proof (induction u)
  case Nil
  then show ?case by simp
next
  case (Cons c u)
  then have "json_step d InString st c = Goto InString st" by simp
  then show ?case using Cons by (simp add: scan_step_goto del: scan_bytes.simps)
qed

lemma hex_digit_is_hex: "k < 16 \<Longrightarrow> is_hex (hex_digit k)"
  by (auto simp: hex_digit_def is_hex_def is_digit_def byte_char_of)

lemma scan_hex:
  "is_hex c \<Longrightarrow> scan_bytes d (InStringHex (Suc k)) st (c # s) = prefixed [c] (scan_bytes d (InStringHex k) st s)"
  "is_hex c \<Longrightarrow> scan_bytes d (InStringHex 0) st (c # s) = prefixed [c] (scan_bytes d InString st s)"
  by (rule scan_step_goto, simp)+

lemma scan_backslash:
  "byte b = 92 \<Longrightarrow> scan_bytes d InString st (b # s) = prefixed [b] (scan_bytes d InStringEsc st s)"
  by (rule scan_step_goto) simp

lemma scan_escape_u:
  assumes "n < 65536"
  shows "scan_bytes d InString st (escape_u n @ t) = prefixed (escape_u n) (scan_bytes d InString st t)"
proof -
  have u: "scan_bytes d InStringEsc st (CHR ''u'' # s) = prefixed ''u'' (scan_bytes d (InStringHex (Suc (Suc (Suc 0)))) st s)"
    for s by (rule scan_step_goto) (simp add: numeral_3_eq_3)
  have h: "is_hex (hex_digit (n div 4096))" "is_hex (hex_digit (n div 256 mod 16))"
    "is_hex (hex_digit (n div 16 mod 16))" "is_hex (hex_digit (n mod 16))"
    using assms by (simp_all add: hex_digit_is_hex)
  have b: "bytes [92, 117] = [char_of (92 :: nat), CHR ''u'']" by code_simp
  have "byte (char_of (92 :: nat)) = 92" by (simp add: byte_char_of)
  then show ?thesis
    by (simp add: escape_u_def b scan_backslash u scan_hex h del: scan_bytes.simps)
qed

lemma scan_short_escape:
  assumes "byte b = 92" "byte c \<in> {98, 102, 110, 114, 116, 92, 47, 34}"
  shows "scan_bytes d InString st ([b, c] @ t) = prefixed [b, c] (scan_bytes d InString st t)"
proof -
  have "c \<noteq> CHR ''u''" using assms(2) by (auto simp: byte_def)
  then have "json_step d InStringEsc st c = Goto InString st" using assms(2) by simp
  then show ?thesis using assms(1) by (simp add: scan_backslash scan_step_goto del: scan_bytes.simps)
qed

lemma scan_escape_byte:
  assumes "byte c < 128"
  shows "scan_bytes d InString st (escape_byte c @ t) = prefixed (escape_byte c) (scan_bytes d InString st t)"
proof -
  have e: "\<exists>b x. bytes [92, n] = [b, x] \<and> byte b = 92 \<and> byte x = n" if "n < 256" for n
    using that by (simp add: bytes_def byte_char_of)
  have short: "scan_bytes d InString st (bytes [92, n] @ t) = prefixed (bytes [92, n]) (scan_bytes d InString st t)"
    if "n \<in> {98, 102, 110, 114, 116}" for n
    using e [of n] that scan_short_escape by fastforce
  have "scan_bytes d InString st ([char_of (92 :: nat), c] @ t) = prefixed [char_of (92 :: nat), c] (scan_bytes d InString st t)"
    if "byte c = 34 \<or> byte c = 92"
    using that by (intro scan_short_escape) (auto simp: byte_char_of)
  moreover have "scan_bytes d InString st ([c] @ t) = prefixed [c] (scan_bytes d InString st t)"
    if "32 \<le> byte c" "byte c \<noteq> 34" "byte c \<noteq> 92"
    using that by (intro scan_string_bytes) simp
  ultimately show ?thesis
    using short scan_escape_u [of "byte c" d st t] assms unfolding escape_byte_def Let_def by auto
qed

lemma utf8_bytes_high:
  assumes "128 \<le> byte (hd s)" "c \<in> set (take (utf8_size s) s)"
  shows "128 \<le> byte c"
proof -
  obtain i where i: "i < utf8_size s" "i < length s" "c = s ! i" using assms(2) by (auto simp: in_set_conv_nth)
  have "i = 0 \<or> 128 \<le> byte (s ! i)"
    using i(1) assms(1) by (auto simp: utf8_size_def in_range_def Let_def less_Suc_eq numeral_eq_Suc split: if_splits)
  then show ?thesis using assms(1) i by (cases s) auto
qed

lemma scan_escaped:
  "scan_bytes d InString st (escape s @ t) = prefixed (escape s) (scan_bytes d InString st t)"
proof (induction s arbitrary: t rule: escape.induct)
  case (1 s)
  show ?case
  proof (cases s)
    case Nil
    then show ?thesis by (simp add: escape.simps [of "[]"])
  next
    case (Cons c r)
    have high: "list_all (\<lambda>c. 32 \<le> byte c \<and> byte c \<noteq> 34 \<and> byte c \<noteq> 92) (take (utf8_size s) s)" if "\<not> byte c < 128"
      using utf8_bytes_high [of s] that Cons by (fastforce simp: list_all_iff)
    show ?thesis
      using "1.IH" Cons high scan_escape_u scan_escape_byte [of c]
      by (auto simp: escape.simps [of "c # r"] scan_string_bytes del: scan_bytes.simps)
  qed
qed

lemma closed_json_string: "closed_value 0 (json_string s)"
proof -
  have "json_step d BeginValue st (char_of (34 :: nat)) = Goto InString st" for d st
    unfolding quote_char by (simp add: begin_value_def json_space_def byte_def)
  moreover have "scan_bytes d InString st (char_of (34 :: nat) # r) = prefixed [char_of (34 :: nat)] (Envelope.finish d st r)" for d st r
    by (rule scan_step_done) (simp add: byte_quote)
  ultimately have "scan_bytes d BeginValue st (json_string s @ r) = prefixed (json_string s) (Envelope.finish d st r)" for d st r
    by (simp add: json_string_def scan_escaped scan_step_goto del: scan_bytes.simps)
  then show ?thesis by (simp add: closed_value_def json_string_def skip_space_plain)
qed

section \<open>Any decimal is one value\<close>

lemma take_negative:
  assumes "is_digit x" "take_value d (x # u) = Some (x # v, r)"
  shows "take_value d (CHR ''-'' # x # u) = Some (CHR ''-'' # x # v, r)"
proof -
  have "json_step d BeginValue [] CHR ''-'' = Goto Neg []"
    by (simp add: begin_value_def json_space_def byte_def)
  then have minus: "scan_bytes d BeginValue [] (CHR ''-'' # t) = prefixed ''-'' (scan_bytes d Neg [] t)" for t
    by (rule scan_step_goto)
  have "json_step d Neg [] x = json_step d BeginValue [] x"
    using assms(1) begin_digit [of x d] by (cases "x = CHR ''0''") simp_all
  then have "scan_bytes d Neg [] (x # u) = scan_bytes d BeginValue [] (x # u)" by (simp only: scan_bytes.simps)
  then show ?thesis using assms(2) by (simp add: take_value_def minus del: scan_bytes.simps)
qed

lemma member_value_any_decimal:
  assumes "0 < p"
  shows "member_value (decimal_text n p)"
proof (cases "0 \<le> n")
  case True
  then show ?thesis using assms by (rule member_value_decimal)
next
  case False
  obtain x v where x: "decimal_text (- n) p = x # v" "is_digit x"
    using decimal_text_ends [of "- n" p] assms False by (cases "decimal_text (- n) p") auto
  then have neg: "decimal_text n p = CHR ''-'' # x # v" using False by (simp add: decimal_text_def)
  have "take_value d ((CHR ''-'' # x # v) @ c # r) = Some (CHR ''-'' # x # v, c # r)" if "ends_member c" for d c r
    using take_decimal_text [of "- n" p c d r] that assms False x by (simp add: take_negative)
  then show ?thesis by (simp add: neg member_value_def skip_space_def json_space_def byte_def)
qed

section \<open>What the Middleware writes\<close>

definition quote_members :: "string \<Rightarrow> int \<Rightarrow> int \<Rightarrow> (string \<times> string) list" where
  "quote_members qid u a =
     [(''quoteId'', json_string qid), (''commissionRate'', decimal_text u 4), (''totalCommission'', decimal_text a 2)]"

lemma quote_body_members: "\<exists>u a. object_members (encode_quote q @ newline) = Some (quote_members (QuoteID q) u a)"
proof -
  let ?u = "\<lfloor>Rate_rat (CommissionRate q) * 10 ^ 4 + 1 / 2\<rfloor>" and ?a = "\<lfloor>Amount_rat (TotalCommission q) * 10 ^ 2 + 1 / 2\<rfloor>"
  have "encode_quote q = json_object (quote_members (QuoteID q) ?u ?a)"
    by (simp add: encode_quote_def quote_members_def Rate_MarshalJSON_def Amount_MarshalJSON_def Rate_String_def
        Amount_String_def ratePlaces_def amountPlaces_def format_money_text)
  moreover have "list_all good_member (quote_members (QuoteID q) ?u ?a)"
    using member_value_closed [OF closed_json_string]
    by (simp add: quote_members_def good_member_def plain_keys member_value_any_decimal)
  moreover have "skip_space newline = []" by code_simp
  moreover have "quote_members (QuoteID q) ?u ?a \<noteq> []" by (simp add: quote_members_def)
  ultimately show ?thesis using object_members_text by metis
qed

lemma tells_envelope:
  assumes "tells cid error_classes resp" "safe_id cid"
  shows "\<exists>en. decode_envelope (resp_body resp) = Some en \<and> en_Code en \<noteq> [] \<and> en_CorrelationID en = cid
    \<and> resp_status resp \<noteq> 200"
proof -
  obtain h where h: "public_part h \<in> public_part ` set error_classes" "list_all known_detail (Details h)"
    "resp_status resp = Status h"
    "resp_body resp = encode_envelope (Code h) (Message h) (Details h) cid @ newline"
    using assms(1) unfolding tells_def by blast
  have "skip_space newline = []" by code_simp
  moreover have "list_all plain_detail (Details h)"
    using h(2) known_detail_plain by (auto simp: list_all_iff)
  ultimately show ?thesis
    using class_texts [OF h(1)] safe_id_plain [OF assms(2)] h(3,4) by (simp add: decode_encode_envelope)
qed

lemma WriteError_json: "json_content_type \<in> set (resp_headers (WriteError cid err))"
  by (simp add: WriteError_def WriteJSON_def Let_def)

lemma preset_keeps: "h \<in> set (resp_headers resp) \<Longrightarrow> h \<in> set (resp_headers (preset_header k v resp))"
  by (simp add: preset_header_def)

lemma tells_internal: "tells cid error_classes (WriteError cid (HttpxError (Internal None)))"
proof (rule tells_WriteError)
  show "errors_as (HttpxError (Internal None)) = Some (Internal None)" by simp
  show "public_part (Internal None) \<in> public_part ` set error_classes"
    by (simp add: error_classes_def upstream_classes_def)
qed (simp_all add: Internal_def)

text \<open>Whatever happens, a panic included: a quote, or the public part of an error, as JSON.\<close>

lemma router_writes:
  assumes "quote_post r"
  shows "\<exists>resp s'. NewRouter e j d cfg (Granted dir) c r s = (Some resp, s')
    \<and> json_content_type \<in> set (resp_headers resp)
    \<and> (resp_status resp = 200 \<and> (\<exists>q. resp_body resp = encode_quote q @ newline)
       \<or> tells (correlation_id d r) error_classes resp)"
proof -
  let ?c = "inner_ctx d cfg c r s"
  let ?q = "quote_chain j cfg (Granted dir) (resilient e cfg) ?c r s"
  have eq: "NewRouter e j d cfg (Granted dir) c r s = Middleware.finish d r ?q"
    by (simp add: NewRouter_def router_eq mux_quotes [OF assms])
  have refused: "tells (correlation_id d r) error_classes (WriteError (correlation_id d r) (HttpxError (refusal j cfg (Granted dir) ?c r s)))"
    by (rule tells_mono [OF tells_refusal]) (simp add: error_classes_def)
  show ?thesis
  proof (cases "\<exists>caller req. verified j cfg r s caller \<and> entitled (Granted dir) (WithCaller caller ?c) caller
      \<and> acceptable r req")
    case False
    then show ?thesis
      using refused by (auto simp: eq quote_chain_shut Middleware.finish_def tells_preset intro!: preset_keeps WriteError_json)
  next
    case True
    then obtain caller req where o: "verified j cfg r s caller"
      "entitled (Granted dir) (WithCaller caller ?c) caller" "acceptable r req" by blast
    obtain out s' where v: "resilient e cfg (WithCaller caller ?c) req (receive_body r s) = (out, s')" by fastforce
    show ?thesis
    proof (cases out)
      case None
      then show ?thesis unfolding eq quote_chain_through [OF o] v
        by (auto simp: Middleware.finish_def tells_preset tells_internal intro!: preset_keeps WriteError_json)
    next
      case (Some res)
      show ?thesis
      proof (cases res)
        case (Inl err)
        then have "upstream_error err"
          using resilient_status [of e cfg "WithCaller caller ?c" req "receive_body r s" err] v Some by simp
        then have "tells (correlation_id d r) error_classes (WriteError (correlation_id d r) err)"
          using tells_mono [OF tells_upstream] by (simp add: error_classes_def)
        then show ?thesis unfolding eq quote_chain_through [OF o] v Some Inl
          by (auto simp: respond_def Middleware.finish_def tells_preset intro!: preset_keeps WriteError_json)
      next
        case (Inr quote)
        then show ?thesis unfolding eq quote_chain_through [OF o] v Some
          by (auto simp: respond_def Middleware.finish_def WriteJSON_def intro!: preset_keeps)
      qed
    qed
  qed
qed

section \<open>Property\<close>

text \<open>
  C10: the type of an answer. Whatever the request, the vendor and the configuration, even a vendor that
  answers with bytes that are not text and even when the handler panics, a quote request gets a response
  declared as JSON whose body is one JSON object: with status 200 exactly the three members of a quote, a
  string, a rate with four decimals and an amount with two; with any other status an error envelope the
  BFF's decoder reads, with a code and the request's correlation id.
\<close>

theorem answers_are_typed:
  assumes "rq_method r = ''POST''" "rq_path r = ''/v1/quotes''" "safe_id (correlation_id d r)"
  shows "\<exists>resp s'. NewRouter e j d cfg (Granted dir) c r s = (Some resp, s')
    \<and> json_content_type \<in> set (resp_headers resp)
    \<and> (if resp_status resp = 200
       then \<exists>qid u a. object_members (resp_body resp) = Some (quote_members qid u a)
       else \<exists>en. decode_envelope (resp_body resp) = Some en \<and> en_Code en \<noteq> [] \<and> en_CorrelationID en = correlation_id d r)"
proof -
  have "quote_post r" using assms(1,2) by (simp add: quote_post_def)
  then obtain resp s' where resp: "NewRouter e j d cfg (Granted dir) c r s = (Some resp, s')"
    "json_content_type \<in> set (resp_headers resp)"
    and body: "resp_status resp = 200 \<and> (\<exists>q. resp_body resp = encode_quote q @ newline)
      \<or> tells (correlation_id d r) error_classes resp"
    using router_writes by blast
  from body have "if resp_status resp = 200
       then \<exists>qid u a. object_members (resp_body resp) = Some (quote_members qid u a)
       else \<exists>en. decode_envelope (resp_body resp) = Some en \<and> en_Code en \<noteq> [] \<and> en_CorrelationID en = correlation_id d r"
    using quote_body_members tells_envelope [OF _ assms(3)] by (auto; metis)
  with resp show ?thesis by blast
qed

theorem answers_are_typed_witness:
  "\<exists>resp s'. NewRouter stalling_env example_jwt example_draws example_config (Granted example_dir) background
      example_post example_server = (Some resp, s') \<and> json_content_type \<in> set (resp_headers resp)"
proof -
  have p: "rq_method example_post = ''POST''" "rq_path example_post = ''/v1/quotes''"
    by (simp_all add: example_post_def)
  have "safe_id (correlation_id example_draws example_post)" by code_simp
  from answers_are_typed [OF p this] show ?thesis by blast
qed

end
