(* ===== verification/Handlerlog.thy ===== *)
theory Handlerlog
  imports Mesh Budget Logging
begin

text \<open>
  What the services log while they handle a request. The other theories model handlers without their log calls;
  here every function on a request's way that has a logger is given again with its calls of it, on the state of the service
  together with the lines written so far, and is shown to agree with the silent one: same result, same state,
  nothing erased from the log, and no line that could be taken for the request's own. One lemma per
  function, composed as the functions are.

  Of each call the model has the level, the message and the attributes in order, except \<open>cause\<close>, which is
  the text of an error; error texts are not modelled anywhere. Lines about a response that could not be encoded
  or written are left out with those failures.
\<close>

section \<open>A service and its log\<close>

record log_entry =
  ln_level :: int
  ln_message :: string
  ln_attrs :: "(string list \<times> attr_value) list"

record 's logged =
  al_state :: 's
  al_lines :: "log_entry list"

definition logged_clock :: "('s \<Rightarrow> instant) \<Rightarrow> 's logged \<Rightarrow> instant" where
  "logged_clock clock s = clock (al_state s)"

text \<open>
  What a logger is made of: the trace ids of a context, the bound attributes and level, and the call site of the
  call with a given message; and what a recovered panic is described by.
\<close>

record log_setup =
  ls_traceIDs :: "ctx \<Rightarrow> string \<times> string"
  ls_logger :: logger
  ls_site :: "string \<Rightarrow> frame"
  ls_panic :: string
  ls_stack :: string

definition emit :: "log_setup \<Rightarrow> ctx \<Rightarrow> int \<Rightarrow> string \<Rightarrow> attr list \<Rightarrow> 's logged \<Rightarrow> 's logged" where
  "emit ls c level msg attrs s =
     (case log_line (ls_traceIDs ls) (ls_logger ls) c
         \<lparr>lr_level = level, lr_message = msg, lr_attrs = attrs, lr_frame = ls_site ls msg\<rparr> of
        None \<Rightarrow> s
      | Some line \<Rightarrow> s\<lparr>al_lines := al_lines s @ [\<lparr>ln_level = level, ln_message = msg, ln_attrs = line\<rparr>]\<rparr>)"

text \<open>Work on a part of the state, with the one log.\<close>

definition on_part :: "('s \<Rightarrow> 't) \<Rightarrow> ('t \<Rightarrow> 's \<Rightarrow> 's) \<Rightarrow> ('t logged \<Rightarrow> 'a \<times> 't logged) \<Rightarrow> 's logged \<Rightarrow> 'a \<times> 's logged" where
  "on_part get put act s =
     (case act \<lparr>al_state = get (al_state s), al_lines = al_lines s\<rparr> of
        (out, t) \<Rightarrow> (out, \<lparr>al_state = put (al_state t) (al_state s), al_lines = al_lines t\<rparr>))"

definition reqCompleted :: string where "reqCompleted = ''request completed''"

section \<open>Errors\<close>

text \<open>\<open>WriteError\<close> with a logger: the record, and the response after it.\<close>

definition log_error :: "log_setup \<Rightarrow> ctx \<Rightarrow> go_error \<Rightarrow> 's logged \<Rightarrow> 's logged" where
  "log_error ls c err s =
     (let e = (case errors_as err of Some e \<Rightarrow> e | None \<Rightarrow> Internal (Some err));
          attrs = [(''code'', StringAttr (Code e)), (''status'', IntAttr (Status e))]
      in if Status e \<ge> 500 then emit ls c LevelError ''request failed'' attrs s
         else emit ls c LevelWarn ''request rejected'' attrs s)"

definition logged_WriteError :: "log_setup \<Rightarrow> ctx \<Rightarrow> go_error \<Rightarrow> 's logged \<Rightarrow> response option \<times> 's logged" where
  "logged_WriteError ls c err s = respond (WriteError (ctx_correlation c) err) (log_error ls c err s)"

section \<open>The vendor client\<close>

definition log_transportError :: "log_setup \<Rightarrow> ctx \<Rightarrow> instant \<Rightarrow> go_error \<Rightarrow> 's logged \<Rightarrow> 's logged" where
  "log_transportError ls c now err s =
     (if errors_is DeadlineExceeded err \<or> ctx_err c now = Some DeadlineExceeded
      then emit ls c LevelError ''vendor call timed out'' [] s
      else if errors_is Canceled err then s
      else emit ls c LevelError ''vendor call failed'' [] s)"

definition peek :: "wire_response \<Rightarrow> string" where
  "peek resp = (case ws_body resp of Inl _ \<Rightarrow> [] | Inr body \<Rightarrow> trim_space (take 512 body))"

definition log_translate :: "log_setup \<Rightarrow> VendorClient \<Rightarrow> ctx \<Rightarrow> wire_response \<Rightarrow> 's logged \<Rightarrow> 's logged" where
  "log_translate ls cl c resp s =
     (let code = ws_status resp in
      if code = 201 then
        (case ws_body resp of
           Inl _ \<Rightarrow> s
         | Inr body \<Rightarrow>
             (case decode_vendorQuote (take maxVendorBody body) of
                None \<Rightarrow> emit ls c LevelError ''vendor response is not valid JSON'' [] s
              | Some _ \<Rightarrow> s))
      else if code = 429 then
        emit ls c LevelWarn ''vendor rate limited us'' [(''retryAfterSeconds'', IntAttr (whole_seconds (retryAfter resp)))] s
      else if code = 502 \<or> code = 503 \<or> code = 504 then
        emit ls c LevelWarn ''vendor unavailable'' [(''vendorStatus'', IntAttr code)] s
      else if code = 401 \<or> code = 403 then
        emit ls c LevelError ''vendor rejected our credential''
          [(''vendorStatus'', IntAttr code), (''apiKey'', StringAttr (Mask (vc_apiKey cl)))] s
      else if code = 400 then
        emit ls c LevelError ''vendor rejected a request we accepted, validation has drifted''
          [(''vendorBody'', StringAttr (peek resp))] s
      else emit ls c LevelError ''vendor returned an unexpected status'' [(''vendorStatus'', IntAttr code)] s)"

type_synonym 'a logged_source = "ctx \<Rightarrow> QuoteRequest \<Rightarrow> world logged \<Rightarrow> 'a \<times> world logged"

definition logged_VendorClient :: "log_setup \<Rightarrow> env \<Rightarrow> VendorClient \<Rightarrow> (go_error + Quote) logged_source" where
  "logged_VendorClient ls e cl c req s =
     (let body = vendor_request_body req in
      case env_join_path e (vc_baseURL cl) ''/v1/quotes'' of
        None \<Rightarrow> (Inl (HttpxError (Internal (Some (PlainError ''build vendor url'')))), s)
      | Some endpoint \<Rightarrow>
          if \<not> env_request_ok e endpoint then
            (Inl (HttpxError (Internal (Some (PlainError ''build vendor request'')))), s)
          else
            (case http_do e (vc_timeout cl) c
                \<lparr>wr_url = endpoint, wr_headers = vendor_headers cl c, wr_body = body\<rparr> (al_state s) of
               (NoResponse err, w) \<Rightarrow>
                 (Inl (transportError c (w_clock w) err), log_transportError ls c (w_clock w) err (s\<lparr>al_state := w\<rparr>))
             | (Response resp, w) \<Rightarrow> (translate resp, log_translate ls cl c resp (s\<lparr>al_state := w\<rparr>))))"

section \<open>The retrier and the breaker\<close>

definition in_ms :: "duration \<Rightarrow> int" where "in_ms d = d sdiv millisecond"

function logged_retry_loop ::
  "log_setup \<Rightarrow> env \<Rightarrow> (go_error + Quote) logged_source \<Rightarrow> RetryConfig \<Rightarrow> ctx \<Rightarrow> QuoteRequest \<Rightarrow> int \<Rightarrow> go_error option
    \<Rightarrow> world logged \<Rightarrow> (go_error + Quote) \<times> world logged" where
  "logged_retry_loop ls e nxt cfg c req attempt lastErr s =
     (if attempt > Attempts cfg then (give_up lastErr, s)
      else (case nxt c req s of
          (Inr quote, s1) \<Rightarrow>
            (Inr quote, if attempt > 1
               then emit ls c LevelInfo ''vendor call succeeded after retrying'' [(''attempt'', IntAttr attempt)] s1
               else s1)
        | (Inl err, s1) \<Rightarrow>
            if \<not> errors_is ErrTransient err then (Inl err, s1)
            else if attempt = Attempts cfg then (give_up (Some err), s1)
            else (case backoff e cfg attempt err (al_state s1) of (delay, w2) \<Rightarrow>
              (let s2 = s1\<lparr>al_state := w2\<rparr>;
                   attrs = [(''attempt'', IntAttr attempt), (''delayMs'', IntAttr (in_ms delay))]
               in if \<not> worthWaiting c delay (w_clock w2)
                  then (give_up (Some err), emit ls c LevelWarn ''abandoning retries, budget exhausted'' attrs s2)
                  else (let s3 = emit ls c LevelWarn ''retrying vendor call'' attrs s2 in
                    case sleepCtx c delay (al_state s3) of
                      (Some _, w4) \<Rightarrow> (give_up (Some err), s3\<lparr>al_state := w4\<rparr>)
                    | (None, w4) \<Rightarrow>
                        logged_retry_loop ls e nxt cfg c req (attempt + 1) (Some err) (s3\<lparr>al_state := w4\<rparr>))))))"
  by pat_completeness auto
termination
  by (relation "measure (\<lambda>(ls, e, nxt, cfg, c, req, attempt, lastErr, s). nat (Attempts cfg + 1 - attempt))") auto

declare logged_retry_loop.simps [simp del]

definition logged_Retrier ::
  "log_setup \<Rightarrow> env \<Rightarrow> (go_error + Quote) logged_source \<Rightarrow> RetryConfig \<Rightarrow> (go_error + Quote) logged_source" where
  "logged_Retrier ls e nxt cfg c req s = logged_retry_loop ls e nxt cfg c req 1 None s"

text \<open>What \<open>record\<close> logs, on the breaker as the call left it.\<close>

definition log_record_outcome ::
  "log_setup \<Rightarrow> BreakerConfig \<Rightarrow> ctx \<Rightarrow> go_error option \<Rightarrow> Breaker \<Rightarrow> 's logged \<Rightarrow> 's logged" where
  "log_record_outcome ls cfg c err b s =
     (let request_fault = (case err of None \<Rightarrow> False | Some x \<Rightarrow> errors_is ErrRequestFault x);
          failed = (err \<noteq> None)
      in if request_fault then s
         else (case brk_state b of
             halfOpen \<Rightarrow>
               if failed then emit ls c LevelWarn ''probe failed, reopening the circuit'' [] s
               else if successes b + 1 \<ge> Probes cfg
               then emit ls c LevelInfo ''vendor recovered, closing the circuit'' [] s else s
           | closed \<Rightarrow>
               (case slide cfg (outcomes b @ [failed]) of
                  None \<Rightarrow> s
                | Some os \<Rightarrow>
                    if shouldTrip cfg os
                    then emit ls c LevelError ''vendor failure rate exceeded the threshold, opening the circuit''
                      [(''samples'', IntAttr (int (length os))), (''threshold'', FloatAttr (Threshold cfg))] s
                    else s)
           | open_state \<Rightarrow> s))"

definition logged_Breaker ::
  "log_setup \<Rightarrow> (go_error + Quote) logged_source \<Rightarrow> BreakerConfig \<Rightarrow> ctx \<Rightarrow> QuoteRequest \<Rightarrow> server logged
    \<Rightarrow> (go_error + Quote) option \<times> server logged" where
  "logged_Breaker ls nxt cfg c req s =
     (case reject cfg (server_clock (al_state s)) (sv_brk (al_state s)) of
        (Some retry_after, b1) \<Rightarrow>
          (Some (Inl (circuitOpen retry_after)),
           emit ls c LevelWarn ''circuit open, not calling the vendor''
             [(''retryAfterSeconds'', IntAttr (whole_seconds retry_after))]
             (s\<lparr>al_state := (al_state s)\<lparr>sv_brk := b1\<rparr>\<rparr>))
      | (None, b1) \<Rightarrow>
          (case on_part sv_world (\<lambda>w t. t\<lparr>sv_world := w\<rparr>) (nxt c req) (s\<lparr>al_state := (al_state s)\<lparr>sv_brk := b1\<rparr>\<rparr>) of
             (r, s1) \<Rightarrow>
               (let err = (case r of Inl err \<Rightarrow> Some err | Inr _ \<Rightarrow> None) in
                case record_outcome cfg err (server_clock (al_state s1)) b1 of
                  (b2, panicked) \<Rightarrow>
                    (if panicked then None else Some r,
                     log_record_outcome ls cfg c err b1 (s1\<lparr>al_state := (al_state s1)\<lparr>sv_brk := b2\<rparr>\<rparr>)))))"

definition logged_resilient ::
  "log_setup \<Rightarrow> env \<Rightarrow> Config \<Rightarrow> ctx \<Rightarrow> QuoteRequest \<Rightarrow> server logged \<Rightarrow> (go_error + Quote) option \<times> server logged" where
  "logged_resilient ls e cfg =
     logged_Breaker ls (logged_Retrier ls e (logged_VendorClient ls e (vendor_client cfg)) (cfg_Retry cfg)) (cfg_Breaker cfg)"

section \<open>The Middleware\<close>

definition logged_Authenticate :: "log_setup \<Rightarrow> ('s \<Rightarrow> string \<Rightarrow> go_error + Caller) \<Rightarrow> 's logged middleware" where
  "logged_Authenticate ls verify next c r s =
     (case bearerToken r of
        Inl err \<Rightarrow> logged_WriteError ls c (HttpxError (Unauthenticated (Some err))) s
      | Inr raw \<Rightarrow>
          (case verify (al_state s) raw of
             Inl err \<Rightarrow> logged_WriteError ls c (HttpxError (Unauthenticated (Some err))) s
           | Inr caller \<Rightarrow> next (WithCaller caller c) r s))"

definition logged_Authorise ::
  "log_setup \<Rightarrow> (ctx \<Rightarrow> string \<Rightarrow> go_error + string list) \<Rightarrow> string \<Rightarrow> 's logged middleware" where
  "logged_Authorise ls granted scope next c r s =
     (case CallerFrom c of
        None \<Rightarrow> logged_WriteError ls c
          (HttpxError (Internal (Some (PlainError ''authorise ran without authenticate'')))) s
      | Some caller \<Rightarrow>
          (let attrs = [(''staffId'', StringAttr (Subject caller)), (''required'', StringAttr scope)] in
           if \<not> contains (Requested caller) scope
           then logged_WriteError ls c (HttpxError (Forbidden (Some (PlainError ''scope not requested''))))
             (emit ls c LevelWarn ''caller did not request the required scope'' attrs s)
           else (case Allows granted c (Subject caller) scope of
               Inl err \<Rightarrow> logged_WriteError ls c (HttpxError (Internal (Some err))) s
             | Inr False \<Rightarrow> logged_WriteError ls c (HttpxError (Forbidden (Some (PlainError ''scope not granted''))))
                 (emit ls c LevelWarn ''caller is not entitled to the requested scope'' attrs s)
             | Inr True \<Rightarrow> next c r s)))"

definition no_caller :: Caller where
  "no_caller = \<lparr>Subject = [], TokenID = [], Requested = []\<rparr>"

definition logged_Handler_Quote ::
  "log_setup \<Rightarrow> (ctx \<Rightarrow> QuoteRequest \<Rightarrow> server logged \<Rightarrow> (go_error + Quote) option \<times> server logged)
    \<Rightarrow> server logged handler" where
  "logged_Handler_Quote ls vendor c r s =
     (let s1 = s\<lparr>al_state := receive_body r (al_state s)\<rparr> in
      case read_body maxRequestBody r of
        Inl err \<Rightarrow> logged_WriteError ls c (HttpxError (Malformed (Some err))) s1
      | Inr body \<Rightarrow>
          (case Validate body of
             None \<Rightarrow> (None, s1)
           | Some (req, fieldErrors) \<Rightarrow>
               if fieldErrors \<noteq> [] then logged_WriteError ls c (HttpxError (Validation fieldErrors)) s1
               else
                 (let caller = (case CallerFrom c of Some caller \<Rightarrow> caller | None \<Rightarrow> no_caller);
                      s2 = emit ls c LevelInfo ''quote requested''
                        [(''staffId'', StringAttr (Subject caller)), (''jti'', StringAttr (TokenID caller)),
                         (''loanAmount'', StringAttr (Amount_String (req_Amount req))),
                         (''loanTermInMonths'', IntAttr (req_Months req)), (''riskBand'', StringAttr (req_RiskBand req))] s1
                  in case vendor c req s2 of
                       (None, s3) \<Rightarrow> (None, s3)
                     | (Some (Inl err), s3) \<Rightarrow> logged_WriteError ls c err s3
                     | (Some (Inr quote), s3) \<Rightarrow>
                         respond (WriteJSON 200 (encode_quote quote)) (emit ls c LevelInfo ''quote returned''
                           [(''staffId'', StringAttr (Subject caller)), (''quoteId'', StringAttr (QuoteID quote)),
                            (''commissionRate'', StringAttr (Rate_String (CommissionRate quote)))] s3))))"

definition logged_middleware_mux ::
  "log_setup \<Rightarrow> env \<Rightarrow> jwt \<Rightarrow> Config \<Rightarrow> (ctx \<Rightarrow> string \<Rightarrow> go_error + string list) \<Rightarrow> server logged handler" where
  "logged_middleware_mux ls e j cfg granted =
     Mux [\<lparr>rt_method = ''GET'', rt_path = ''/healthz'', rt_handler = Health\<rparr>,
          \<lparr>rt_method = ''POST'', rt_path = ''/v1/quotes'', rt_handler =
             Chain (logged_Handler_Quote ls (logged_resilient ls e cfg))
               [logged_Authenticate ls (\<lambda>s raw. Verify j (NewVerifier (SigningKey cfg) (ClockSkew cfg)) (server_clock s) raw),
                logged_Authorise ls granted ScopeQuoteGenerate]\<rparr>]"

section \<open>The BFF\<close>

text \<open>A handler without a log call of its own.\<close>

definition silent :: "'s handler \<Rightarrow> 's logged handler" where
  "silent h c r s = (case h c r (al_state s) of (out, t) \<Rightarrow> (out, s\<lparr>al_state := t\<rparr>))"

definition log_rewrite :: "log_setup \<Rightarrow> ctx \<Rightarrow> int \<Rightarrow> string \<Rightarrow> 's logged \<Rightarrow> 's logged" where
  "log_rewrite ls c status raw s =
     (let unrecognised = emit ls c LevelError ''middleware response was not the error envelope''
            [(''middlewareStatus'', IntAttr status)] s
      in case decode_envelope raw of
        None \<Rightarrow> unrecognised
      | Some env \<Rightarrow>
          if en_Code env = [] then unrecognised
          else if status = 401 then emit ls c LevelError ''the middleware rejected our token''
            [(''middlewareCode'', StringAttr (en_Code env))] s
          else s)"

definition log_relay :: "log_setup \<Rightarrow> ctx \<Rightarrow> reply \<Rightarrow> 's logged \<Rightarrow> 's logged" where
  "log_relay ls c rp s =
     (case rp of
        NoResponse err \<Rightarrow>
          if errors_is DeadlineExceeded err then emit ls c LevelError ''middleware call timed out'' [] s
          else emit ls c LevelError ''middleware call failed'' [] s
      | Response resp \<Rightarrow>
          (case ws_body resp of
             Inl err \<Rightarrow> s
           | Inr body \<Rightarrow>
               if ws_status resp = 200 then s else log_rewrite ls c (ws_status resp) (take maxBody body) s))"

definition logged_MiddlewareClient ::
  "log_setup \<Rightarrow> env \<Rightarrow> jwt \<Rightarrow> string option \<Rightarrow> MiddlewareClient \<Rightarrow> ctx \<Rightarrow> string \<Rightarrow> string \<Rightarrow> world logged
    \<Rightarrow> (int \<times> string) \<times> world logged" where
  "logged_MiddlewareClient ls e j random cl c staffID body s =
     (case Mint j random (w_clock (al_state s)) (mc_signingKey cl) staffID [ScopeQuoteGenerate] (mc_tokenTTL cl) of
        Inl err \<Rightarrow> (fail_response c (Internal (Some (WrapError ''mint token: %w'' [err]))), s)
      | Inr token \<Rightarrow>
          (case env_join_path e (mc_baseURL cl) ''/v1/quotes'' of
             None \<Rightarrow> (fail_response c (Internal (Some (PlainError ''build middleware url''))), s)
           | Some endpoint \<Rightarrow>
               if \<not> env_request_ok e endpoint
               then (fail_response c (Internal (Some (PlainError ''build middleware request''))), s)
               else (case http_do e (mc_timeout cl) c
                   \<lparr>wr_url = endpoint, wr_headers = middleware_headers token c, wr_body = body\<rparr> (al_state s) of
                 (rp, w) \<Rightarrow> (relay c rp, log_relay ls c rp (s\<lparr>al_state := w\<rparr>)))))"

text \<open>\<open>refuse\<close> and \<open>unauthenticated\<close> hand \<open>WriteError\<close> no logger; the first logs by itself.\<close>

definition logged_refuse :: "log_setup \<Rightarrow> ctx \<Rightarrow> string \<Rightarrow> bff logged \<Rightarrow> response option \<times> bff logged" where
  "logged_refuse ls c attempted s =
     (case refuse c (al_state s) of (out, t) \<Rightarrow>
        (out, (emit ls c LevelWarn ''sign in refused'' [(''attemptedStaffId'', StringAttr attempted)] s)\<lparr>al_state := t\<rparr>))"

definition logged_SignIn :: "log_setup \<Rightarrow> Handler \<Rightarrow> bff logged handler" where
  "logged_SignIn ls h c r s0 =
     (let s = s0\<lparr>al_state := bff_receive r (al_state s0)\<rparr> in
      case decode_signIn (rq_body r) of
        None \<Rightarrow> logged_refuse ls c [] s
      | Some (staffID, password) \<Rightarrow>
          (case hd_auth h staffID password of
             Inl err \<Rightarrow> logged_refuse ls c staffID s
           | Inr staff \<Rightarrow>
               (let t = al_state s; t1 = t\<lparr>bf_draws := Suc (bf_draws t)\<rparr> in
                case Create (hd_random h (bf_draws t)) (bff_clock t) staff (bf_sessions t) of
                  (Inl err, st) \<Rightarrow>
                    logged_WriteError ls c (HttpxError (Internal (Some err))) (s\<lparr>al_state := t1\<lparr>bf_sessions := st\<rparr>\<rparr>)
                | (Inr sess, st) \<Rightarrow>
                    respond (set_cookie (session_cookie (sess_ID sess) (hd_cookie h)) (staff_response staff))
                      (emit ls c LevelInfo ''staff signed in'' [(''staffId'', StringAttr (ID staff))]
                        (s\<lparr>al_state := t1\<lparr>bf_sessions := st\<rparr>\<rparr>)))))"

definition logged_SignOut :: "log_setup \<Rightarrow> Handler \<Rightarrow> bff logged handler" where
  "logged_SignOut ls h c r s =
     (case current_session r (al_state s) of
        (out, t) \<Rightarrow>
          respond (set_cookie (clear_cookie (hd_cookie h)) \<lparr>resp_status = 204, resp_headers = [], resp_body = []\<rparr>)
            (case out of
               None \<Rightarrow> s\<lparr>al_state := t\<rparr>
             | Some sess \<Rightarrow>
                 emit ls c LevelInfo ''staff signed out'' [(''staffId'', StringAttr (ID (sess_Staff sess)))]
                   (s\<lparr>al_state := t\<lparr>bf_sessions := Delete (sess_ID sess) (bf_sessions t)\<rparr>\<rparr>)))"

definition logged_Bff_Quote ::
  "log_setup \<Rightarrow> (string option \<Rightarrow> ctx \<Rightarrow> string \<Rightarrow> string \<Rightarrow> world logged \<Rightarrow> (int \<times> string) \<times> world logged)
    \<Rightarrow> Handler \<Rightarrow> bff logged handler" where
  "logged_Bff_Quote ls quotes h c r s =
     (case current_session r (al_state s) of
        (None, t) \<Rightarrow> (case unauthenticated c t of (out, t') \<Rightarrow> (out, s\<lparr>al_state := t'\<rparr>))
      | (Some sess, t) \<Rightarrow>
          (let s2 = s\<lparr>al_state := bff_receive r t\<rparr> in
           case read_body maxBody r of
             Inl err \<Rightarrow> logged_WriteError ls c (HttpxError (Malformed (Some err))) s2
           | Inr body \<Rightarrow>
               (case on_part bf_world (\<lambda>w t. t\<lparr>bf_world := w, bf_draws := Suc (bf_draws t)\<rparr>)
                   (quotes (hd_random h (bf_draws (al_state s2))) c (ID (sess_Staff sess)) body) s2 of
                  ((status, out), s3) \<Rightarrow>
                    respond \<lparr>resp_status = status, resp_headers = [json_content_type], resp_body = out\<rparr> s3)))"

definition bff_client :: "bff_Config \<Rightarrow> MiddlewareClient" where
  "bff_client cfg =
     NewMiddlewareClient (MiddlewareBaseURL cfg) (bc_SigningKey cfg) (TokenTTL cfg) (RequestTimeout cfg)"

definition logged_bff_mux ::
  "log_setup \<Rightarrow> env \<Rightarrow> jwt \<Rightarrow> (nat \<Rightarrow> string option) \<Rightarrow> bff_Config \<Rightarrow> bcrypt \<Rightarrow> FixtureAuth \<Rightarrow> bff logged handler" where
  "logged_bff_mux ls e j random cfg bc a =
     (let h = bff_handler e j random cfg bc a in
      Mux [\<lparr>rt_method = ''GET'', rt_path = ''/healthz'', rt_handler = Health\<rparr>,
           \<lparr>rt_method = ''POST'', rt_path = ''/api/session'', rt_handler = logged_SignIn ls h\<rparr>,
           \<lparr>rt_method = ''GET'', rt_path = ''/api/session'', rt_handler = silent CurrentSession\<rparr>,
           \<lparr>rt_method = ''DELETE'', rt_path = ''/api/session'', rt_handler = logged_SignOut ls h\<rparr>,
           \<lparr>rt_method = ''POST'', rt_path = ''/api/v1/quotes'', rt_handler =
              logged_Bff_Quote ls (\<lambda>random. logged_MiddlewareClient ls e j random (bff_client cfg)) h\<rparr>])"

section \<open>The mock\<close>

definition logged_RequireAPIKey :: "log_setup \<Rightarrow> string \<Rightarrow> 's logged middleware" where
  "logged_RequireAPIKey ls expected next c r s =
     (let got = header_get apiKeyHeader r in
      if got \<noteq> expected
      then respond (bare_status 401) (emit ls c LevelWarn ''rejected request with an invalid api-key''
        [(''keyPresent'', BoolAttr (got \<noteq> [])), (''expectedKey'', StringAttr (Mask expected))] s)
      else next c r s)"

definition logged_Injector :: "log_setup \<Rightarrow> mock_env \<Rightarrow> Injector \<Rightarrow> mock logged middleware" where
  "logged_Injector ls me i next c r s =
     (case draw me i (al_state s) of ((fail, slow, latency), t1) \<Rightarrow>
        (case sleep_request c latency t1 of (woke, t2) \<Rightarrow>
           (let s2 = s\<lparr>al_state := t2\<rparr> in
            if \<not> woke then respond (bare_status 200) s2
            else if fail then respond (bare_status 503) (emit ls c LevelWarn ''injected vendor failure''
              [(''slow'', BoolAttr slow), (''latencyMs'', IntAttr (in_ms latency))] s2)
            else next c r s2)))"

definition logged_reject :: "log_setup \<Rightarrow> ctx \<Rightarrow> string \<Rightarrow> 's logged \<Rightarrow> response option \<times> 's logged" where
  "logged_reject ls c message s =
     respond (mock_reject message)
       (emit ls c LevelWarn ''rejected malformed vendor request'' [(''reason'', StringAttr message)] s)"

definition logged_mock_Quote :: "log_setup \<Rightarrow> mock_env \<Rightarrow> mock logged handler" where
  "logged_mock_Quote ls me c r s0 =
     (let s = s0\<lparr>al_state := mock_receive r (al_state s0)\<rparr>; t = al_state s in
      case decode_quoteRequest (rq_body r) of
        None \<Rightarrow> logged_reject ls c ''request body must be a JSON object matching the quote schema'' s
      | Some req \<Rightarrow>
          (case check_quoteRequest (me_quote me) req of
             Inl message \<Rightarrow> logged_reject ls c message s
           | Inr (amount, months, band) \<Rightarrow>
               (let s' = s\<lparr>al_state := t\<lparr>mk_ids := Suc (mk_ids t)\<rparr>\<rparr> in
                case Generate (me_quote me) (me_bytes me (mk_ids t)) amount months band of
                  Inl err \<Rightarrow> respond (bare_status 500) (emit ls c LevelError ''failed to generate quote'' [] s')
                | Inr quote \<Rightarrow>
                    respond (WriteJSON 201 (encode_cqapi_Quote quote)) (emit ls c LevelInfo ''quote generated''
                      [(''quoteId'', StringAttr (cq_QuoteID quote)), (''loanAmount'', StringAttr (Amount_String amount)),
                       (''loanTermInMonths'', IntAttr months), (''riskBand'', StringAttr band),
                       (''commissionRate'', FloatAttr (Rate_Float (cq_CommissionRate quote)))] s'))))"

definition logged_mock_mux :: "log_setup \<Rightarrow> mock_env \<Rightarrow> mock_Config \<Rightarrow> mock logged handler" where
  "logged_mock_mux ls me cfg =
     Mux [\<lparr>rt_method = ''GET'', rt_path = ''/healthz'', rt_handler = Health\<rparr>,
          \<lparr>rt_method = ''POST'', rt_path = ''/v1/quotes'', rt_handler =
             Chain (logged_mock_Quote ls me)
               [logged_RequireAPIKey ls (mc_APIKey cfg), logged_Injector ls me (NewInjector cfg)]\<rparr>]"

section \<open>Agreement\<close>

text \<open>The log only grows, and by no line that reads like the request's own.\<close>

definition ordinary :: "log_entry \<Rightarrow> bool" where
  "ordinary entry \<longleftrightarrow> ln_message entry \<noteq> reqCompleted"

definition grows :: "'s logged \<Rightarrow> 't logged \<Rightarrow> bool" where
  "grows s t \<longleftrightarrow> (\<exists>new. al_lines t = al_lines s @ new \<and> list_all ordinary new)"

definition agrees :: "'s logged \<Rightarrow> 'a \<times> 's logged \<Rightarrow> 'a \<times> 's \<Rightarrow> bool" where
  "agrees s out bare \<longleftrightarrow> fst out = fst bare \<and> al_state (snd out) = snd bare \<and> grows s (snd out)"

definition talks :: "'s logged handler \<Rightarrow> 's handler \<Rightarrow> bool" where
  "talks lh h \<longleftrightarrow> (\<forall>c r s. agrees s (lh c r s) (h c r (al_state s)))"

lemma grows_refl [simp]: "grows s s"
  by (simp add: grows_def)

lemma grows_trans: "grows s t \<Longrightarrow> grows t u \<Longrightarrow> grows s u"
  by (auto simp: grows_def)

lemma grows_lines: "al_lines t = al_lines u \<Longrightarrow> grows s t \<longleftrightarrow> grows s u" "al_lines s = al_lines u \<Longrightarrow> grows s t \<longleftrightarrow> grows u t"
  by (simp_all add: grows_def)

lemma grows_update [simp]: "grows s (t\<lparr>al_state := x\<rparr>) \<longleftrightarrow> grows s t" "grows (s\<lparr>al_state := x\<rparr>) t \<longleftrightarrow> grows s t"
  by (simp_all add: grows_def)

lemma emit_state [simp]: "al_state (emit ls c level msg attrs s) = al_state s"
  by (simp add: emit_def split: option.split)

lemma emit_grows: "msg \<noteq> reqCompleted \<Longrightarrow> grows s t \<Longrightarrow> grows s (emit ls c level msg attrs t)"
  by (auto simp: grows_def emit_def ordinary_def split: option.split)

lemma agrees_respond:
  "agrees s (respond resp t) (respond resp' u) \<longleftrightarrow> resp = resp' \<and> al_state t = u \<and> grows s t"
  by (simp add: agrees_def respond_def)

lemma agrees_pair: "agrees s (a, t) (b, u) \<longleftrightarrow> a = b \<and> al_state t = u \<and> grows s t"
  by (simp add: agrees_def)

lemma agreesE:
  assumes "agrees s out (b, u)"
  obtains t where "out = (b, t)" "al_state t = u" "grows s t"
  using assms by (cases out) (simp add: agrees_def)

lemma agrees_from: "grows s t \<Longrightarrow> agrees t out bare \<Longrightarrow> agrees s out bare"
  by (auto simp: agrees_def intro: grows_trans)

lemma talks_at: "talks lh h \<Longrightarrow> grows s t \<Longrightarrow> al_state t = u \<Longrightarrow> agrees s (lh c r t) (h c r u)"
  unfolding talks_def using agrees_from by blast

lemma on_part_agrees:
  assumes "agrees \<lparr>al_state = get (al_state s), al_lines = al_lines s\<rparr> (act \<lparr>al_state = get (al_state s), al_lines = al_lines s\<rparr>) (out, t)"
  obtains s' where "on_part get put act s = (out, s')" "al_state s' = put t (al_state s)" "grows s s'"
  using assms by (elim agreesE) (auto simp: on_part_def grows_def)

text \<open>What a step of a proof about a call of the logger needs; every message differs from the request's own by its text.\<close>

lemmas log_rules = agrees_respond agrees_pair emit_grows reqCompleted_def

lemma log_error_logs [simp]:
  "al_state (log_error ls c err s) = al_state s" "grows s t \<Longrightarrow> grows s (log_error ls c err t)"
  by (auto simp: log_error_def Let_def reqCompleted_def intro!: emit_grows split: option.split)

lemma logged_WriteError_agrees:
  "al_state t = u \<Longrightarrow> grows s t \<Longrightarrow> agrees s (logged_WriteError ls c err t) (respond (WriteError (ctx_correlation c) err) u)"
  by (simp add: logged_WriteError_def agrees_respond)

section \<open>The vendor stack agrees\<close>

lemma log_transportError_logs [simp]:
  "al_state (log_transportError ls c now err s) = al_state s" "grows s t \<Longrightarrow> grows s (log_transportError ls c now err t)"
  by (auto simp: log_transportError_def reqCompleted_def intro!: emit_grows)

lemma log_translate_logs [simp]:
  "al_state (log_translate ls cl c resp s) = al_state s" "grows s t \<Longrightarrow> grows s (log_translate ls cl c resp t)"
  by (auto simp: log_translate_def Let_def reqCompleted_def intro!: emit_grows split: sum.split option.split)

lemma log_record_outcome_logs [simp]:
  "al_state (log_record_outcome ls cfg c err b s) = al_state s" "grows s t \<Longrightarrow> grows s (log_record_outcome ls cfg c err b t)"
  by (auto simp: log_record_outcome_def Let_def reqCompleted_def intro!: emit_grows split: option.split breakerState.split)

locale talking_source =
  fixes loud :: "(go_error + Quote) logged_source" and quiet :: QuoteSource
  assumes agree: "agrees s (loud c req s) (quiet c req (al_state s))"
begin

lemma retry_loop_agrees:
  "agrees s (logged_retry_loop ls e loud cfg c req k lastErr s) (retry_loop e quiet cfg c req k lastErr (al_state s))"
proof (induction "nat (Attempts cfg + 1 - k)" arbitrary: k lastErr s rule: less_induct)
  case less
  obtain out w1 where q: "quiet c req (al_state s) = (out, w1)" by fastforce
  obtain s1 where l: "loud c req s = (out, s1)" "al_state s1 = w1" "grows s s1"
    using agree [of s c req] unfolding q by (rule agreesE)
  show ?case
  proof (cases out)
    case (Inr quote)
    then show ?thesis
      using q l by (simp add: logged_retry_loop.simps [of ls e] retry_loop.simps [of e] log_rules)
  next
    case (Inl err)
    obtain t w2 where b: "backoff e cfg k err w1 = (t, w2)" by fastforce
    obtain ended w3 where sl: "sleepCtx c t w2 = (ended, w3)" by fastforce
    let ?attrs = "[(''attempt'', IntAttr k), (''delayMs'', IntAttr (in_ms t))]"
    let ?s3 = "(emit ls c LevelWarn ''retrying vendor call'' ?attrs (s1\<lparr>al_state := w2\<rparr>))\<lparr>al_state := w3\<rparr>"
    have s3: "al_state ?s3 = w3" "grows s ?s3" using l(3) by (simp_all add: log_rules)
    have "agrees s (logged_retry_loop ls e loud cfg c req (k + 1) (Some err) ?s3)
        (retry_loop e quiet cfg c req (k + 1) (Some err) w3)" if "\<not> k > Attempts cfg"
    proof -
      have "agrees ?s3 (logged_retry_loop ls e loud cfg c req (k + 1) (Some err) ?s3)
          (retry_loop e quiet cfg c req (k + 1) (Some err) (al_state ?s3))"
        using that by (intro less.hyps) simp
      then show ?thesis using agrees_from [OF s3(2)] unfolding s3(1) by blast
    qed
    then show ?thesis
      using q l b sl Inl
      by (cases ended) (auto simp: logged_retry_loop.simps [of ls e loud cfg c req k] retry_loop.simps [of e quiet cfg c req k]
          log_rules Let_def)
  qed
qed

lemma Retrier_talks: "talking_source (logged_Retrier ls e loud cfg) (Retrier_Quote e quiet cfg)"
  by unfold_locales (simp add: logged_Retrier_def Retrier_Quote_def retry_loop_agrees)

text \<open>The breaker around a source, on the state of the service.\<close>

lemma Breaker_agrees:
  "agrees s (logged_Breaker ls loud cfg c req s)
     (case Breaker_Quote quiet cfg c req (sv_brk (al_state s)) (sv_world (al_state s)) of
        (out, b, w) \<Rightarrow> (out, (al_state s)\<lparr>sv_brk := b, sv_world := w\<rparr>))"
proof -
  let ?t = "al_state s"
  obtain verdict b1 where rej: "reject cfg (server_clock ?t) (sv_brk ?t) = (verdict, b1)" by fastforce
  show ?thesis
  proof (cases verdict)
    case (Some d)
    then show ?thesis
      using rej by (simp add: logged_Breaker_def Breaker_Quote_def server_clock_def log_rules)
  next
    case None
    let ?s0 = "s\<lparr>al_state := ?t\<lparr>sv_brk := b1\<rparr>\<rparr>"
    let ?put = "\<lambda>w t. t\<lparr>sv_world := w\<rparr>"
    obtain out w where q: "quiet c req (sv_world ?t) = (out, w)" by fastforce
    have "agrees \<lparr>al_state = sv_world (al_state ?s0), al_lines = al_lines ?s0\<rparr>
        (loud c req \<lparr>al_state = sv_world (al_state ?s0), al_lines = al_lines ?s0\<rparr>) (out, w)"
      using agree [of "\<lparr>al_state = sv_world (al_state ?s0), al_lines = al_lines ?s0\<rparr>" c req] q by simp
    then obtain s1 where s1: "on_part sv_world ?put (loud c req) ?s0 = (out, s1)"
      "al_state s1 = ?put w (al_state ?s0)" "grows ?s0 s1"
      by (rule on_part_agrees [where put = ?put])
    obtain b2 panicked where rec: "record_outcome cfg (case out of Inl err \<Rightarrow> Some err | Inr _ \<Rightarrow> None) (w_clock w) b1
        = (b2, panicked)" by fastforce
    have "server_clock (al_state s1) = w_clock w" by (simp add: s1(2) server_clock_def)
    then show ?thesis
      using None rej q s1 rec
      by (simp add: logged_Breaker_def Breaker_Quote_def server_clock_def agrees_pair Let_def)
  qed
qed

end

interpretation talking_vendor: talking_source "logged_VendorClient ls e cl" "VendorClient_Quote e cl" for ls e cl
  by unfold_locales
     (auto simp: logged_VendorClient_def VendorClient_Quote_def agrees_pair Let_def split: option.split prod.split reply.split)

lemma resilient_agrees: "agrees s (logged_resilient ls e cfg c req s) (resilient e cfg c req (al_state s))"
  unfolding logged_resilient_def resilient_def
  by (rule talking_source.Breaker_agrees [OF talking_vendor.Retrier_talks])

section \<open>The handlers agree\<close>

lemma Health_talks: "talks Health Health"
  by (simp add: talks_def Health_def agrees_respond)

lemma silent_talks: "talks (silent h) h"
  by (auto simp: talks_def silent_def agrees_def split: prod.split)

text \<open>A mux of handlers that agree, route by route.\<close>

definition routes_talk :: "'s logged route list \<Rightarrow> 's route list \<Rightarrow> bool" where
  "routes_talk = list_all2 (\<lambda>lrt rt. rt_method lrt = rt_method rt \<and> rt_path lrt = rt_path rt
     \<and> talks (rt_handler lrt) (rt_handler rt))"

lemma routes_find:
  "routes_talk lrts rts \<Longrightarrow>
     (case (find (\<lambda>rt. rt_path rt = p \<and> method_matches (rt_method rt) m) lrts,
            find (\<lambda>rt. rt_path rt = p \<and> method_matches (rt_method rt) m) rts) of
        (None, None) \<Rightarrow> True
      | (Some lrt, Some rt) \<Rightarrow> talks (rt_handler lrt) (rt_handler rt)
      | _ \<Rightarrow> False)
     \<and> list_ex (\<lambda>rt. rt_path rt = p) lrts = list_ex (\<lambda>rt. rt_path rt = p) rts"
  unfolding routes_talk_def by (induction lrts rts rule: list_all2_induct) simp_all

lemma Mux_talks:
  assumes "routes_talk lrts rts"
  shows "talks (Mux lrts) (Mux rts)"
  unfolding talks_def
proof (intro allI)
  fix c r s
  show "agrees s (Mux lrts c r s) (Mux rts c r (al_state s))"
    using routes_find [OF assms, of "rq_path r" "rq_method r"]
    by (auto simp: Mux_def talks_def agrees_respond split: option.splits)
qed

lemma Authenticate_talks: "talks lnext next \<Longrightarrow> talks (logged_Authenticate ls verify lnext) (Authenticate verify next)"
  unfolding talks_def
  by (auto simp: logged_Authenticate_def Authenticate_def reject_with_def
      intro!: logged_WriteError_agrees split: sum.split)

lemma Authorise_talks: "talks lnext next \<Longrightarrow> talks (logged_Authorise ls granted scope lnext) (Authorise granted scope next)"
  unfolding talks_def
  by (auto simp: logged_Authorise_def Authorise_def reject_with_def Let_def reqCompleted_def
      intro!: logged_WriteError_agrees emit_grows split: option.split sum.split bool.split)

lemma Handler_Quote_talks:
  assumes "\<And>c req s. agrees s (lvendor c req s) (vendor c req (al_state s))"
  shows "talks (logged_Handler_Quote ls lvendor) (Handler_Quote vendor)"
  unfolding talks_def
proof (intro allI)
  fix c r and s :: "server logged"
  let ?t1 = "receive_body r (al_state s)" and ?s1 = "s\<lparr>al_state := receive_body r (al_state s)\<rparr>"
  show "agrees s (logged_Handler_Quote ls lvendor c r s) (Handler_Quote vendor c r (al_state s))"
  proof (cases "read_body maxRequestBody r")
    case (Inl err)
    then show ?thesis
      by (simp add: logged_Handler_Quote_def Handler_Quote_def reject_with_def logged_WriteError_agrees Let_def)
  next
    case (Inr body)
    obtain req errs where val: "Validate body = Some (req, errs)" using Validate_total by blast
    show ?thesis
    proof (cases "errs = []")
      case False
      then show ?thesis using Inr val
        by (simp add: logged_Handler_Quote_def Handler_Quote_def reject_with_def logged_WriteError_agrees Let_def)
    next
      case True
      let ?caller = "case CallerFrom c of Some caller \<Rightarrow> caller | None \<Rightarrow> no_caller"
      let ?s2 = "emit ls c LevelInfo ''quote requested''
        [(''staffId'', StringAttr (Subject ?caller)), (''jti'', StringAttr (TokenID ?caller)),
         (''loanAmount'', StringAttr (Amount_String (req_Amount req))),
         (''loanTermInMonths'', IntAttr (req_Months req)), (''riskBand'', StringAttr (req_RiskBand req))] ?s1"
      have s2: "al_state ?s2 = ?t1" "grows s ?s2" by (simp_all add: log_rules)
      obtain out t3 where v: "vendor c req ?t1 = (out, t3)" by fastforce
      have "agrees ?s2 (lvendor c req ?s2) (out, t3)" using assms [of ?s2 c req] v by (simp add: s2(1))
      then obtain s3 where s3: "lvendor c req ?s2 = (out, s3)" "al_state s3 = t3" "grows ?s2 s3" by (rule agreesE)
      then have g: "grows s s3" using s2(2) grows_trans by blast
      have l: "logged_Handler_Quote ls lvendor c r s = (case (out, s3) of
           (None, s3) \<Rightarrow> (None, s3)
         | (Some (Inl err), s3) \<Rightarrow> logged_WriteError ls c err s3
         | (Some (Inr quote), s3) \<Rightarrow> respond (WriteJSON 200 (encode_quote quote)) (emit ls c LevelInfo ''quote returned''
             [(''staffId'', StringAttr (Subject ?caller)), (''quoteId'', StringAttr (QuoteID quote)),
              (''commissionRate'', StringAttr (Rate_String (CommissionRate quote)))] s3))"
        unfolding logged_Handler_Quote_def Let_def Inr sum.case val True using s3(1) by simp
      show ?thesis
        unfolding l using Inr val True v s3(2) g
        by (auto simp: Handler_Quote_def Let_def log_rules
            intro!: logged_WriteError_agrees split: option.split sum.split)
    qed
  qed
qed

lemma middleware_mux_talks:
  "talks (logged_middleware_mux ls e j cfg granted) (middleware_mux j cfg granted (resilient e cfg))"
  unfolding logged_middleware_mux_def middleware_mux_def quote_chain_def
  by (rule Mux_talks)
     (simp add: routes_talk_def Health_talks Authenticate_talks Authorise_talks Handler_Quote_talks resilient_agrees)

section \<open>The BFF agrees\<close>

lemma log_relay_logs [simp]:
  "al_state (log_relay ls c rp s) = al_state s" "grows s t \<Longrightarrow> grows s (log_relay ls c rp t)"
  by (auto simp: log_relay_def log_rewrite_def Let_def reqCompleted_def intro!: emit_grows
      split: reply.split sum.split option.split)

lemma MiddlewareClient_agrees:
  "agrees s (logged_MiddlewareClient ls e j random cl c sid body s) (MiddlewareClient_Quote e j random cl c sid body (al_state s))"
  by (auto simp: logged_MiddlewareClient_def MiddlewareClient_Quote_def agrees_pair
      split: sum.split option.split prod.split)

lemma refuse_agrees:
  "al_state t = u \<Longrightarrow> grows s t \<Longrightarrow> agrees s (logged_refuse ls c attempted t) (refuse c u)"
  by (auto simp: logged_refuse_def agrees_def log_rules split: prod.split)

lemma SignIn_talks: "talks (logged_SignIn ls h) (SignIn h)"
  unfolding talks_def
proof (intro allI)
  fix c r and s :: "bff logged"
  let ?s = "s\<lparr>al_state := bff_receive r (al_state s)\<rparr>" and ?t = "bff_receive r (al_state s)"
  have refused: "agrees s (logged_refuse ls c attempted ?s) (refuse c ?t)" for attempted
    by (rule refuse_agrees) simp_all
  show "agrees s (logged_SignIn ls h c r s) (SignIn h c r (al_state s))"
  proof (cases "decode_signIn (rq_body r)")
    case None
    then show ?thesis using refused by (simp add: logged_SignIn_def SignIn_def Let_def)
  next
    case (Some ip)
    obtain i p where ip: "ip = (i, p)" by fastforce
    show ?thesis
    proof (cases "hd_auth h i p")
      case (Inl err)
      then show ?thesis using refused Some ip by (simp add: logged_SignIn_def SignIn_def Let_def)
    next
      case (Inr staff)
      obtain out st where "Create (hd_random h (bf_draws ?t)) (bff_clock ?t) staff (bf_sessions ?t) = (out, st)" by fastforce
      then show ?thesis using Inr Some ip
        by (cases out) (simp_all add: logged_SignIn_def SignIn_def Let_def log_rules
            logged_WriteError_agrees)
    qed
  qed
qed

lemma SignOut_talks: "talks (logged_SignOut ls h) (SignOut h)"
  by (auto simp: talks_def logged_SignOut_def SignOut_def log_rules
      split: prod.split option.split)

lemma Bff_Quote_talks:
  assumes "\<And>random c sid body s. agrees s (quotes random c sid body s) (hd_quotes h random c sid body (al_state s))"
  shows "talks (logged_Bff_Quote ls quotes h) (Bff_Quote h)"
  unfolding talks_def
proof (intro allI)
  fix c r and s :: "bff logged"
  obtain out t where cs: "current_session r (al_state s) = (out, t)" by fastforce
  show "agrees s (logged_Bff_Quote ls quotes h c r s) (Bff_Quote h c r (al_state s))"
  proof (cases out)
    case None
    then show ?thesis using cs
      by (auto simp: logged_Bff_Quote_def Bff_Quote_def agrees_def split: prod.split)
  next
    case (Some sess)
    let ?s2 = "s\<lparr>al_state := bff_receive r t\<rparr>"
    show ?thesis
    proof (cases "read_body maxBody r")
      case (Inl err)
      then show ?thesis using cs Some
        by (simp add: logged_Bff_Quote_def Bff_Quote_def logged_WriteError_agrees Let_def)
    next
      case (Inr body)
      let ?random = "hd_random h (bf_draws t)" and ?sid = "ID (sess_Staff sess)"
      let ?put = "\<lambda>w t. t\<lparr>bf_world := w, bf_draws := Suc (bf_draws t)\<rparr>"
      obtain status answer w where q: "hd_quotes h ?random c ?sid body (bf_world (bff_receive r t)) = ((status, answer), w)"
        by (metis prod.exhaust)
      have "agrees \<lparr>al_state = bf_world (al_state ?s2), al_lines = al_lines ?s2\<rparr>
          (quotes ?random c ?sid body \<lparr>al_state = bf_world (al_state ?s2), al_lines = al_lines ?s2\<rparr>) ((status, answer), w)"
        using assms [of "\<lparr>al_state = bf_world (al_state ?s2), al_lines = al_lines ?s2\<rparr>" ?random c ?sid body] q by simp
      then obtain s3 where "on_part bf_world ?put (quotes ?random c ?sid body) ?s2 = ((status, answer), s3)"
        "al_state s3 = ?put w (al_state ?s2)" "grows ?s2 s3"
        by (rule on_part_agrees [where put = ?put])
      then show ?thesis using cs Some Inr q
        by (simp add: logged_Bff_Quote_def Bff_Quote_def agrees_respond Let_def)
    qed
  qed
qed

lemma bff_mux_talks: "talks (logged_bff_mux ls e j random cfg bc a) (bff_mux (bff_handler e j random cfg bc a))"
proof -
  let ?h = "bff_handler e j random cfg bc a"
  have "talks (logged_Bff_Quote ls (\<lambda>random. logged_MiddlewareClient ls e j random (bff_client cfg)) ?h) (Bff_Quote ?h)"
    by (rule Bff_Quote_talks) (simp add: bff_handler_def bff_client_def MiddlewareClient_agrees)
  then show ?thesis
    unfolding logged_bff_mux_def bff_mux_def Let_def
    by (intro Mux_talks) (simp add: routes_talk_def Health_talks SignIn_talks SignOut_talks silent_talks)
qed

section \<open>The mock agrees\<close>

lemma RequireAPIKey_talks: "talks lnext next \<Longrightarrow> talks (logged_RequireAPIKey ls k lnext) (RequireAPIKey k next)"
  by (simp add: talks_def logged_RequireAPIKey_def RequireAPIKey_def log_rules Let_def)

lemma Injector_talks:
  assumes "talks lnext next"
  shows "talks (logged_Injector ls me i lnext) (Injector_Middleware me i next)"
proof -
  have "agrees s (lnext c r (s\<lparr>al_state := t\<rparr>)) (next c r t)" for c r s t
    by (rule talks_at [OF assms]) simp_all
  then show ?thesis
    by (auto simp: talks_def logged_Injector_def Injector_Middleware_def log_rules Let_def
        split: prod.split)
qed

lemma mock_Quote_talks: "talks (logged_mock_Quote ls me) (mock_Quote me)"
  by (auto simp: talks_def logged_mock_Quote_def mock_Quote_def logged_reject_def log_rules
      Let_def split: option.split sum.split prod.split)

lemma mock_mux_talks: "talks (logged_mock_mux ls me cfg) (mock_mux me cfg)"
  unfolding logged_mock_mux_def mock_mux_def
  by (rule Mux_talks) (simp add: routes_talk_def Health_talks RequireAPIKey_talks Injector_talks mock_Quote_talks)

end
