(* ===== verification/Accesslog.thy ===== *)
theory Accesslog
  imports Handlerlog
begin

text \<open>
  The log of a request: \<open>RequestLogger\<close> and \<open>Recoverer\<close> of \<open>httpx/middleware.go\<close> around the handlers of the three
  services with all their log calls (\<open>Handlerlog\<close>). The routers of the other theories leave the log out; here
  they are shown to be the same services with the log forgotten, and what the log says of a request is told.
\<close>

section \<open>The middleware that logs\<close>

text \<open>The status is what the recorder kept of the writes that went through it. A panic passes by.\<close>

definition RequestLogger :: "log_setup \<Rightarrow> ('s \<Rightarrow> instant) \<Rightarrow> 's logged middleware" where
  "RequestLogger ls clock next c r s =
     (let start = clock (al_state s) in
      case next c r s of
        (None, s1) \<Rightarrow> (None, s1)
      | (Some resp, s1) \<Rightarrow>
          (let rw = recorder_Write (WriteHeader (resp_status resp) new_recorder) in
           (Some resp, emit ls c LevelInfo reqCompleted
              [(''httpMethod'', StringAttr (rq_method r)), (''path'', StringAttr (rq_path r)),
               (''status'', IntAttr (rec_status rw)),
               (''durationMs'', IntAttr (in_ms (time_sub (clock (al_state s1)) start)))] s1)))"

text \<open>\<open>Recoverer\<close> writes the panic and its stack to the log and hands \<open>WriteError\<close> no logger.\<close>

definition logged_Recoverer :: "log_setup \<Rightarrow> 's logged middleware" where
  "logged_Recoverer ls next c r s =
     (case next c r s of
        (None, s1) \<Rightarrow>
          respond (WriteError (ctx_correlation c) (HttpxError (Internal None)))
            (emit ls c LevelError ''panic recovered''
              [(''panic'', StringAttr (ls_panic ls)), (''stack'', StringAttr (ls_stack ls))] s1)
      | (Some resp, s1) \<Rightarrow> (Some resp, s1))"

section \<open>The routers with their log\<close>

definition logged_middleware ::
  "log_setup \<Rightarrow> env \<Rightarrow> jwt \<Rightarrow> draws \<Rightarrow> Config \<Rightarrow> (ctx \<Rightarrow> string \<Rightarrow> go_error + string list) \<Rightarrow> server logged handler" where
  "logged_middleware ls e j d cfg granted =
     Chain (logged_middleware_mux ls e j cfg granted)
       [Correlation d, RequestLogger ls server_clock, logged_Recoverer ls,
        Timeout (logged_clock server_clock) (RequestBudget cfg)]"

definition logged_bff ::
  "log_setup \<Rightarrow> env \<Rightarrow> jwt \<Rightarrow> (nat \<Rightarrow> string option) \<Rightarrow> draws \<Rightarrow> bff_Config \<Rightarrow> bcrypt \<Rightarrow> FixtureAuth \<Rightarrow> bff logged handler" where
  "logged_bff ls e j random d cfg bc a =
     Chain (logged_bff_mux ls e j random cfg bc a)
       [Correlation d, RequestLogger ls bff_clock, logged_Recoverer ls,
        Timeout (logged_clock bff_clock) (RequestTimeout cfg)]"

definition logged_mock :: "log_setup \<Rightarrow> mock_env \<Rightarrow> draws \<Rightarrow> mock_Config \<Rightarrow> mock logged handler" where
  "logged_mock ls me d cfg =
     Chain (logged_mock_mux ls me cfg) [Correlation d, RequestLogger ls mk_clock, logged_Recoverer ls]"

section \<open>Lemmas\<close>

lemma Timeout_talks: "talks lh h \<Longrightarrow> talks (Timeout (logged_clock clock) b lh) (Timeout clock b h)"
  by (simp add: talks_def Timeout_def logged_clock_def)

lemma Recoverer_talks:
  assumes "talks (lh :: 's logged handler) h"
  shows "talks (logged_Recoverer ls lh) (Recoverer h)"
  unfolding talks_def
proof (intro allI)
  fix c r and s :: "'s logged"
  obtain out u where h: "h c r (al_state s) = (out, u)" by fastforce
  have "agrees s (lh c r s) (out, u)" using assms h unfolding talks_def by metis
  then obtain t where "lh c r s = (out, t)" "al_state t = u" "grows s t" by (rule agreesE)
  then show "agrees s (logged_Recoverer ls lh c r s) (Recoverer h c r (al_state s))"
    using h by (cases out) (simp_all add: logged_Recoverer_def Recoverer_def log_rules)
qed

lemma emit_line:
  assumes "lg_level (ls_logger ls) \<le> level" "lg_groups (ls_logger ls) = []"
  obtains line where "emit ls c level msg attrs s
      = s\<lparr>al_lines := al_lines s @ [\<lparr>ln_level = level, ln_message = msg, ln_attrs = line\<rparr>]\<rparr>"
    "\<And>k v. (k, v) \<in> set attrs \<Longrightarrow> ([k], v) \<in> set line"
    "CorrelationID c \<noteq> [] \<Longrightarrow> ([''correlationId''], StringAttr (CorrelationID c)) \<in> set line"
proof -
  let ?r = "\<lparr>lr_level = level, lr_message = msg, lr_attrs = attrs, lr_frame = ls_site ls msg\<rparr>"
  let ?line = "lg_bound (WithAttrs (lr_attrs (Handle (ls_traceIDs ls) c ?r)) (ls_logger ls))"
  have line: "?line = lg_bound (ls_logger ls)
      @ map (\<lambda>(k, v). ([k], v)) (attrs @ context_attrs (ls_traceIDs ls) c (ls_site ls msg))"
    by (simp add: WithAttrs_def Handle_def assms(2))
  have "emit ls c level msg attrs s
      = s\<lparr>al_lines := al_lines s @ [\<lparr>ln_level = level, ln_message = msg, ln_attrs = ?line\<rparr>]\<rparr>"
    using assms(1) by (simp add: emit_def log_line_def Enabled_def)
  moreover have "(k, v) \<in> set attrs \<Longrightarrow> ([k], v) \<in> set ?line" for k v unfolding line by force
  moreover have "CorrelationID c \<noteq> [] \<Longrightarrow> ([''correlationId''], StringAttr (CorrelationID c)) \<in> set ?line"
    unfolding line by (force simp: context_attrs_def)
  ultimately show thesis using that [of ?line] unfolding line by auto
qed

text \<open>
  \<open>logs_once cid clock r out bare s\<close>: the logged run \<open>out\<close> of a service in \<open>s\<close> answers like the plain one and leaves
  the service like the plain one. It has added lines to the log, the last of which, and no other, is the
  request's: its method and path, the status that went out, how long it took on the service's clock, and
  the correlation id.
\<close>

definition logs_once ::
  "string \<Rightarrow> ('s \<Rightarrow> instant) \<Rightarrow> request \<Rightarrow> response option \<times> 's logged \<Rightarrow> response option \<times> 's \<Rightarrow> 's logged \<Rightarrow> bool" where
  "logs_once cid clock r out bare s \<longleftrightarrow>
     (\<exists>resp during own. fst out = Some resp \<and> fst bare = Some resp \<and> al_state (snd out) = snd bare
        \<and> al_lines (snd out) = al_lines s @ during @ [own]
        \<and> list_all (\<lambda>entry. ln_message entry \<noteq> ''request completed'') during
        \<and> ln_message own = ''request completed'' \<and> ln_level own = LevelInfo
        \<and> ([''httpMethod''], StringAttr (rq_method r)) \<in> set (ln_attrs own)
        \<and> ([''path''], StringAttr (rq_path r)) \<in> set (ln_attrs own)
        \<and> ([''status''], IntAttr (resp_status resp)) \<in> set (ln_attrs own)
        \<and> ([''durationMs''], IntAttr (in_ms (time_sub (clock (snd bare)) (clock (al_state s))))) \<in> set (ln_attrs own)
        \<and> (cid \<noteq> [] \<longrightarrow> ([''correlationId''], StringAttr cid) \<in> set (ln_attrs own)))"

lemma logged_chain:
  assumes ls: "lg_level (ls_logger ls) \<le> LevelInfo" "lg_groups (ls_logger ls) = []" and "talks lh h"
  shows "logs_once (correlation_id d r) clock r (Correlation d (RequestLogger ls clock (logged_Recoverer ls lh)) c r s)
    (Correlation d (Recoverer h) c r (al_state s)) s"
proof -
  let ?c = "c\<lparr>ctx_correlation := correlation_id d r\<rparr>"
  obtain resp u where g: "Recoverer h ?c r (al_state s) = (Some resp, u)"
    using Recoverer_no_panic [of h ?c r "al_state s"] by (cases "Recoverer h ?c r (al_state s)") auto
  have "agrees s (logged_Recoverer ls lh ?c r s) (Some resp, u)"
    using Recoverer_talks [OF assms(3), of ls] g unfolding talks_def by metis
  then obtain t where t: "logged_Recoverer ls lh ?c r s = (Some resp, t)" "al_state t = u" "grows s t" by (rule agreesE)
  then obtain during where during: "al_lines t = al_lines s @ during" "list_all ordinary during"
    unfolding grows_def by blast
  let ?attrs = "[(''httpMethod'', StringAttr (rq_method r)), (''path'', StringAttr (rq_path r)),
               (''status'', IntAttr (resp_status resp)),
               (''durationMs'', IntAttr (in_ms (time_sub (clock u) (clock (al_state s)))))]"
  have status: "rec_status (recorder_Write (WriteHeader (resp_status resp) new_recorder)) = resp_status resp"
    by (simp add: WriteHeader_def recorder_Write_def new_recorder_def)
  have run: "RequestLogger ls clock (logged_Recoverer ls lh) ?c r s = (Some resp, emit ls ?c LevelInfo reqCompleted ?attrs t)"
    by (simp add: RequestLogger_def t status Let_def)
  obtain line where line: "emit ls ?c LevelInfo reqCompleted ?attrs t
      = t\<lparr>al_lines := al_lines t @ [\<lparr>ln_level = LevelInfo, ln_message = reqCompleted, ln_attrs = line\<rparr>]\<rparr>"
    "\<And>k v. (k, v) \<in> set ?attrs \<Longrightarrow> ([k], v) \<in> set line"
    "CorrelationID ?c \<noteq> [] \<Longrightarrow> ([''correlationId''], StringAttr (CorrelationID ?c)) \<in> set line"
    by (rule emit_line [OF ls, of ?c reqCompleted ?attrs t]) (rule that)
  let ?own = "\<lparr>ln_level = LevelInfo, ln_message = reqCompleted, ln_attrs = line\<rparr>"
  have "Correlation d (RequestLogger ls clock (logged_Recoverer ls lh)) c r s
      = (Some (preset_header CorrelationHeader (correlation_id d r) resp), t\<lparr>al_lines := al_lines s @ during @ [?own]\<rparr>)"
    by (simp add: Correlation_def run line(1) during(1) Let_def)
  moreover have "Correlation d (Recoverer h) c r (al_state s)
      = (Some (preset_header CorrelationHeader (correlation_id d r) resp), u)"
    by (simp add: Correlation_def g Let_def)
  moreover have "([''httpMethod''], StringAttr (rq_method r)) \<in> set line" "([''path''], StringAttr (rq_path r)) \<in> set line"
    "([''status''], IntAttr (resp_status resp)) \<in> set line"
    "([''durationMs''], IntAttr (in_ms (time_sub (clock u) (clock (al_state s))))) \<in> set line"
    by (rule line(2), simp)+
  moreover have "correlation_id d r \<noteq> [] \<Longrightarrow> ([''correlationId''], StringAttr (correlation_id d r)) \<in> set line"
    using line(3) by (simp add: CorrelationID_def)
  moreover have "list_all (\<lambda>entry. ln_message entry \<noteq> ''request completed'') during"
    using during(2) by (simp add: ordinary_def [abs_def] reqCompleted_def)
  ultimately show ?thesis
    unfolding logs_once_def
    by (intro exI [of _ "preset_header CorrelationHeader (correlation_id d r) resp"] exI [of _ during] exI [of _ ?own])
       (simp add: t(2) reqCompleted_def)
qed

lemma service_logger:
  assumes "ls_logger ls = New_logger component (ParseLevel level)" "ParseLevel level \<le> LevelInfo"
  shows "lg_level (ls_logger ls) \<le> LevelInfo" "lg_groups (ls_logger ls) = []"
  using assms by simp_all

section \<open>Property\<close>

text \<open>
  C30: one line for every request, whatever else is logged. The services below make every log call the code makes,
  in the handlers, the vendor stack, the client of the Middleware, the simulation and for a recovered panic. At
  level info or below each of the three, when a request completes, has written exactly one line with the
  message "request completed", as the last line of the request; it has the method, the path, the status that
  went out, a panic's 500 included, the time taken and the correlation id of the response. And the log
  changes nothing: the response and the state of the service are those of the service without it.
\<close>

theorem requests_are_logged:
  assumes "ls_logger ls = New_logger component (ParseLevel level)" "ParseLevel level \<le> LevelInfo"
  shows "logs_once (correlation_id d r) server_clock r
        (logged_middleware ls e j d cfg granted c r s) (NewRouter e j d cfg granted c r (al_state s)) s
    \<and> logs_once (correlation_id d r) bff_clock r
        (logged_bff ls e j random d bcfg bc a c r sb) (Bff_NewRouter d bcfg (bff_handler e j random bcfg bc a) c r (al_state sb)) sb
    \<and> logs_once (correlation_id d r) mk_clock r
        (logged_mock ls me d mcfg c r sm) (mock_NewRouter me d mcfg c r (al_state sm)) sm"
proof -
  note chain = logged_chain [OF service_logger [OF assms]]
  note middleware = chain [OF Timeout_talks [OF middleware_mux_talks]] and bff = chain [OF Timeout_talks [OF bff_mux_talks]]
    and mock = chain [OF mock_mux_talks]
  show ?thesis
    unfolding logged_middleware_def NewRouter_def NewRouterWith_def logged_bff_def Bff_NewRouter_def logged_mock_def
      mock_NewRouter_def Chain_Cons Chain_Nil
    by (intro conjI middleware bff mock)
qed

text \<open>The body is refused: a line for that, then the line of the request, at the default level and with a panic text at hand.\<close>

definition example_setup :: "log_setup" where
  "example_setup = \<lparr>ls_traceIDs = (\<lambda>c. ([], [])), ls_logger = New_logger ''cqapp-middleware'' (ParseLevel ''info''),
     ls_site = (\<lambda>msg. if msg = reqCompleted then Some (''internal/platform/httpx.RequestLogger'', 98) else None),
     ls_panic = ''boom'', ls_stack = []\<rparr>"

lemma example_messages:
  "map ln_message (al_lines (snd (logged_middleware example_setup stalling_env example_jwt example_draws example_config
      (Granted example_dir) background example_post \<lparr>al_state = example_server, al_lines = []\<rparr>)))
   = [''request rejected'', ''request completed'']"
  by code_simp

theorem requests_are_logged_witness:
  "\<exists>resp during own s'. logged_middleware example_setup stalling_env example_jwt example_draws example_config (Granted example_dir)
      background example_post \<lparr>al_state = example_server, al_lines = []\<rparr> = (Some resp, s')
     \<and> al_lines s' = during @ [own] \<and> map ln_message during = [''request rejected'']
     \<and> ([''status''], IntAttr (resp_status resp)) \<in> set (ln_attrs own)
     \<and> ([''path''], StringAttr ''/v1/quotes'') \<in> set (ln_attrs own)"
proof -
  have ls: "ls_logger example_setup = New_logger ''cqapp-middleware'' (ParseLevel ''info'')" "ParseLevel ''info'' \<le> LevelInfo"
    by (simp add: example_setup_def) code_simp
  let ?run = "logged_middleware example_setup stalling_env example_jwt example_draws example_config (Granted example_dir)
      background example_post \<lparr>al_state = example_server, al_lines = []\<rparr>"
  note once = requests_are_logged [OF ls, of example_draws example_post stalling_env example_jwt example_config
      "Granted example_dir" background "\<lparr>al_state = example_server, al_lines = []\<rparr>", THEN conjunct1]
  have "rq_path example_post = ''/v1/quotes''" by (simp add: example_post_def)
  with once obtain resp during own where "fst ?run = Some resp" "al_lines (snd ?run) = during @ [own]"
    "([''status''], IntAttr (resp_status resp)) \<in> set (ln_attrs own)" "([''path''], StringAttr ''/v1/quotes'') \<in> set (ln_attrs own)"
    unfolding logs_once_def by auto
  moreover from this(2) have "map ln_message during = [''request rejected'']" using example_messages by simp
  ultimately show ?thesis by (cases ?run) auto
qed

end
