(* ===== verification/Service.thy ===== *)
theory Service
  imports Budget Mesh
begin

text \<open>
  The Middleware over its lifetime: a run is any list of requests served one after the other. Calls of the
  breaker that do not overlap are runs of its step relation, so what holds in every reachable state holds of
  the running service. The last lemmas bound the time a request to the BFF takes.
\<close>

section \<open>Calls that do not overlap\<close>

lemma Breaker_Quote_reachable:
  assumes "reachable cfg \<lparr>brk = b, running = k, lost = l\<rparr>"
  shows "reachable cfg \<lparr>brk = fst (snd (Breaker_Quote nxt cfg c req b w)), running = k, lost = l\<rparr>"
proof (cases "reject cfg (w_clock w) b")
  case (Pair wait b1)
  show ?thesis
  proof (cases wait)
    case (Some d)
    have "step cfg (Begin (w_clock w)) \<lparr>brk = b, running = k, lost = l\<rparr> \<lparr>brk = b1, running = k, lost = l\<rparr>"
      using turned_away [of cfg "w_clock w" "\<lparr>brk = b, running = k, lost = l\<rparr>" d b1] Pair Some by simp
    then have "reachable cfg \<lparr>brk = b1, running = k, lost = l\<rparr>" by (rule next_step [OF assms])
    then show ?thesis using Pair Some by (simp add: Breaker_Quote_def)
  next
    case None
    have "step cfg (Begin (w_clock w)) \<lparr>brk = b, running = k, lost = l\<rparr> \<lparr>brk = b1, running = Suc k, lost = l\<rparr>"
      using admitted [of cfg "w_clock w" "\<lparr>brk = b, running = k, lost = l\<rparr>" b1] Pair None by simp
    then have begun: "reachable cfg \<lparr>brk = b1, running = Suc k, lost = l\<rparr>" by (rule next_step [OF assms])
    obtain r w1 where q: "nxt c req w = (r, w1)" by fastforce
    let ?err = "case r of Inl err \<Rightarrow> Some err | Inr _ \<Rightarrow> None"
    obtain b2 panicked where rec: "record_outcome cfg ?err (w_clock w1) b1 = (b2, panicked)" by fastforce
    have "step cfg (Finish (w_clock w1) ?err) \<lparr>brk = b1, running = Suc k, lost = l\<rparr> \<lparr>brk = b2, running = k, lost = l\<rparr>"
      using finished [of "\<lparr>brk = b1, running = Suc k, lost = l\<rparr>" k cfg ?err "w_clock w1" b2 panicked] rec by simp
    then have "reachable cfg \<lparr>brk = b2, running = k, lost = l\<rparr>" by (rule next_step [OF begun])
    then show ?thesis using Pair None q rec by (simp add: Breaker_Quote_def)
  qed
qed

section \<open>Requests one after the other\<close>

definition serve_run ::
  "env \<Rightarrow> jwt \<Rightarrow> Config \<Rightarrow> Directory \<Rightarrow> (draws \<times> ctx \<times> request) list \<Rightarrow> server \<Rightarrow> server" where
  "serve_run e j cfg dir reqs s = foldl (\<lambda>s (d, c, r). snd (NewRouter e j d cfg (Granted dir) c r s)) s reqs"

lemma serve_run_reachable:
  assumes "sv_brk s = NewBreaker"
  shows "reachable (cfg_Breaker cfg) \<lparr>brk = sv_brk (serve_run e j cfg dir reqs s), running = 0, lost = 0\<rparr>"
proof (induction reqs rule: rev_induct)
  case Nil
  then show ?case using reachable.start [of "cfg_Breaker cfg"] assms by (simp add: serve_run_def idle_system_def)
next
  case (snoc q reqs)
  obtain d c r where q: "q = (d, c, r)" by (cases q)
  let ?s = "serve_run e j cfg dir reqs s"
  have run: "serve_run e j cfg dir (reqs @ [q]) s = snd (NewRouter e j d cfg (Granted dir) c r ?s)"
    by (simp add: serve_run_def q)
  have brk: "sv_brk (snd (resilient e cfg c' req t)) =
      fst (snd (Breaker_Quote (Retrier_Quote e (VendorClient_Quote e (vendor_client cfg)) (cfg_Retry cfg))
        (cfg_Breaker cfg) c' req (sv_brk t) (sv_world t)))" for c' req t
    by (simp add: resilient_def split: prod.split)
  show ?case
  proof (cases rule: router_state [of e j d cfg dir c r ?s])
    case untouched
    then show ?thesis using snoc.IH by (simp add: run)
  next
    case received
    then show ?thesis using snoc.IH by (simp add: run)
  next
    case (served c' req)
    then show ?thesis using Breaker_Quote_reachable [OF snoc.IH] by (simp add: run brk)
  qed
qed

lemma reject_when_idle:
  assumes "inFlight b = 0" "1 \<le> Probes cfg"
  shows "fst (reject cfg now b) \<noteq> None \<longleftrightarrow> brk_state b = open_state \<and> time_sub now (openedAt b) < OpenFor cfg"
  using assms by (auto simp: reject_def admit_def Let_def)

section \<open>The clock of the BFF\<close>

lemma client_timely:
  assumes "prompt e" "ctx_deadline c = Some d"
  shows "w_clock (snd (MiddlewareClient_Quote e j random cl c sid body w)) \<le> max (w_clock w) d"
proof -
  have "w_clock w' \<le> max (w_clock w) d" if "http_do e (mc_timeout cl) c rq w = (rp, w')" for rq rp w'
    using http_do_prompt [OF assms, of "mc_timeout cl" rq w] that by simp
  then show ?thesis by (auto simp: MiddlewareClient_Quote_def split: sum.split option.split prod.split)
qed

text \<open>Time passes while a body arrives and in the quote handler's one call of the Middleware.\<close>

lemma handler_worlds:
  "bf_world (snd (SignIn h c r s)) = bf_world (bff_receive r s)"
  "bf_world (snd (CurrentSession c r s)) = bf_world s"
  "bf_world (snd (SignOut h c r s)) = bf_world s"
proof -
  have cur: "bf_world (snd (current_session r s)) = bf_world s" using current_session_ops by blast
  then show "bf_world (snd (CurrentSession c r s)) = bf_world s" by (simp add: CurrentSession_state)
  show "bf_world (snd (SignIn h c r s)) = bf_world (bff_receive r s)"
    by (auto simp: SignIn_def refuse_eq respond_def Let_def split: option.split sum.split prod.split)
  show "bf_world (snd (SignOut h c r s)) = bf_world s"
    using cur by (cases "current_session r s") (auto simp: SignOut_def respond_def split: option.split)
qed

lemma quote_world:
  "bf_world (snd (Bff_Quote h c r s)) \<in> {bf_world s, bf_world (bff_receive r s)}
   \<or> (\<exists>random sid body. bf_world (snd (Bff_Quote h c r s)) = snd (hd_quotes h random c sid body (bf_world (bff_receive r s))))"
proof -
  obtain out s1 where cs: "current_session r s = (out, s1)" by fastforce
  have "bf_world s1 = bf_world s" using current_session_ops [of r s] cs by auto
  then have w: "bf_world s1 = bf_world s" "bf_world (bff_receive r s1) = bf_world (bff_receive r s)"
    by (simp_all add: bff_receive_def bff_clock_def)
  show ?thesis
  proof (cases out)
    case None
    then show ?thesis using cs w by (simp add: Bff_Quote_def unauthenticated_eq)
  next
    case (Some sess)
    show ?thesis
    proof (cases "read_body maxBody r")
      case (Inl err)
      then show ?thesis using cs w Some by (simp add: Bff_Quote_def respond_def)
    next
      case (Inr body)
      obtain status answer w' where q: "hd_quotes h (hd_random h (bf_draws s1)) c (ID (sess_Staff sess)) body
          (bf_world (bff_receive r s)) = ((status, answer), w')" by (metis prod.exhaust)
      then have "bf_world (snd (Bff_Quote h c r s)) = w'"
        using cs w Some Inr by (simp add: Bff_Quote_def respond_def)
      with q show ?thesis by (metis snd_conv)
    qed
  qed
qed

lemma mux_world:
  "bf_world (snd (bff_mux h c r s)) \<in> {bf_world s, bf_world (bff_receive r s)}
   \<or> (\<exists>random sid body. bf_world (snd (bff_mux h c r s)) = snd (hd_quotes h random c sid body (bf_world (bff_receive r s))))"
proof -
  have "\<exists>out. bff_mux h c r s = (out, s) \<or> bff_mux h c r s = SignIn h c r s \<or> bff_mux h c r s = CurrentSession c r s
      \<or> bff_mux h c r s = SignOut h c r s \<or> bff_mux h c r s = Bff_Quote h c r s"
    by (simp add: bff_mux_def Mux_def Health_def respond_def)
  then have "bf_world (snd (bff_mux h c r s))
      \<in> {bf_world s, bf_world (bff_receive r s), bf_world (snd (Bff_Quote h c r s))}"
    by (auto simp: handler_worlds)
  then show ?thesis using quote_world [of h c r s] by (metis insertE insertI1 insertI2 singletonD)
qed

lemma bff_within_budget:
  assumes "prompt e"
  shows "bff_clock (snd (Bff_NewRouter d cfg (bff_handler e j random cfg bc a) c r s))
    \<le> bff_clock s + max (int (rq_body_time r)) (max 0 (RequestTimeout cfg))"
proof -
  let ?c = "bff_ctx d cfg c r s" and ?h = "bff_handler e j random cfg bc a"
  have eq: "snd (Bff_NewRouter d cfg ?h c r s) = snd (bff_mux ?h ?c r s)"
    by (simp add: Bff_NewRouter_def Correlation_def Timeout_def bff_ctx_def Let_def split_def)
  obtain t where t: "ctx_deadline ?c = Some t" "t \<le> bff_clock s + RequestTimeout cfg"
    by (auto simp: bff_ctx_def with_timeout_def split: option.split)
  have clock: "w_clock (bf_world (bff_receive r s)) = bff_clock s + int (rq_body_time r)"
    by (simp add: bff_receive_def)
  have "w_clock (snd (hd_quotes ?h random' ?c sid body (bf_world (bff_receive r s))))
      \<le> max (bff_clock s + int (rq_body_time r)) t" for random' sid body
    using client_timely [OF assms t(1), where w = "bf_world (bff_receive r s)"] clock by (simp add: bff_handler_def)
  then have "w_clock (snd (hd_quotes ?h random' ?c sid body (bf_world (bff_receive r s))))
      \<le> bff_clock s + max (int (rq_body_time r)) (max 0 (RequestTimeout cfg))" for random' sid body
    using t(2) by (smt (verit))
  moreover have "w_clock (bf_world s) \<le> bff_clock s + max (int (rq_body_time r)) (max 0 (RequestTimeout cfg))"
    "w_clock (bf_world (bff_receive r s)) \<le> bff_clock s + max (int (rq_body_time r)) (max 0 (RequestTimeout cfg))"
    unfolding clock by (simp_all add: bff_clock_def)
  ultimately show ?thesis using mux_world [of ?h ?c r s] by (auto simp: eq bff_clock_def)
qed

section \<open>Property\<close>

text \<open>
  C9: a Middleware never wedges. Started fresh, with a window that is not negative and at least one probe,
  after any run of requests, whatever they and the vendor were, the breaker is in order, no call is counted
  as running, and a call is turned away only while the circuit is open and \<open>OpenFor\<close> is not over: there is
  no state from which the service does not recover.
\<close>

theorem service_never_wedges:
  assumes "sv_brk s = NewBreaker" "0 \<le> Window (cfg_Breaker cfg)" "1 \<le> Probes (cfg_Breaker cfg)"
    and b: "b = sv_brk (serve_run e j cfg dir reqs s)"
  shows "breaker_inv (cfg_Breaker cfg) b \<and> inFlight b = 0
    \<and> (\<forall>now. fst (reject (cfg_Breaker cfg) now b) \<noteq> None
         \<longleftrightarrow> brk_state b = open_state \<and> time_sub now (openedAt b) < OpenFor (cfg_Breaker cfg))"
proof -
  have "breaker_inv (cfg_Breaker cfg) b \<and> inFlight b = 0"
    using reachable_inv [OF serve_run_reachable [OF assms(1)] assms(2)] by (simp add: b)
  then show ?thesis using reject_when_idle assms(3) by blast
qed

theorem service_never_wedges_witness:
  "inFlight (sv_brk (serve_run stalling_env example_jwt example_config example_dir
      [(example_draws, background, example_post), (example_draws, background, bare_request)] example_server)) = 0"
proof -
  have "sv_brk example_server = NewBreaker" "0 \<le> Window (cfg_Breaker example_config)"
    "1 \<le> Probes (cfg_Breaker example_config)"
    by (simp add: example_server_def) code_simp+
  from service_never_wedges [OF this refl] show ?thesis by blast
qed

end
