(* ===== verification/Spec2Isabelle.thy ===== *)
theory Spec2Isabelle
  imports Mesh Budget Logging Launch Devtools Contract Accesslog Service
begin

text \<open>
  A verification development for the commission quote application (Go, \<open>src/internal\<close> and \<open>src/cmd\<close>).

  The program. A staff member signs in to the BFF (\<open>internal/cqappbff\<close>) from a browser and asks for a commission
  quote. The BFF looks the session up, mints a short-lived token for that staff member and forwards the body to
  the Middleware (\<open>internal/cqappmiddleware\<close>), which verifies the token, checks its own staff directory,
  validates the body and asks the vendor through a circuit breaker around a retrier around a client. The vendor
  is played by \<open>internal/cqapimock\<close>. All three share \<open>internal/platform\<close>: exact money, one error envelope, HTTP
  middleware, the token contract, the staff fixture, secrets and the configuration loader.

  How it is modelled. Every operation is an executable function from the state before to the state after,
  composed as the code composes it; a Go error is a value of \<open>go_error\<close> and a result with an error a sum; a
  panic is \<^const>\<open>None\<close> (or a flag) where the code can panic. Handlers are functions from a context, a
  request and the service's state to a response and the next state. \<open>int\<close> and \<open>time.Duration\<close> are integers with
  \<open>wrap64\<close> written where the code can overflow; \<open>float64\<close> is a value type with rounding to the nearest even
  written out, and an instance of the library's orders. Time, randomness and the far end of a connection are
  arguments or a record of functions (\<open>env\<close>), so that properties hold for every behaviour of them.

  The theories, from the bottom. \<open>Prelude\<close>, \<open>GoStrings\<close>, \<open>GoJson\<close>, \<open>GoFloat\<close>, \<open>GoConv\<close>: what the source uses of
  the standard library (\<open>strings\<close>, the scanner and encoder of \<open>encoding/json\<close>, \<open>strconv\<close>, \<open>time.ParseDuration\<close>).
  \<open>GoErrors\<close>: error trees and \<open>httpx/errors.go\<close>. \<open>Money\<close>: \<open>money.go\<close>. \<open>Validate\<close>: \<open>validate.go\<close>. \<open>Env\<close>, \<open>Httpx\<close>:
  contexts, the environment, \<open>httpx/middleware.go\<close> and \<open>health.go\<close>. \<open>Vendor\<close>, \<open>Retry\<close>, \<open>Breaker\<close>: \<open>vendor.go\<close>,
  \<open>retry.go\<close>, \<open>breaker.go\<close>, the breaker also as a step relation for concurrent calls. \<open>Authtoken\<close>, \<open>Staffdir\<close>:
  \<open>token.go\<close>, \<open>staffdir.go\<close>. \<open>Middleware\<close>: \<open>auth.go\<close>, \<open>entitle.go\<close>, \<open>handler.go\<close>. \<open>Wire\<close>, \<open>VendorMock\<close>: reading
  back what is written, and the mock. \<open>Settings\<close>, \<open>Startup\<close>: \<open>secrets.go\<close>, \<open>config.go\<close> of the platform and of
  each service. \<open>Sessions\<close>, \<open>Signin\<close>, \<open>Envelope\<close>, \<open>Bff\<close>: \<open>session.go\<close>, \<open>auth.go\<close>, \<open>quotes.go\<close>, \<open>messages.go\<close>,
  \<open>router.go\<close>. \<open>Mesh\<close> joins the BFF and the Middleware on one wire. \<open>Contract\<close>: the shape of every answer of the
  Middleware, down to the bytes. \<open>Budget\<close>: its clock, from the request to the answer. \<open>Service\<close>: the Middleware
  over any run of requests, on the reachable states of its breaker, and the clock of the BFF. \<open>Logging\<close>:
  \<open>logging.go\<close>. \<open>Handlerlog\<close>: the handlers, their middleware and the clients of the three services once more with
  their log calls, each agreeing with the silent one. \<open>Accesslog\<close>: the request log around each router with them. \<open>Launch\<close>:
  \<open>telemetry.go\<close>, \<open>Serve\<close> of \<open>httpx/server.go\<close> and the \<open>main\<close> of the three services. \<open>Fixtures\<close>, \<open>Devtools\<close>:
  what appending a row does to a fixture, \<open>devstaff\<close> and \<open>devtoken\<close> under \<open>src/cmd\<close>. This theory holds the
  properties of the whole.

  What the lemmas show. Each component has its operations on every branch, its invariant where it has state (the
  breaker in every reachable state of any interleaving, the session store, the staff directory), and what it
  promises its caller; the last section of a theory has its properties and closed examples of them. Across
  components: nothing reaches the vendor unless every gate is open, statuses say how far a request got, every
  answer is one typed JSON object, in time if the body of the request was, an error crosses both services and only
  changes its wording, a service announces itself exactly when it is ready, and what the developer tools write
  the services read back.

  Interfaces are locales, each interpreted on the model's own definitions: what calls a vendor (\<open>quote_source\<close>
  in \<open>Vendor\<close>, for the client, and again in \<open>Retry\<close> for the retrier around it), the source of entitlements
  (\<open>entitlements\<close> in \<open>Staffdir\<close>), the session store (\<open>live_store\<close> in \<open>Sessions\<close>), a vendor that keeps to a
  deadline (\<open>timely_source\<close> in \<open>Budget\<close>, for the client, the retrier inherits it) and a vendor that logs
  (\<open>talking_source\<close> in \<open>Handlerlog\<close>, likewise).

  Time. The clock of a service moves while a handler waits: for the body of its request (\<open>rq_body_time\<close>), for a
  reply, for a retry, or in the mock's simulation. Computing, looking things up and writing a response take no
  time. No deadline of the servers ends a wait for a body, as in the code, so what is said of budgets says what
  the caller must do.

  Parameters. Code that is not in the repository is a parameter: the JWT library (\<open>jwt\<close>, with its documented
  behaviour as \<open>jwt_documented\<close>), bcrypt (\<open>bcrypt\<close>), \<open>url.Parse\<close>, \<open>url.JoinPath\<close> and \<open>net.ParseIP\<close>, the seeded
  generator of the mock and the trace ids of the tracing SDK. The witnesses instantiate them.

  Bounds and fuel. The retry loop and the parsers that are not structural have termination proofs by a measure,
  so every function is total and no fuel appears. The JSON scanner limits nesting to 10000 as Go does. Bodies
  are read up to 65536 bytes on each hop, as in the code.

  Not modelled. How \<open>log/slog\<close> renders a line, and the text of an error, which calls of the logger give as
  \<open>cause\<close>; the start and stop lines of the processes have their place in \<open>Launch\<close> but no attributes. The tracing
  SDK itself. Sockets, signals and the drain of
  \<open>httpx.Serve\<close> are answers of the operating system (the record \<open>os\<close>), and the files of the developer tools a
  map from paths to contents. Goroutine scheduling other than the interleaving of breaker calls (the other
  shared state is only touched under its own lock by one operation at a time); Unicode case folding of keys
  beyond ASCII; failures to write a response; what an HTTP client does below \<open>Do\<close> (a reply's status has three
  digits and is final); texts printed to a terminal.
\<close>

section \<open>From the browser to the vendor\<close>

lemma forwarded_outcome:
  assumes "jwt_documented j"
    and "Mint j (Some bs) now (SigningKey cfg) sid [ScopeQuoteGenerate] ttl = Inr token" "token_text token"
    and "ascii sid" "trim_space sid = sid" "sid \<noteq> []"
    and "NewNumericDate now - ClockSkew cfg \<le> server_clock s"
    and "server_clock s < NewNumericDate (now + ttl) + ClockSkew cfg"
    and "0 \<le> Window (cfg_Breaker cfg)"
  shows "\<exists>resp s'. NewRouter e j d cfg (Granted dir) c' (forwarded token c body) s = (Some resp, s')
    \<and> (if \<not> staff_holds dir sid ScopeQuoteGenerate then resp_status resp = 403
       else if \<nexists>req. acceptable (forwarded token c body) req then resp_status resp = 400
       else resp_status resp \<in> {200, 500, 502, 503, 504})
    \<and> (resp_status resp = 200 \<or> tells (correlation_id d (forwarded token c body)) error_classes resp)"
proof -
  let ?r = "forwarded token c body"
  let ?caller = "\<lparr>Subject = sid, TokenID = hex_encode bs, Requested = [ScopeQuoteGenerate]\<rparr>"
  have "list_all ascii [ScopeQuoteGenerate]" by code_simp
  then have "Verify j (NewVerifier (SigningKey cfg) (ClockSkew cfg)) (server_clock s) token = Inr ?caller"
    using minted_verifies [OF assms(1,2,4), of "ClockSkew cfg" "server_clock s"] assms(5-8) by auto
  then have v: "verified j cfg ?r s ?caller"
    using forwarded_bearer [OF assms(3)] by (auto simp: verified_def)
  obtain resp s' where m: "NewRouter e j d cfg (Granted dir) c' ?r s = (Some resp, s')"
    and all: "\<forall>caller. verified j cfg ?r s caller \<longrightarrow>
        (if ScopeQuoteGenerate \<notin> set (Requested caller) \<or> \<not> staff_holds dir (Subject caller) ScopeQuoteGenerate
         then resp_status resp = 403 \<and> s' = s
         else if \<nexists>req. acceptable ?r req then resp_status resp = 400 \<and> s' = receive_body ?r s
         else resp_status resp \<in> {200, 500, 502, 503, 504})"
    and told: "resp_status resp = 200 \<or> tells (correlation_id d ?r) error_classes resp"
    using router_outcome [OF forwarded_simps assms(9), of e j d dir c' token c body s] by blast
  have "if \<not> staff_holds dir sid ScopeQuoteGenerate then resp_status resp = 403
       else if \<nexists>req. acceptable ?r req then resp_status resp = 400
       else resp_status resp \<in> {200, 500, 502, 503, 504}"
    using all [rule_format, OF v] by (simp split: if_splits)
  with m told show ?thesis by blast
qed

text \<open>
  C3: a signed in staff member's quote, from the browser to the vendor's side and back. Given a session, a
  token the JWT library mints under the key both services share once the body is in, and clocks within the token's life and
  the skew, the BFF makes exactly one call and the browser is answered 403 exactly if the Middleware's own
  directory does not grant the staff member the scope, then 400 exactly if the body does not validate, and
  otherwise 200 or an upstream failure; never 401. Every failure carries a code, the wording of that code
  and the correlation id of this request, which is the same on both services.
\<close>

theorem mesh_quote_outcome:
  assumes "rq_method r = ''POST''" "rq_path r = ''/api/v1/quotes''"
    and "fst (current_session r st) = Some sess" "sid = ID (sess_Staff sess)" "read_body maxBody r = Inr body"
    and "jwt_documented j" "random (bf_draws st) = Some bs" "bc_SigningKey bcfg = SigningKey cfg"
    and "Mint j (Some bs) now (SigningKey cfg) sid [ScopeQuoteGenerate] (TokenTTL bcfg) = Inr token"
    and "token_text token" "ascii sid" "trim_space sid = sid" "sid \<noteq> []"
    and "served_by e (\<lambda>q. fst (NewRouter e' j d cfg (Granted dir) c' q s))"
    and "env_join_path e (MiddlewareBaseURL bcfg) ''/v1/quotes'' = Some endpoint" "env_request_ok e endpoint"
    and "NewNumericDate now - ClockSkew cfg \<le> server_clock s"
    and "server_clock s < NewNumericDate (now + TokenTTL bcfg) + ClockSkew cfg"
    and "0 \<le> Window (cfg_Breaker cfg)" "safe_id (correlation_id d' r)"
    and now: "now = bff_clock st + int (rq_body_time r)"
  shows "\<exists>resp st'. Bff_NewRouter d' bcfg (bff_handler e j random bcfg bc a) c r st = (Some resp, st')
    \<and> (if \<not> staff_holds dir sid ScopeQuoteGenerate then resp_status resp = 403
       else if \<nexists>req. Validate body = Some (req, []) then resp_status resp = 400
       else resp_status resp \<in> {200, 500, 502, 503, 504})
    \<and> (resp_status resp = 200 \<or> (\<exists>code details.
         resp_body resp = encode_envelope code (userMessage code) details (correlation_id d' r)))
    \<and> length (w_sent (bf_world st')) = Suc (length (w_sent (bf_world st)))"
proof -
  let ?c = "bff_ctx d' bcfg c r st" and ?h = "bff_handler e j random bcfg bc a"
  let ?f = "forwarded token ?c body"
  have len: "length body \<le> 65536" using assms(5) by (auto simp: read_body_def maxBody_def split: if_splits option.splits)
  have safe: "safe_id (ctx_correlation ?c)" using assms(20) by simp
  obtain resp s' where m: "NewRouter e' j d cfg (Granted dir) c' ?f s = (Some resp, s')"
    and status: "if \<not> staff_holds dir sid ScopeQuoteGenerate then resp_status resp = 403
       else if \<nexists>req. acceptable ?f req then resp_status resp = 400
       else resp_status resp \<in> {200, 500, 502, 503, 504}"
    and told: "resp_status resp = 200 \<or> tells (correlation_id d' r) error_classes resp"
    using forwarded_outcome [OF assms(6,9-13,17-19), of e' d dir c' ?c body] forwarded_correlation [OF safe] by auto
  have valid: "acceptable ?f req \<longleftrightarrow> Validate body = Some (req, [])" for req
    by (simp add: acceptable_def forwarded_body [OF len])
  have relayed: "fst (relay ?c (Response (as_reply resp))) = resp_status resp
      \<and> (resp_status resp = 200 \<or> (\<exists>code details. snd (relay ?c (Response (as_reply resp)))
          = encode_envelope code (userMessage code) details (correlation_id d' r)))"
    using told
  proof
    assume "resp_status resp = 200"
    then show ?thesis by (simp add: relay_def as_reply_def)
  next
    assume t: "tells (correlation_id d' r) error_classes resp"
    have "resp_status resp \<noteq> 401" using status by (auto split: if_splits)
    then obtain code details where "relay ?c (Response (as_reply resp)) =
        (resp_status resp, encode_envelope code (userMessage code) details (correlation_id d' r))"
      using relay_tells [OF t assms(20)] by blast
    then show ?thesis by (metis fst_conv snd_conv)
  qed
  let ?w = "bf_world (bff_receive r st)"
  have w_now: "w_clock ?w = now" by (simp add: now bff_receive_def)
  obtain w where q: "hd_quotes ?h (hd_random ?h (bf_draws st)) ?c sid body ?w =
      (relay ?c (Response (as_reply resp)), w)" "length (w_sent w) = Suc (length (w_sent (bf_world st)))"
    using MiddlewareClient_Quote_served [where j = j and random = "Some bs" and w = ?w and sid = sid
        and token = token and e = e and endpoint = endpoint and c = ?c and body = body and resp = resp
        and cl = "NewMiddlewareClient (MiddlewareBaseURL bcfg) (bc_SigningKey bcfg) (TokenTTL bcfg) (RequestTimeout bcfg)",
        OF _ _ assms(16,14)] assms(7-9,15) m
    by (auto simp: bff_handler_def NewMiddlewareClient_def w_now)
  obtain st' where "Bff_Quote ?h ?c r st = (Some \<lparr>resp_status = fst (relay ?c (Response (as_reply resp))),
      resp_headers = [json_content_type], resp_body = snd (relay ?c (Response (as_reply resp)))\<rparr>, st')" "bf_world st' = w"
    using Bff_Quote_signed_in [OF assms(3,5), of ?h ?c] q(1) assms(4) by (metis prod.collapse)
  from bff_router_quote [OF assms(1,2) this(1)] this(2) q(2) relayed status show ?thesis
    unfolding valid by (simp split: if_split_asm)
qed

text \<open>The mesh of the closed examples: the token of \<open>example_jwt\<close>, one session, an empty body.\<close>

definition example_bff_config :: bff_Config where
  "example_bff_config =
     \<lparr>bc_Port = 8081, bc_LogLevel = ''info'', bc_OTLPEndpoint = [], MiddlewareBaseURL = ''http://m'',
      bc_SigningKey = ''key'', bc_StaffFile = ''staff.csv'', CredentialsFile = ''credentials.csv'',
      SessionTTL = 1800 * second, CookieSecure = True, TokenTTL = 60 * second, RequestTimeout = 8 * second\<rparr>"

definition example_quote_post :: request where
  "example_quote_post =
     \<lparr>rq_method = ''POST'', rq_path = ''/api/v1/quotes'', rq_headers = [(CorrelationHeader, ''abc-1'')],
      rq_cookies = [(SessionCookie, ''session-1'')], rq_body = [], rq_body_err = None, rq_body_time = 0\<rparr>"

definition example_bff_state :: bff where
  "example_bff_state = example_signed_in\<lparr>bf_world := start_world\<lparr>w_clock := 100 * second\<rparr>\<rparr>"

theorem mesh_quote_outcome_witness:
  "\<exists>resp st'. Bff_NewRouter example_draws example_bff_config
      (bff_handler (mesh_env (\<lambda>q. fst (NewRouter (scripted_env []) example_jwt example_draws example_config
         (Granted example_dir) background q example_server))) example_jwt (\<lambda>k. Some example_bytes)
         example_bff_config example_bcrypt \<lparr>fa_staff = example_directory, fa_hash = []\<rparr>)
      background example_quote_post example_bff_state = (Some resp, st')
     \<and> resp_status resp = 400 \<and> length (w_sent (bf_world st')) = 1"
proof -
  let ?far = "\<lambda>q. fst (NewRouter (scripted_env []) example_jwt example_draws example_config
      (Granted example_dir) background q example_server)"
  have r: "rq_method example_quote_post = ''POST''" "rq_path example_quote_post = ''/api/v1/quotes''"
    by (simp_all add: example_quote_post_def)
  have clock: "bff_clock example_bff_state = 100 * second"
    by (simp add: bff_clock_def example_bff_state_def)
  let ?sess = "\<lparr>sess_ID = ''session-1'', sess_Staff = example_staff_member, ExpiresAt = 1800 * second\<rparr>"
  have sess: "fst (current_session example_quote_post example_bff_state) = Some ?sess" "''s-1'' = ID (sess_Staff ?sess)"
    by (simp add: current_session_live cookie_value_def example_quote_post_def store_live_def clock)
       (simp_all add: example_bff_state_def example_signed_in_def store_put_def NewSessionStore_def
          example_staff_member_def)
  have body: "read_body maxBody example_quote_post = Inr []"
    by (simp add: read_body_def example_quote_post_def maxBody_def)
  have now: "100 * second = bff_clock example_bff_state + int (rq_body_time example_quote_post)"
    by (simp add: clock example_quote_post_def)
  have m: "Mint example_jwt (Some example_bytes) (100 * second) (SigningKey example_config) ''s-1''
      [ScopeQuoteGenerate] (TokenTTL example_bff_config) = Inr ''token''"
    using example_minted by (simp add: example_config_def example_bff_config_def)
  have key: "bc_SigningKey example_bff_config = SigningKey example_config"
    by (simp add: example_config_def example_bff_config_def)
  have f: "token_text ''token''" "ascii ''s-1''" "trim_space ''s-1'' = ''s-1''" "''s-1'' \<noteq> []"
    by code_simp+
  have url: "env_join_path (mesh_env ?far) (MiddlewareBaseURL example_bff_config) ''/v1/quotes'' = Some ''http://m/v1/quotes''"
    "env_request_ok (mesh_env ?far) ''http://m/v1/quotes''"
    by (simp_all add: mesh_env_def scripted_env_def example_bff_config_def)
  have time: "NewNumericDate (100 * second) - ClockSkew example_config \<le> server_clock example_server"
    "server_clock example_server < NewNumericDate (100 * second + TokenTTL example_bff_config) + ClockSkew example_config"
    by code_simp+
  have w: "0 \<le> Window (cfg_Breaker example_config)" by code_simp
  have safe: "safe_id (correlation_id example_draws example_quote_post)" by code_simp
  have h: "staff_holds example_dir ''s-1'' ScopeQuoteGenerate"
    by (simp add: staff_holds_def Lookup_def example_dir_def Let_def)
  have "snd (the (Validate [])) \<noteq> []" by code_simp
  then have v: "\<nexists>req. Validate [] = Some (req, [])" by auto
  have sent: "w_sent (bf_world example_bff_state) = []" by (simp add: example_bff_state_def start_world_def)
  show ?thesis
    using mesh_quote_outcome [OF r sess body example_documented refl key m f mesh_env_served [of ?far] url time w safe now,
        where bc = example_bcrypt and a = \<open>\<lparr>fa_staff = example_directory, fa_hash = []\<rparr>\<close> and c = background] h v sent
    by auto
qed

text \<open>
  C4: an error of the Middleware as the browser gets it. The BFF reads back exactly the status, code,
  details and correlation id the Middleware wrote, and replaces the message by its own wording; only a 401
  becomes a 502, because it is the BFF's token that was rejected and not the user.
\<close>

theorem relayed_error:
  assumes "plain (Code e)" "plain (Message e)" "plain cid" "list_all plain_detail (Details e)"
    and "Code e \<noteq> []" "Status e \<noteq> 200" and "length (resp_body (WriteError cid (HttpxError e))) \<le> 65536"
  shows "relay c (Response (as_reply (WriteError cid (HttpxError e)))) =
    (if Status e = 401
     then (502, encode_envelope CodeUpstreamUnavailable (userMessage CodeUpstreamUnavailable) [] (ctx_correlation c))
     else (Status e, encode_envelope (Code e) (userMessage (Code e)) (Details e) cid))"
proof -
  have "resp_body (WriteError cid (HttpxError e)) = encode_envelope (Code e) (Message e) (Details e) cid @ newline"
    and "resp_status (WriteError cid (HttpxError e)) = Status e"
    by (simp_all add: WriteError_def WriteJSON_def Let_def)
  then show ?thesis
    using relay_envelope [OF assms(1-5), of "WriteError cid (HttpxError e)" c] assms(6,7) by simp
qed

text \<open>A refusal for want of the scope keeps its status; a rejected token does not.\<close>

theorem relayed_error_witness:
  "relay background (Response (as_reply (WriteError ''c-1'' (HttpxError (Forbidden None))))) =
     (403, encode_envelope CodeForbidden ''You do not have access to generate quotes.'' [] ''c-1'')
   \<and> fst (relay background (Response (as_reply (WriteError ''c-1'' (HttpxError (Unauthenticated None)))))) = 502"
proof -
  have f: "plain (Code (Forbidden None))" "plain (Message (Forbidden None))" "plain ''c-1''"
    "list_all plain_detail (Details (Forbidden None))" "Code (Forbidden None) \<noteq> []" "Status (Forbidden None) \<noteq> 200"
    "length (resp_body (WriteError ''c-1'' (HttpxError (Forbidden None)))) \<le> 65536"
    by code_simp+
  have u: "plain (Code (Unauthenticated None))" "plain (Message (Unauthenticated None))" "plain ''c-1''"
    "list_all plain_detail (Details (Unauthenticated None))" "Code (Unauthenticated None) \<noteq> []"
    "Status (Unauthenticated None) \<noteq> 200"
    "length (resp_body (WriteError ''c-1'' (HttpxError (Unauthenticated None)))) \<le> 65536"
    by code_simp+
  have "Status (Forbidden None) = 403" "Code (Forbidden None) = CodeForbidden" "Details (Forbidden None) = []"
    "userMessage CodeForbidden = ''You do not have access to generate quotes.''" "Status (Unauthenticated None) = 401"
    by code_simp+
  then show ?thesis
    using relayed_error [OF f, of background] relayed_error [OF u, of background] by simp
qed

text \<open>
  C22: a server does not cut its own answers off. Whatever request a Middleware or a BFF that has announced
  itself is given, with a budget that does not overflow, the response is complete at least five seconds before
  the write timeout it announced, provided the caller sent the body within the budget and the HTTP client
  keeps to its deadline. (A caller that is slower still can outlast the write timeout, since neither server
  has a read timeout for bodies.) The grace they leave requests on shutdown is ten seconds whatever the budget is.
\<close>

theorem answered_before_write_timeout:
  assumes "prompt e"
    and "so \<in> set (announced (run_middleware os net))" "Load_middleware net (EnvProvider (os_env os)) = Inr cfg"
    and "int (rq_body_time r) \<le> RequestBudget cfg" "RequestBudget cfg + 5 * second < 2 ^ 63"
    and "so' \<in> set (announced (run_bff os net bc))" "Load_bff net (EnvProvider (os_env os)) = Inr bcfg"
    and "int (rq_body_time rb) \<le> RequestTimeout bcfg" "RequestTimeout bcfg + 5 * second < 2 ^ 63"
  shows "server_clock (snd (NewRouter e j d cfg (Granted dir) c r s)) + 5 * second \<le> server_clock s + WriteTimeout so
    \<and> bff_clock (snd (Bff_NewRouter d bcfg (bff_handler e j random bcfg bc a) c rb sb)) + 5 * second
        \<le> bff_clock sb + WriteTimeout so'
    \<and> ShutdownGrace so = 10 * second \<and> ShutdownGrace so' = 10 * second"
proof -
  have so: "so = serve_defaults (serve_options (cfg_Port cfg) (wrap64 (RequestBudget cfg + 5 * second)))"
    using assms(2,3) by (auto simp: middleware_announced middleware_ready_def)
  have so': "so' = serve_defaults (serve_options (bc_Port bcfg) (wrap64 (RequestTimeout bcfg + 5 * second)))"
    using assms(6,7) by (auto simp: bff_announced bff_ready_def)
  have pos: "0 \<le> RequestBudget cfg" "0 \<le> RequestTimeout bcfg" using assms(4,8) by linarith+
  then have "is_int64 (RequestBudget cfg + 5 * second)" "is_int64 (RequestTimeout bcfg + 5 * second)"
    using assms(5,9) by (simp_all add: is_int64_def)
  then have "WriteTimeout so = RequestBudget cfg + 5 * second" "WriteTimeout so' = RequestTimeout bcfg + 5 * second"
    using pos by (simp_all add: so so' serve_defaults_write wrap64_id)
  then show ?thesis
    using router_within_budget [OF assms(1), of j d cfg dir c r s] assms(4,8) pos
      bff_within_budget [OF assms(1), of d bcfg j random bc a c rb sb]
    by (simp add: so so' serve_defaults_grace)
qed

definition example_os :: os where
  "example_os =
     \<lparr>os_env = map_of example_keys,
      os_read = (\<lambda>path. read_file example_files (if path = ''config/credentials.csv'' then ''credentials.csv'' else ''staff.csv'')),
      os_resource = None, os_exporter = (\<lambda>e. None), os_listen = (\<lambda>p. None), os_end = Signalled None\<rparr>"

theorem answered_before_write_timeout_witness:
  "\<exists>so cfg so' bcfg. so \<in> set (announced (run_middleware example_os example_net)) \<and> WriteTimeout so = 11 * second
     \<and> so' \<in> set (announced (run_bff example_os example_net example_bcrypt)) \<and> WriteTimeout so' = 13 * second
     \<and> server_clock (snd (NewRouter stalling_env example_jwt example_draws cfg (Granted example_dir) background
          (example_post\<lparr>rq_body_time := 6000000000\<rparr>) example_server)) + 5 * second \<le> 131 * second"
proof -
  obtain cfg where cfg: "Load_middleware example_net (EnvProvider (os_env example_os)) = Inr cfg"
    "RequestBudget cfg = 6 * second" "OTLPEndpoint cfg = []" "StaffFile cfg = ''config/staff.csv''"
    using example_loads(1) by (auto simp: example_os_def)
  obtain bcfg where bcfg: "Load_bff example_net (EnvProvider (os_env example_os)) = Inr bcfg"
    "RequestTimeout bcfg = 8 * second" "bc_OTLPEndpoint bcfg = []" "bc_StaffFile bcfg = ''config/staff.csv''"
    "CredentialsFile bcfg = ''config/credentials.csv''"
    using example_loads(2) by (auto simp: example_os_def)
  obtain dir auth where files: "Load_staff (read_file example_files ''staff.csv'') = Inr dir"
    "NewFixtureAuth example_bcrypt dir (read_file example_files ''credentials.csv'') = Inr auth"
    by (rule example_before)
  have "middleware_ready example_os example_net cfg dir"
    using cfg files by (simp add: middleware_ready_def Init_def) (simp add: example_os_def)
  moreover have "bff_ready example_os example_net example_bcrypt bcfg auth"
    using bcfg files by (simp add: bff_ready_def Init_def) (simp add: example_os_def)
  ultimately have so: "serve_defaults (serve_options (cfg_Port cfg) (wrap64 (RequestBudget cfg + 5 * second)))
        \<in> set (announced (run_middleware example_os example_net))" (is "?so \<in> _")
    and so': "serve_defaults (serve_options (bc_Port bcfg) (wrap64 (RequestTimeout bcfg + 5 * second)))
        \<in> set (announced (run_bff example_os example_net example_bcrypt))" (is "?so' \<in> _")
    by (auto simp: middleware_announced bff_announced)
  have "wrap64 (6 * second + 5 * second) = 11 * second" "wrap64 (8 * second + 5 * second) = 13 * second" by code_simp+
  then have timeout: "WriteTimeout ?so = 11 * second" "WriteTimeout ?so' = 13 * second"
    by (simp_all add: serve_defaults_write cfg(2) bcfg(2))
  have clock: "server_clock example_server = 120 * second" by code_simp
  let ?slow = "example_post\<lparr>rq_body_time := 6000000000\<rparr>"
  have budget: "int (rq_body_time ?slow) \<le> RequestBudget cfg" "RequestBudget cfg + 5 * second < 2 ^ 63"
    "int (rq_body_time ?slow) \<le> RequestTimeout bcfg" "RequestTimeout bcfg + 5 * second < 2 ^ 63"
    by (simp_all add: cfg(2) bcfg(2))
  have "server_clock (snd (NewRouter stalling_env example_jwt example_draws cfg (Granted example_dir) background
          (example_post\<lparr>rq_body_time := 6000000000\<rparr>) example_server)) + 5 * second \<le> 120 * second + 11 * second"
    using answered_before_write_timeout [OF stalling_prompt so cfg(1) budget(1,2) so' bcfg(1) budget(3,4),
        of example_jwt example_draws example_dir background example_server]
    unfolding timeout clock by (rule conjunct1)
  then show ?thesis using so so' timeout
    by (intro exI [of _ ?so] exI [of _ cfg] exI [of _ ?so']) simp
qed

end
